theory Spec2Isabelle
  imports Main "HOL-Library.Char_ord" "HOL-Library.List_Lexorder"
begin

section \<open>The registry replacer of ci-tools\<close>

text \<open>
  The development embeds \<^verbatim>\<open>cmd/registry-replacer/main.go\<close> and the earlier revision of the
  same program kept beside it (its line-based extractor \<^verbatim>\<open>extractAllSourceImagesFromDockerfile\<close>).
  Go strings and byte slices are \<open>string\<close> (a list of bytes), Go maps are association lists
  with distinct keys, errors are values of the datatype \<open>error\<close>.
\<close>

subsection \<open>Errors\<close>

datatype error =
    PullStringParseError string nat
      \<comment> \<open>"pull stringe %q couldn't be parsed, expected to get between one and three elements after slashsplitting, got %d"\<close>
  | WordCountError string nat
      \<comment> \<open>"extracting words from line %q did not yield two or four but %d results"\<close>
  | ThreeElementsError string nat
      \<comment> \<open>"expected three elements when splitting string %q by '/', got %d"\<close>
  | External string
      \<comment> \<open>an error returned by a collaborator (file getter, parser, marshaler, writer)\<close>
  | Wrapped string error
      \<comment> \<open>\<^verbatim>\<open>fmt.Errorf("<context>: %w", err)\<close>\<close>
  | Aggregate "error list"
      \<comment> \<open>\<^verbatim>\<open>utilerrors.NewAggregate\<close> of a non-empty list\<close>

subsection \<open>Strings\<close>

text \<open>\<^verbatim>\<open>strings.Split(s, sep)\<close> for a separator of one byte: the pieces between the separators,
  one more than there are separators.\<close>

fun strings_Split :: "char \<Rightarrow> string \<Rightarrow> string list" where
  "strings_Split c [] = [[]]"
| "strings_Split c (x # xs) =
     (if x = c then [] # strings_Split c xs
      else (case strings_Split c xs of
              [] \<Rightarrow> [[x]]
            | w # ws \<Rightarrow> (x # w) # ws))"

subsection \<open>The pull-spec canonicalizer\<close>

record orgRepoTag =
  org :: string
  repo :: string
  tag :: string

definition String :: "orgRepoTag \<Rightarrow> string" where
  "String ort = org ort @ ''_'' @ repo ort @ ''_'' @ tag ort"

text \<open>The tail of \<^verbatim>\<open>orgRepoTagFromPullString\<close>: the repo is split on every \<open>:\<close>, and only a
  split into exactly two pieces sets repo and tag.\<close>

definition splitRepoTag :: "orgRepoTag \<Rightarrow> orgRepoTag" where
  "splitRepoTag res =
     (let repoTag = strings_Split CHR '':'' (repo res) in
      if length repoTag = 2 then res\<lparr>repo := repoTag ! 0, tag := repoTag ! 1\<rparr> else res)"

definition orgRepoTagFromPullString :: "string \<Rightarrow> error + orgRepoTag" where
  "orgRepoTagFromPullString pullString =
     (let res = \<lparr>org = [], repo = [], tag = ''latest''\<rparr>;
          slashSplit = strings_Split CHR ''/'' pullString;
          n = length slashSplit
      in if n = 1 then Inr (splitRepoTag (res\<lparr>org := ''_'', repo := slashSplit ! 0\<rparr>))
         else if n = 2 then Inr (splitRepoTag (res\<lparr>org := slashSplit ! 0, repo := slashSplit ! 1\<rparr>))
         else if n = 3 then Inr (splitRepoTag (res\<lparr>org := slashSplit ! 1, repo := slashSplit ! 2\<rparr>))
         else Inl (PullStringParseError pullString n))"

text \<open>The canonicalizer as the specification words it: the repo is cut at its first \<open>:\<close>.\<close>

definition spec_splitFirst :: "char \<Rightarrow> string \<Rightarrow> string list" where
  "spec_splitFirst c s =
     (if c \<in> set s then [takeWhile (\<lambda>x. x \<noteq> c) s, tl (dropWhile (\<lambda>x. x \<noteq> c) s)] else [s])"

definition spec_splitRepoTag :: "orgRepoTag \<Rightarrow> orgRepoTag" where
  "spec_splitRepoTag res =
     (case spec_splitFirst CHR '':'' (repo res) of
        [r, t] \<Rightarrow> res\<lparr>repo := r, tag := t\<rparr>
      | _ \<Rightarrow> res\<lparr>tag := ''latest''\<rparr>)"

definition spec_orgRepoTagFromPullString :: "string \<Rightarrow> error + orgRepoTag" where
  "spec_orgRepoTagFromPullString pullString =
     (case strings_Split CHR ''/'' pullString of
        [a] \<Rightarrow> Inr (spec_splitRepoTag \<lparr>org = ''_'', repo = a, tag = []\<rparr>)
      | [a, b] \<Rightarrow> Inr (spec_splitRepoTag \<lparr>org = a, repo = b, tag = []\<rparr>)
      | [a, b, c] \<Rightarrow> Inr (spec_splitRepoTag \<lparr>org = b, repo = c, tag = []\<rparr>)
      | segs \<Rightarrow> Inl (PullStringParseError pullString (length segs)))"

text \<open>What the code makes of the repo part \<open>seg\<close>: split on every \<open>:\<close>, repo and tag from
  exactly two pieces, otherwise the whole part with the default tag.\<close>

definition repoTagOf :: "string \<Rightarrow> orgRepoTag \<Rightarrow> bool" where
  "repoTagOf seg r =
     (let parts = strings_Split CHR '':'' seg in
      if length parts = 2 then repo r = parts ! 0 \<and> tag r = parts ! 1
      else repo r = seg \<and> tag r = ''latest'')"

subsection \<open>The configuration document\<close>

record ImageStreamTagReference =
  Namespace :: string
  Name :: string
  Tag :: string

record ImageBuildInputs =
  As :: "string list"
  Paths :: "(string \<times> string) list"

record ProjectDirectoryImageBuildStepConfiguration =
  From :: string
  To :: string
  ContextDir :: string
  DockerfilePath :: string
  Inputs :: "(string \<times> ImageBuildInputs) list"

record Metadata =
  Org :: string
  Repo :: string
  Branch :: string

record ReleaseBuildConfiguration =
  Images :: "ProjectDirectoryImageBuildStepConfiguration list"
  BaseImages :: "(string \<times> ImageStreamTagReference) list"
  Metadata :: Metadata

text \<open>The three operations of a Go map on its association list; keys stay distinct.\<close>

definition map_get :: "('k \<times> 'v) list \<Rightarrow> 'k \<Rightarrow> 'v option" where
  "map_get m k = map_of m k"

fun map_set :: "('k \<times> 'v) list \<Rightarrow> 'k \<Rightarrow> 'v \<Rightarrow> ('k \<times> 'v) list" where
  "map_set [] k v = [(k, v)]"
| "map_set ((k', v') # m) k v = (if k' = k then (k, v) # m else (k', v') # map_set m k v)"

definition map_delete :: "('k \<times> 'v) list \<Rightarrow> 'k \<Rightarrow> ('k \<times> 'v) list" where
  "map_delete m k = filter (\<lambda>kv. fst kv \<noteq> k) m"

subsection \<open>The pruning engine\<close>

type_synonym asDirectiveFilter = "string \<Rightarrow> string \<Rightarrow> error + bool"

text \<open>The innermost loop of \<^verbatim>\<open>pruneReplacements\<close>, over the \<open>As\<close> of one input: an error of the
  filter is appended to \<open>errs\<close> and the entry is passed over; a kept entry is appended to \<open>newAs\<close>.\<close>

fun pruneAs :: "asDirectiveFilter \<Rightarrow> string \<Rightarrow> string list \<Rightarrow> string list \<times> error list
    \<Rightarrow> string list \<times> error list" where
  "pruneAs flt k [] (newAs, errs) = (newAs, errs)"
| "pruneAs flt k (sourceImage # rest) (newAs, errs) =
     (case flt sourceImage k of
        Inl err \<Rightarrow> pruneAs flt k rest (newAs, errs @ [err])
      | Inr keep \<Rightarrow>
          if keep then pruneAs flt k rest (newAs @ [sourceImage], errs)
          else pruneAs flt k rest (newAs, errs))"

text \<open>The loop over the inputs of one image: \<open>todo\<close> are the entries still to visit, \<open>inputs\<close> is
  the map being changed in place.\<close>

fun pruneInputs :: "asDirectiveFilter \<Rightarrow> (string \<times> ImageBuildInputs) list
    \<Rightarrow> (string \<times> ImageBuildInputs) list \<times> error list
    \<Rightarrow> (string \<times> ImageBuildInputs) list \<times> error list" where
  "pruneInputs flt [] (inputs, errs) = (inputs, errs)"
| "pruneInputs flt ((k, sourceImage) # todo) (inputs, errs) =
     (case pruneAs flt k (As sourceImage) ([], errs) of
        (newAs, errs') \<Rightarrow>
          if length newAs = 0 \<and> length (Paths sourceImage) = 0
          then pruneInputs flt todo (map_delete inputs k, errs')
          else (case map_get inputs k of
                  None \<Rightarrow> pruneInputs flt todo
                            (map_set inputs k \<lparr>As = newAs, Paths = []\<rparr>, errs')
                | Some copy \<Rightarrow> pruneInputs flt todo
                            (map_set inputs k (copy\<lparr>As := newAs\<rparr>), errs')))"

text \<open>The loop over the images.\<close>

fun pruneImages :: "asDirectiveFilter \<Rightarrow> ProjectDirectoryImageBuildStepConfiguration list
    \<Rightarrow> ProjectDirectoryImageBuildStepConfiguration list \<times> error list
    \<Rightarrow> ProjectDirectoryImageBuildStepConfiguration list \<times> error list" where
  "pruneImages flt [] (prunedImages, errs) = (prunedImages, errs)"
| "pruneImages flt (img # rest) (prunedImages, errs) =
     (case pruneInputs flt (Inputs img) (Inputs img, errs) of
        (inputs, errs') \<Rightarrow>
          let img' = img\<lparr>Inputs := inputs\<rparr> in
          if length (Inputs img') > 0 \<or> From img' \<noteq> [] \<or> To img' \<noteq> []
          then pruneImages flt rest (prunedImages @ [img'], errs')
          else pruneImages flt rest (prunedImages, errs'))"

definition NewAggregate :: "error list \<Rightarrow> error option" where
  "NewAggregate errs = (if errs = [] then None else Some (Aggregate errs))"

definition pruneReplacements :: "ReleaseBuildConfiguration \<Rightarrow> asDirectiveFilter
    \<Rightarrow> ReleaseBuildConfiguration \<times> error option" where
  "pruneReplacements config flt =
     (case pruneImages flt (Images config) ([], []) of
        (prunedImages, errs) \<Rightarrow> (config\<lparr>Images := prunedImages\<rparr>, NewAggregate errs))"

definition pruneUnusedReplacements :: "ReleaseBuildConfiguration \<Rightarrow> string set
    \<Rightarrow> ReleaseBuildConfiguration \<times> error option" where
  "pruneUnusedReplacements config replacementCandidates =
     pruneReplacements config (\<lambda>asDirective _. Inr (asDirective \<in> replacementCandidates))"

definition ocpBuilderFilter :: "ReleaseBuildConfiguration \<Rightarrow> asDirectiveFilter" where
  "ocpBuilderFilter config asDirective imageKey =
     (case orgRepoTagFromPullString asDirective of
        Inl err \<Rightarrow> Inl (Wrapped (''failed to extract org and tag from pull spec '' @ asDirective) err)
      | Inr ort \<Rightarrow>
          if org ort \<noteq> ''ocp'' \<or> repo ort \<noteq> ''builder'' then Inr True
          else (case map_get (BaseImages config) imageKey of
                  None \<Rightarrow> Inr False
                | Some imagestreamTagReference \<Rightarrow>
                    if Namespace imagestreamTagReference = org ort
                       \<and> Name imagestreamTagReference = repo ort
                       \<and> Tag imagestreamTagReference = tag ort
                    then Inr True
                    else Inr False))"

definition pruneOCPBuilderReplacements :: "ReleaseBuildConfiguration
    \<Rightarrow> ReleaseBuildConfiguration \<times> error option" where
  "pruneOCPBuilderReplacements config = pruneReplacements config (ocpBuilderFilter config)"

text \<open>The reducer as the specification words it: the kept \<open>As\<close> of a record, the record after
  pruning (none when it is deleted), and the image after all its records are pruned.\<close>

definition spec_keptAs :: "asDirectiveFilter \<Rightarrow> string \<Rightarrow> ImageBuildInputs \<Rightarrow> string list" where
  "spec_keptAs flt k r = [a \<leftarrow> As r. flt a k = Inr True]"

definition spec_pruneRecord :: "asDirectiveFilter \<Rightarrow> string \<times> ImageBuildInputs
    \<Rightarrow> (string \<times> ImageBuildInputs) option" where
  "spec_pruneRecord flt kr =
     (if spec_keptAs flt (fst kr) (snd kr) = [] \<and> Paths (snd kr) = [] then None
      else Some (fst kr, (snd kr)\<lparr>As := spec_keptAs flt (fst kr) (snd kr)\<rparr>))"

definition spec_pruneImage :: "asDirectiveFilter \<Rightarrow> ProjectDirectoryImageBuildStepConfiguration
    \<Rightarrow> ProjectDirectoryImageBuildStepConfiguration" where
  "spec_pruneImage flt img = img\<lparr>Inputs := List.map_filter (spec_pruneRecord flt) (Inputs img)\<rparr>"

text \<open>The errors the filter returns on the \<open>As\<close> of one record, of one input mapping, of a list
  of images, in the order of the visit.\<close>

definition filterErrors :: "asDirectiveFilter \<Rightarrow> string \<Rightarrow> string list \<Rightarrow> error list" where
  "filterErrors flt k as = concat (map (\<lambda>a. case flt a k of Inl e \<Rightarrow> [e] | Inr _ \<Rightarrow> []) as)"

definition inputErrors :: "asDirectiveFilter \<Rightarrow> (string \<times> ImageBuildInputs) list \<Rightarrow> error list" where
  "inputErrors flt m = concat (map (\<lambda>kr. filterErrors flt (fst kr) (As (snd kr))) m)"

definition imageErrors :: "asDirectiveFilter \<Rightarrow> ProjectDirectoryImageBuildStepConfiguration list
    \<Rightarrow> error list" where
  "imageErrors flt imgs = concat (map (\<lambda>img. inputErrors flt (Inputs img)) imgs)"

text \<open>A Go map has each key once.\<close>

definition distinct_inputs :: "ReleaseBuildConfiguration \<Rightarrow> bool" where
  "distinct_inputs config = (\<forall>img \<in> set (Images config). distinct (map fst (Inputs img)))"

text \<open>A filter with every error answered as "do not keep".\<close>

definition errors_as_false :: "asDirectiveFilter \<Rightarrow> asDirectiveFilter" where
  "errors_as_false flt a k = (case flt a k of Inl _ \<Rightarrow> Inr False | Inr b \<Rightarrow> Inr b)"

subsection \<open>Parsed Dockerfiles and the collaborators\<close>

text \<open>A node of the Dockerfile parser (\<^verbatim>\<open>parser.Node\<close>): its value, the next token of the same
  line, its children and its flags. A stage of \<^verbatim>\<open>imagebuilder\<close> has a name and a node whose
  children are the directives of the stage.\<close>

datatype node = Node (Value: string) (Next: "node option") (Children: "node list")
  (Flags: "string list")

datatype Stage = Stage (StageName: string) (StageNode: node)

definition dockercmd_From :: string where
  "dockercmd_From = ''from''"

definition dockercmd_Copy :: string where
  "dockercmd_Copy = ''copy''"

text \<open>The functions the program takes from other packages and the helpers that are not among
  its sources are parameters of the model: the promoted tags of a document
  (\<^verbatim>\<open>release.PromotedTags\<close>), \<^verbatim>\<open>filepath.Join\<close> of two elements, \<^verbatim>\<open>yaml.Marshal\<close> (into a
  type \<open>'b\<close> of serialized documents, of which the program only asks whether two are equal), the
  Dockerfile parser and its stages, the Dockerfile printer, \<^verbatim>\<open>replaceLastFrom\<close> and
  \<^verbatim>\<open>nodeHasFromRef\<close>.\<close>

record 'b env =
  PromotedTags :: "ReleaseBuildConfiguration \<Rightarrow> ImageStreamTagReference list"
  filepath_Join :: "string \<Rightarrow> string \<Rightarrow> string"
  yaml_Marshal :: "ReleaseBuildConfiguration \<Rightarrow> error + 'b"
  ParseDockerfile :: "string \<Rightarrow> error + node"
  NewStages :: "node \<Rightarrow> error + Stage list"
  dockerfile_Write :: "node \<Rightarrow> string"
  replaceLastFrom :: "node \<Rightarrow> string \<Rightarrow> node"
  nodeHasFromRef :: "node \<Rightarrow> string \<times> bool"

text \<open>Modelled from the spec: \<^verbatim>\<open>nodeHasFromRef\<close> is not among the sources; the specification
  speaks of the reference of a \<^verbatim>\<open>COPY --from=<ref>\<close> directive. This instance, the reference of
  the first flag that starts with \<^verbatim>\<open>--from=\<close>, is used at concrete inputs only.\<close>

fun spec_nodeHasFromRef_flags :: "string list \<Rightarrow> string \<times> bool" where
  "spec_nodeHasFromRef_flags [] = ([], False)"
| "spec_nodeHasFromRef_flags (arg # args) =
     (if take 7 arg = ''--from='' then (drop 7 arg, True) else spec_nodeHasFromRef_flags args)"

definition spec_nodeHasFromRef :: "node \<Rightarrow> string \<times> bool" where
  "spec_nodeHasFromRef n = spec_nodeHasFromRef_flags (Flags n)"

subsection \<open>The promotion-Dockerfile reconciler\<close>

text \<open>The first loop of \<^verbatim>\<open>updateDockerfilesToMatchOCPBuildData\<close>: the promoted tags of the
  namespace \<open>ocp\<close> and the current release, indexed by tag.\<close>

fun promotedTagsByTag :: "string \<Rightarrow> ImageStreamTagReference list
    \<Rightarrow> (string \<times> ImageStreamTagReference) list \<Rightarrow> (string \<times> ImageStreamTagReference) list" where
  "promotedTagsByTag majorMinorVersion [] promotedTags = promotedTags"
| "promotedTagsByTag majorMinorVersion (promotedTag # rest) promotedTags =
     (if Namespace promotedTag \<noteq> ''ocp'' \<or> Name promotedTag \<noteq> majorMinorVersion
      then promotedTagsByTag majorMinorVersion rest promotedTags
      else promotedTagsByTag majorMinorVersion rest
             (map_set promotedTags (Tag promotedTag) promotedTag))"

text \<open>The body of the second loop, for the image at one index.\<close>

definition updateDockerfile :: "'b env \<Rightarrow> (string \<times> ImageStreamTagReference) list
    \<Rightarrow> (string \<Rightarrow> string option) \<Rightarrow> ProjectDirectoryImageBuildStepConfiguration
    \<Rightarrow> ProjectDirectoryImageBuildStepConfiguration" where
  "updateDockerfile E promotedTags promotionTargetToDockerfileMapping img =
     (case map_get promotedTags (To img) of
        None \<Rightarrow> img
      | Some promotionTarget \<Rightarrow>
          let stringifiedPromotionTarget =
                ''registry.svc.ci.openshift.org/'' @ Namespace promotionTarget @ ''/''
                  @ Name promotionTarget @ '':'' @ To img
          in (case promotionTargetToDockerfileMapping stringifiedPromotionTarget of
                None \<Rightarrow> img
              | Some dockerfilePath \<Rightarrow>
                  let actualDockerFilePath =
                        filepath_Join E (ContextDir img)
                          (if DockerfilePath img \<noteq> [] then DockerfilePath img else ''Dockerfile'')
                  in if dockerfilePath \<noteq> actualDockerFilePath
                     then img\<lparr>ContextDir := [], DockerfilePath := dockerfilePath\<rparr>
                     else img))"

definition updateDockerfilesToMatchOCPBuildData :: "'b env \<Rightarrow> ReleaseBuildConfiguration
    \<Rightarrow> (string \<Rightarrow> string option) \<Rightarrow> string \<Rightarrow> ReleaseBuildConfiguration" where
  "updateDockerfilesToMatchOCPBuildData E config promotionTargetToDockerfileMapping majorMinorVersion =
     (if Branch (Metadata config) \<noteq> ''master'' then config
      else let promotedTags = promotedTagsByTag majorMinorVersion (PromotedTags E config) [] in
           if length promotedTags = 0 then config
           else config\<lparr>Images :=
                  map (updateDockerfile E promotedTags promotionTargetToDockerfileMapping)
                    (Images config)\<rparr>)"

subsection \<open>The replacement synthesizer\<close>

text \<open>\<^verbatim>\<open>bytes.Contains\<close>.\<close>

fun bytes_Contains :: "string \<Rightarrow> string \<Rightarrow> bool" where
  "bytes_Contains [] subslice = (subslice = [])"
| "bytes_Contains (x # xs) subslice =
     (take (length subslice) (x # xs) = subslice \<or> bytes_Contains xs subslice)"

text \<open>The class \<^verbatim>\<open>\s\<close> of Go regular expressions: tab, line feed, form feed, carriage return
  and space.\<close>

definition regexp_space :: "char \<Rightarrow> bool" where
  "regexp_space c = (c \<in> {CHR 0x09, CHR 0x0A, CHR 0x0C, CHR 0x0D, CHR 0x20})"

text \<open>\<^verbatim>\<open>registryRegex.Find\<close> for \<^verbatim>\<open>registry\.svc\.ci\.openshift\.org\/[^\s]+\<close>: the leftmost
  occurrence of the host and the slash with a byte after it that is no space, extended to the
  right as far as no space comes.\<close>

fun registryRegex_Find :: "string \<Rightarrow> string option" where
  "registryRegex_Find [] = None"
| "registryRegex_Find (x # xs) =
     (let rest = drop 30 (x # xs) in
      if take 30 (x # xs) = ''registry.svc.ci.openshift.org/'' \<and> takeWhile (\<lambda>c. \<not> regexp_space c) rest \<noteq> []
      then Some (''registry.svc.ci.openshift.org/'' @ takeWhile (\<lambda>c. \<not> regexp_space c) rest)
      else registryRegex_Find xs)"

text \<open>The first loop of \<^verbatim>\<open>ensureReplacement\<close>, over the lines of the Dockerfile.\<close>

fun linesToReplace :: "string list \<Rightarrow> string list \<Rightarrow> string list" where
  "linesToReplace [] toReplace = toReplace"
| "linesToReplace (line # rest) toReplace =
     (if \<not> bytes_Contains line ''FROM'' then linesToReplace rest toReplace
      else if \<not> bytes_Contains line ''registry.svc.ci.openshift.org'' then linesToReplace rest toReplace
      else (case registryRegex_Find line of
              None \<Rightarrow> linesToReplace rest toReplace
            | Some match \<Rightarrow> linesToReplace rest (toReplace @ [match])))"

definition hasReplacementFor :: "ProjectDirectoryImageBuildStepConfiguration \<Rightarrow> string \<Rightarrow> bool" where
  "hasReplacementFor img target = list_ex (\<lambda>input. target \<in> set (As (snd input))) (Inputs img)"

text \<open>\<^verbatim>\<open>sets.NewString(xs...).List()\<close>: the elements without duplicates, sorted.\<close>

definition sets_NewString_List :: "string list \<Rightarrow> string list" where
  "sets_NewString_List xs = sort (remdups xs)"

text \<open>The second loop of \<^verbatim>\<open>ensureReplacement\<close>; the image is changed in place, also when a
  later pull string fails to parse.\<close>

fun ensureReplacements :: "string list \<Rightarrow> ProjectDirectoryImageBuildStepConfiguration \<times> orgRepoTag list
    \<Rightarrow> ProjectDirectoryImageBuildStepConfiguration \<times> (error + orgRepoTag list)" where
  "ensureReplacements [] (img, result) = (img, Inr result)"
| "ensureReplacements (toReplace # rest) (img, result) =
     (case orgRepoTagFromPullString toReplace of
        Inl err \<Rightarrow> (img, Inl (Wrapped (''failed to parse string '' @ toReplace @ '' as pullspec'') err))
      | Inr ort \<Rightarrow>
          if hasReplacementFor img toReplace then ensureReplacements rest (img, result)
          else let inputs = (case map_get (Inputs img) (String ort) of
                               None \<Rightarrow> \<lparr>As = [], Paths = []\<rparr>
                             | Some i \<Rightarrow> i);
                   inputs' = inputs\<lparr>As := sets_NewString_List (As inputs @ [toReplace])\<rparr>
               in ensureReplacements rest
                    (img\<lparr>Inputs := map_set (Inputs img) (String ort) inputs'\<rparr>, result @ [ort]))"

definition ensureReplacement :: "ProjectDirectoryImageBuildStepConfiguration \<Rightarrow> string
    \<Rightarrow> ProjectDirectoryImageBuildStepConfiguration \<times> (error + orgRepoTag list)" where
  "ensureReplacement img dockerfile =
     ensureReplacements (linesToReplace (strings_Split CHR 0x0A dockerfile) []) (img, [])"

text \<open>The loop of \<^verbatim>\<open>replacer\<close> over the found tags: a tag without an entry in the Base-Image
  Table gets one, an entry that exists is passed over.\<close>

fun ensureBaseImages :: "orgRepoTag list \<Rightarrow> (string \<times> ImageStreamTagReference) list
    \<Rightarrow> (string \<times> ImageStreamTagReference) list" where
  "ensureBaseImages [] baseImages = baseImages"
| "ensureBaseImages (foundTag # rest) baseImages =
     (case map_get baseImages (String foundTag) of
        Some _ \<Rightarrow> ensureBaseImages rest baseImages
      | None \<Rightarrow> ensureBaseImages rest
                 (map_set baseImages (String foundTag)
                    \<lparr>Namespace = org foundTag, Name = repo foundTag, Tag = tag foundTag\<rparr>))"

subsection \<open>Build-time simulation and candidate extraction\<close>

definition applyReplacementsToDockerfile :: "'b env \<Rightarrow> string
    \<Rightarrow> ProjectDirectoryImageBuildStepConfiguration \<Rightarrow> error + string" where
  "applyReplacementsToDockerfile E inp img =
     (if From img = [] then Inr inp
      else (case ParseDockerfile E inp of
              Inl err \<Rightarrow> Inl (Wrapped ''failed to parse Dockerfile'' err)
            | Inr nd \<Rightarrow> Inr (dockerfile_Write E (replaceLastFrom E nd (From img)))))"

text \<open>The body of the inner loop of \<^verbatim>\<open>extractReplacementCandidatesFromDockerfile\<close>, for one
  child of the node of a stage; \<open>names\<close> maps the names of the stages seen to their images.\<close>

definition childCandidates :: "(node \<Rightarrow> string \<times> bool) \<Rightarrow> string \<Rightarrow> node
    \<Rightarrow> (string \<Rightarrow> string option) \<times> string set \<Rightarrow> (string \<Rightarrow> string option) \<times> string set" where
  "childCandidates hasFromRef stageName child acc =
     (if Value child = dockercmd_From \<and> Next child \<noteq> None
      then (let img = Value (the (Next child))
            in ((fst acc)(stageName \<mapsto> img), insert img (snd acc)))
      else if Value child = dockercmd_Copy
      then (case hasFromRef child of
              (ref, ok) \<Rightarrow>
                if ok \<and> length ref > 0 \<and> fst acc ref = None
                then (fst acc, insert ref (snd acc))
                else acc)
      else acc)"

fun stageCandidates :: "(node \<Rightarrow> string \<times> bool) \<Rightarrow> string \<Rightarrow> node list
    \<Rightarrow> (string \<Rightarrow> string option) \<times> string set \<Rightarrow> (string \<Rightarrow> string option) \<times> string set" where
  "stageCandidates hasFromRef stageName [] acc = acc"
| "stageCandidates hasFromRef stageName (child # rest) acc =
     stageCandidates hasFromRef stageName rest (childCandidates hasFromRef stageName child acc)"

fun stagesCandidates :: "(node \<Rightarrow> string \<times> bool) \<Rightarrow> Stage list
    \<Rightarrow> (string \<Rightarrow> string option) \<times> string set \<Rightarrow> (string \<Rightarrow> string option) \<times> string set" where
  "stagesCandidates hasFromRef [] acc = acc"
| "stagesCandidates hasFromRef (stage # rest) acc =
     stagesCandidates hasFromRef rest
       (stageCandidates hasFromRef (StageName stage) (Children (StageNode stage)) acc)"

definition extractReplacementCandidatesFromDockerfile :: "'b env \<Rightarrow> string \<Rightarrow> error + string set" where
  "extractReplacementCandidatesFromDockerfile E dockerfile =
     (case ParseDockerfile E dockerfile of
        Inl err \<Rightarrow> Inl (Wrapped ''failed to parse Dockerfile'' err)
      | Inr nd \<Rightarrow>
          (case NewStages E nd of
             Inl err \<Rightarrow> Inl (Wrapped ''failed to construt imagebuilder stages'' err)
           | Inr stages \<Rightarrow>
               Inr (snd (stagesCandidates (nodeHasFromRef E) stages (Map.empty, {})))))"

subsection \<open>The line-based extractor of the earlier revision\<close>

text \<open>The white space of \<^verbatim>\<open>unicode.IsSpace\<close> in UTF-8: the six of ASCII, U+0085, U+00A0, U+1680,
  U+2000 to U+200A, U+2028, U+2029, U+202F, U+205F and U+3000. None of the encodings starts
  inside the encoding of another rune, so a field ends wherever one of them occurs.\<close>

definition unicode_spaces :: "string list" where
  "unicode_spaces =
     [[CHR 0x09], [CHR 0x0A], [CHR 0x0B], [CHR 0x0C], [CHR 0x0D], [CHR 0x20],
      [CHR 0xC2, CHR 0x85], [CHR 0xC2, CHR 0xA0], [CHR 0xE1, CHR 0x9A, CHR 0x80],
      [CHR 0xE2, CHR 0x80, CHR 0x80], [CHR 0xE2, CHR 0x80, CHR 0x81],
      [CHR 0xE2, CHR 0x80, CHR 0x82], [CHR 0xE2, CHR 0x80, CHR 0x83],
      [CHR 0xE2, CHR 0x80, CHR 0x84], [CHR 0xE2, CHR 0x80, CHR 0x85],
      [CHR 0xE2, CHR 0x80, CHR 0x86], [CHR 0xE2, CHR 0x80, CHR 0x87],
      [CHR 0xE2, CHR 0x80, CHR 0x88], [CHR 0xE2, CHR 0x80, CHR 0x89],
      [CHR 0xE2, CHR 0x80, CHR 0x8A], [CHR 0xE2, CHR 0x80, CHR 0xA8],
      [CHR 0xE2, CHR 0x80, CHR 0xA9], [CHR 0xE2, CHR 0x80, CHR 0xAF],
      [CHR 0xE2, CHR 0x81, CHR 0x9F], [CHR 0xE3, CHR 0x80, CHR 0x80]]"

text \<open>The length in bytes of the white-space rune a string starts with, 0 when it starts with
  none.\<close>

definition spaceWidth :: "string \<Rightarrow> nat" where
  "spaceWidth s =
     (case List.find (\<lambda>sp. take (length sp) s = sp) unicode_spaces of
        None \<Rightarrow> 0
      | Some sp \<Rightarrow> length sp)"

text \<open>\<^verbatim>\<open>bytes.Fields\<close>: \<open>skip\<close> counts the bytes of a white-space rune still to pass over,
  \<open>field\<close> is the field being read.\<close>

fun fieldsFrom :: "nat \<Rightarrow> string \<Rightarrow> string \<Rightarrow> string list" where
  "fieldsFrom skip [] field = (if field = [] then [] else [field])"
| "fieldsFrom (Suc skip) (x # xs) field = fieldsFrom skip xs field"
| "fieldsFrom 0 (x # xs) field =
     (case spaceWidth (x # xs) of
        0 \<Rightarrow> fieldsFrom 0 xs (field @ [x])
      | Suc w \<Rightarrow> (if field = [] then [] else [field]) @ fieldsFrom w xs [])"

definition bytes_Fields :: "string \<Rightarrow> string list" where
  "bytes_Fields s = fieldsFrom 0 s []"

text \<open>\<^verbatim>\<open>bytes.EqualFold(w, "from")\<close>: the letters f, r, o and m fold only to their ASCII
  capitals.\<close>

definition equalFold_from :: "string \<Rightarrow> bool" where
  "equalFold_from w =
     (case w of
        [a, b, c, d] \<Rightarrow> a \<in> {CHR ''f'', CHR ''F''} \<and> b \<in> {CHR ''r'', CHR ''R''}
                      \<and> c \<in> {CHR ''o'', CHR ''O''} \<and> d \<in> {CHR ''m'', CHR ''M''}
      | _ \<Rightarrow> False)"

text \<open>The loop of \<^verbatim>\<open>extractAllSourceImagesFromDockerfile\<close> over the lines.\<close>

fun sourceImagesOfLines :: "string list \<Rightarrow> string set \<times> string set \<Rightarrow> error + string set" where
  "sourceImagesOfLines [] (aliases, results) = Inr results"
| "sourceImagesOfLines (line # rest) (aliases, results) =
     (let words = bytes_Fields line in
      if length words < 1 \<or> \<not> equalFold_from (words ! 0)
      then sourceImagesOfLines rest (aliases, results)
      else if length words \<noteq> 2 \<and> length words \<noteq> 4
      then Inl (WordCountError line (length words))
      else let aliases' = (if length words = 4 then insert (words ! 3) aliases else aliases)
           in if words ! 1 \<in> aliases'
              then sourceImagesOfLines rest (aliases', results)
              else sourceImagesOfLines rest (aliases', insert (words ! 1) results))"

definition extractAllSourceImagesFromDockerfile :: "string \<Rightarrow> error + string set" where
  "extractAllSourceImagesFromDockerfile dockerfile =
     sourceImagesOfLines (strings_Split CHR 0x0A dockerfile) ({}, {})"

subsection \<open>The driver\<close>

record Info =
  InfoMetadata :: Metadata
  Filename :: string

text \<open>The body of the loop of \<^verbatim>\<open>replacer\<close> over the images, for the image at \<open>idx\<close>. The state
  is the document, the candidates of all Dockerfiles so far and whether one of them was not
  empty; an error ends the run with the document as it is then.\<close>

definition replaceImage :: "'b env \<Rightarrow> (string \<Rightarrow> error + string) \<Rightarrow> nat
    \<Rightarrow> ReleaseBuildConfiguration \<times> string set \<times> bool
    \<Rightarrow> error option \<times> ReleaseBuildConfiguration \<times> string set \<times> bool" where
  "replaceImage E getter idx st =
     (case st of (config, allReplacementCandidates, hasNonEmptyDockerfile) \<Rightarrow>
      let img = Images config ! idx;
          dockerFilePath = (if DockerfilePath img \<noteq> [] then DockerfilePath img else ''Dockerfile'')
      in case getter (filepath_Join E (ContextDir img) dockerFilePath) of
           Inl err \<Rightarrow>
             (Some (Wrapped (''failed to get dockerfile '' @ DockerfilePath img) err),
              config, allReplacementCandidates, hasNonEmptyDockerfile)
         | Inr fetched \<Rightarrow>
             let hasNonEmptyDockerfile' = (hasNonEmptyDockerfile \<or> length fetched > 0)
             in case applyReplacementsToDockerfile E fetched img of
                  Inl err \<Rightarrow>
                    (Some (Wrapped ''failed to apply replacements to Dockerfile'' err),
                     config, allReplacementCandidates, hasNonEmptyDockerfile')
                | Inr dockerfile \<Rightarrow>
                    (case ensureReplacement (Images config ! idx) dockerfile of
                       (img', Inl err) \<Rightarrow>
                         (Some (Wrapped ''failed to ensure replacements'' err),
                          config\<lparr>Images := (Images config)[idx := img']\<rparr>,
                          allReplacementCandidates, hasNonEmptyDockerfile')
                     | (img', Inr foundTags) \<Rightarrow>
                         let config' = config
                               \<lparr>Images := (Images config)[idx := img'],
                                BaseImages := ensureBaseImages foundTags (BaseImages config)\<rparr>
                         in case extractReplacementCandidatesFromDockerfile E dockerfile of
                              Inl err \<Rightarrow>
                                (Some (Wrapped ''failed to extract source images from dockerfile'' err),
                                 config', allReplacementCandidates, hasNonEmptyDockerfile')
                            | Inr replacementCandidates \<Rightarrow>
                                (None, config', allReplacementCandidates \<union> replacementCandidates,
                                 hasNonEmptyDockerfile')))"

fun replaceImages :: "'b env \<Rightarrow> (string \<Rightarrow> error + string) \<Rightarrow> nat list
    \<Rightarrow> ReleaseBuildConfiguration \<times> string set \<times> bool
    \<Rightarrow> error option \<times> ReleaseBuildConfiguration \<times> string set \<times> bool" where
  "replaceImages E getter [] st = (None, st)"
| "replaceImages E getter (idx # rest) st =
     (case replaceImage E getter idx st of
        (Some err, st') \<Rightarrow> (Some err, st')
      | (None, st') \<Rightarrow> replaceImages E getter rest st')"

text \<open>The Dockerfiles the getter hands to the loop of \<^verbatim>\<open>replacer\<close> over the images, in the order
  of the loop: the loop ends at the first error, so a Dockerfile after that is never fetched.\<close>

fun fetchedDockerfiles :: "'b env \<Rightarrow> (string \<Rightarrow> error + string) \<Rightarrow> nat list
    \<Rightarrow> ReleaseBuildConfiguration \<times> string set \<times> bool \<Rightarrow> string list" where
  "fetchedDockerfiles E getter [] st = []"
| "fetchedDockerfiles E getter (idx # rest) st =
     (let img = Images (fst st) ! idx;
          dockerFilePath = (if DockerfilePath img \<noteq> [] then DockerfilePath img else ''Dockerfile'')
      in case getter (filepath_Join E (ContextDir img) dockerFilePath) of
           Inl err \<Rightarrow> []
         | Inr fetched \<Rightarrow>
             fetched # (case replaceImage E getter idx st of
                          (Some err, st') \<Rightarrow> []
                        | (None, st') \<Rightarrow> fetchedDockerfiles E getter rest st'))"

text \<open>The unused-replacement phase: pruning runs when it is enabled and some Dockerfile of the
  run was not empty; otherwise the phase only logs.\<close>

definition pruneUnusedPhase :: "bool \<Rightarrow> bool \<Rightarrow> ReleaseBuildConfiguration \<Rightarrow> string set
    \<Rightarrow> ReleaseBuildConfiguration \<times> error option" where
  "pruneUnusedPhase pruneUnusedReplacementsEnabled hasNonEmptyDockerfile config allReplacementCandidates =
     (if pruneUnusedReplacementsEnabled \<and> hasNonEmptyDockerfile
      then (case pruneUnusedReplacements config allReplacementCandidates of
              (config', None) \<Rightarrow> (config', None)
            | (config', Some err) \<Rightarrow>
                (config', Some (Wrapped ''failed to prune unused replacements'' err)))
      else (config, None))"

definition pruneOCPBuilderPhase :: "bool \<Rightarrow> ReleaseBuildConfiguration
    \<Rightarrow> ReleaseBuildConfiguration \<times> error option" where
  "pruneOCPBuilderPhase pruneOCPBuilderReplacementsEnabled config =
     (if pruneOCPBuilderReplacementsEnabled
      then (case pruneOCPBuilderReplacements config of
              (config', None) \<Rightarrow> (config', None)
            | (config', Some err) \<Rightarrow>
                (config', Some (Wrapped ''failed to prune ocp builder replacements'' err)))
      else (config, None))"

text \<open>The end of \<^verbatim>\<open>replacer\<close>: the document is serialized again and handed to the writer when
  the bytes differ from those taken at the start. The third component of the result lists the
  byte strings handed to the writer.\<close>

definition writeIfChanged :: "'b env \<Rightarrow> ('b \<Rightarrow> error option) \<Rightarrow> Info \<Rightarrow> 'b
    \<Rightarrow> ReleaseBuildConfiguration \<Rightarrow> error option \<times> ReleaseBuildConfiguration \<times> 'b list" where
  "writeIfChanged E writer info originalConfig config =
     (case yaml_Marshal E config of
        Inl err \<Rightarrow> (Some (Wrapped ''failed to marshal new config'' err), config, [])
      | Inr newConfig \<Rightarrow>
          if originalConfig = newConfig then (None, config, [])
          else (case writer newConfig of
                  Some err \<Rightarrow> (Some (Wrapped (''faild to write '' @ Filename info) err), config, [newConfig])
                | None \<Rightarrow> (None, config, [newConfig])))"

text \<open>\<^verbatim>\<open>replacer\<close>; \<open>majorMinorVersion\<close> is the string of the release.\<close>

definition replacer :: "'b env \<Rightarrow> (string \<Rightarrow> string \<Rightarrow> string \<Rightarrow> string \<Rightarrow> error + string)
    \<Rightarrow> ('b \<Rightarrow> error option) \<Rightarrow> bool \<Rightarrow> bool \<Rightarrow> bool \<Rightarrow> (string \<Rightarrow> string option) \<Rightarrow> string
    \<Rightarrow> ReleaseBuildConfiguration \<Rightarrow> Info
    \<Rightarrow> error option \<times> ReleaseBuildConfiguration \<times> 'b list" where
  "replacer E githubFileGetterFactory writer pruneUnusedReplacementsEnabled
     pruneOCPBuilderReplacementsEnabled ensureCorrectPromotionDockerfile
     promotionTargetToDockerfileMapping majorMinorVersion config info =
     (if length (Images config) = 0 then (None, config, [])
      else case yaml_Marshal E config of
        Inl err \<Rightarrow> (Some (Wrapped ''failed to marshal config for comparison'' err), config, [])
      | Inr originalConfig \<Rightarrow>
          let config1 = (if ensureCorrectPromotionDockerfile
                         then updateDockerfilesToMatchOCPBuildData E config
                                promotionTargetToDockerfileMapping majorMinorVersion
                         else config);
              getter = githubFileGetterFactory (Org (InfoMetadata info)) (Repo (InfoMetadata info))
                         (Branch (InfoMetadata info))
          in case replaceImages E getter [0..<length (Images config1)] (config1, {}, False) of
               (Some err, config2, _) \<Rightarrow> (Some err, config2, [])
             | (None, config2, allReplacementCandidates, hasNonEmptyDockerfile) \<Rightarrow>
                 (case pruneUnusedPhase pruneUnusedReplacementsEnabled hasNonEmptyDockerfile
                         config2 allReplacementCandidates of
                    (config3, Some err) \<Rightarrow> (Some err, config3, [])
                  | (config3, None) \<Rightarrow>
                      (case pruneOCPBuilderPhase pruneOCPBuilderReplacementsEnabled config3 of
                         (config4, Some err) \<Rightarrow> (Some err, config4, [])
                       | (config4, None) \<Rightarrow> writeIfChanged E writer info originalConfig config4)))"

subsection \<open>Collaborators for concrete inputs\<close>

text \<open>\<^verbatim>\<open>filepath.Join\<close> of a directory that is empty or clean and a clean relative file name.\<close>

definition simple_Join :: "string \<Rightarrow> string \<Rightarrow> string" where
  "simple_Join dir file = (if dir = [] then file else dir @ ''/'' @ file)"

text \<open>An environment for runs in which every Dockerfile fetched has the parse tree \<open>root\<close>, of a
  single stage, and no image has a \<open>From\<close>, so that nothing is printed: the document promotes the
  tags \<open>promoted\<close>, and the marshaler loses nothing (a document is serialized as itself).\<close>

definition example_env :: "ImageStreamTagReference list \<Rightarrow> node \<Rightarrow> ReleaseBuildConfiguration env" where
  "example_env promoted root =
     \<lparr>PromotedTags = (\<lambda>_. promoted),
      filepath_Join = simple_Join,
      yaml_Marshal = Inr,
      ParseDockerfile = (\<lambda>_. Inr root),
      NewStages = (\<lambda>nd. Inr [Stage ''0'' nd]),
      dockerfile_Write = (\<lambda>_. []),
      replaceLastFrom = (\<lambda>nd _. nd),
      nodeHasFromRef = spec_nodeHasFromRef\<rparr>"

subsection \<open>The driver of the earlier revision\<close>

text \<open>The earlier \<^verbatim>\<open>orgRepoTagFromPullString\<close> takes pull strings of three segments only.\<close>

definition orgRepoTagFromPullString_old :: "string \<Rightarrow> error + orgRepoTag" where
  "orgRepoTagFromPullString_old pullString =
     (let slashSplit = strings_Split CHR ''/'' pullString; n = length slashSplit
      in if n \<noteq> 3 then Inl (ThreeElementsError pullString n)
         else let repoTag = strings_Split CHR '':'' (slashSplit ! 2)
              in if length repoTag = 2
                 then Inr \<lparr>org = slashSplit ! 1, repo = repoTag ! 0, tag = repoTag ! 1\<rparr>
                 else Inr \<lparr>org = slashSplit ! 1, repo = slashSplit ! 2, tag = ''latest''\<rparr>)"

fun ensureReplacements_old :: "string list
    \<Rightarrow> ProjectDirectoryImageBuildStepConfiguration \<times> orgRepoTag list
    \<Rightarrow> ProjectDirectoryImageBuildStepConfiguration \<times> (error + orgRepoTag list)" where
  "ensureReplacements_old [] (img, result) = (img, Inr result)"
| "ensureReplacements_old (toReplace # rest) (img, result) =
     (case orgRepoTagFromPullString_old toReplace of
        Inl err \<Rightarrow>
          (img, Inl (Wrapped (''failed to parse string '' @ toReplace @ '' as pullspec'') err))
      | Inr ort \<Rightarrow>
          if hasReplacementFor img toReplace then ensureReplacements_old rest (img, result)
          else let inputs = (case map_get (Inputs img) (String ort) of
                               None \<Rightarrow> \<lparr>As = [], Paths = []\<rparr>
                             | Some i \<Rightarrow> i);
                   inputs' = inputs\<lparr>As := sets_NewString_List (As inputs @ [toReplace])\<rparr>
               in ensureReplacements_old rest
                    (img\<lparr>Inputs := map_set (Inputs img) (String ort) inputs'\<rparr>, result @ [ort]))"

definition ensureReplacement_old :: "ProjectDirectoryImageBuildStepConfiguration \<Rightarrow> string
    \<Rightarrow> ProjectDirectoryImageBuildStepConfiguration \<times> (error + orgRepoTag list)" where
  "ensureReplacement_old img dat =
     ensureReplacements_old (linesToReplace (strings_Split CHR 0x0A dat) []) (img, [])"

text \<open>The body of the loop of the earlier \<^verbatim>\<open>replacer\<close>, and the loop.\<close>

definition replaceImage_old :: "(string \<Rightarrow> string \<Rightarrow> string) \<Rightarrow> (string \<Rightarrow> error + string) \<Rightarrow> Info
    \<Rightarrow> nat \<Rightarrow> ReleaseBuildConfiguration \<times> string set
    \<Rightarrow> error option \<times> ReleaseBuildConfiguration \<times> string set" where
  "replaceImage_old join getter info idx st =
     (case st of (config, allSourceImages) \<Rightarrow>
      let img = Images config ! idx;
          dockerFilePath = (if DockerfilePath img \<noteq> [] then DockerfilePath img else ''Dockerfile'')
      in case getter (join (ContextDir img) dockerFilePath) of
           Inl err \<Rightarrow>
             (Some (Wrapped (''failed to get dockerfile '' @ Org (InfoMetadata info) @ '':''
                               @ Repo (InfoMetadata info) @ ''@'' @ Branch (InfoMetadata info)
                               @ '':/'' @ dockerFilePath) err),
              config, allSourceImages)
         | Inr dat \<Rightarrow>
             (case ensureReplacement_old (Images config ! idx) dat of
                (img', Inl err) \<Rightarrow>
                  (Some (Wrapped ''failed to ensure replacements'' err),
                   config\<lparr>Images := (Images config)[idx := img']\<rparr>, allSourceImages)
              | (img', Inr foundTags) \<Rightarrow>
                  let config' = config
                        \<lparr>Images := (Images config)[idx := img'],
                         BaseImages := ensureBaseImages foundTags (BaseImages config)\<rparr>
                  in case extractAllSourceImagesFromDockerfile dat of
                       Inl err \<Rightarrow>
                         (Some (Wrapped ''failed to extract source images from dockerfile'' err),
                          config', allSourceImages)
                     | Inr sourceImages \<Rightarrow> (None, config', allSourceImages \<union> sourceImages)))"

fun replaceImages_old :: "(string \<Rightarrow> string \<Rightarrow> string) \<Rightarrow> (string \<Rightarrow> error + string) \<Rightarrow> Info
    \<Rightarrow> nat list \<Rightarrow> ReleaseBuildConfiguration \<times> string set
    \<Rightarrow> error option \<times> ReleaseBuildConfiguration \<times> string set" where
  "replaceImages_old join getter info [] st = (None, st)"
| "replaceImages_old join getter info (idx # rest) st =
     (case replaceImage_old join getter info idx st of
        (Some err, st') \<Rightarrow> (Some err, st')
      | (None, st') \<Rightarrow> replaceImages_old join getter info rest st')"

text \<open>The earlier \<^verbatim>\<open>replacer\<close>, with \<^verbatim>\<open>filepath.Join\<close> and \<^verbatim>\<open>yaml.Marshal\<close> as parameters; the
  third component of the result lists the byte strings handed to the writer.\<close>

definition replacer_old :: "(string \<Rightarrow> string \<Rightarrow> string) \<Rightarrow> (ReleaseBuildConfiguration \<Rightarrow> error + 'b)
    \<Rightarrow> (string \<Rightarrow> string \<Rightarrow> string \<Rightarrow> string \<Rightarrow> error + string) \<Rightarrow> ('b \<Rightarrow> error option)
    \<Rightarrow> ReleaseBuildConfiguration \<Rightarrow> Info
    \<Rightarrow> error option \<times> ReleaseBuildConfiguration \<times> 'b list" where
  "replacer_old join marshal githubFileGetterFactory writer config info =
     (if length (Images config) = 0 then (None, config, [])
      else case marshal config of
        Inl err \<Rightarrow> (Some (Wrapped ''failed to marshal config for comparison'' err), config, [])
      | Inr originalConfig \<Rightarrow>
          let getter = githubFileGetterFactory (Org (InfoMetadata info)) (Repo (InfoMetadata info))
                         (Branch (InfoMetadata info))
          in case replaceImages_old join getter info [0..<length (Images config)] (config, {}) of
               (Some err, config2, _) \<Rightarrow> (Some err, config2, [])
             | (None, config2, _) \<Rightarrow>
                 (case marshal config2 of
                    Inl err \<Rightarrow> (Some (Wrapped ''failed to marshal new config'' err), config2, [])
                  | Inr newConfig \<Rightarrow>
                      if originalConfig = newConfig then (None, config2, [])
                      else (case writer newConfig of
                              Some err \<Rightarrow> (Some (Wrapped (''faild to write '' @ Filename info) err),
                                           config2, [newConfig])
                            | None \<Rightarrow> (None, config2, [newConfig]))))"

text \<open>A line whose only word is \<open>FROM\<close>, in any capitals, and a line that starts with \<open>FROM\<close> and
  has neither two nor four words.\<close>

definition bareFromLine :: "string \<Rightarrow> bool" where
  "bareFromLine line = (case bytes_Fields line of [w] \<Rightarrow> equalFold_from w | _ \<Rightarrow> False)"

definition malformedFromLine :: "string \<Rightarrow> bool" where
  "malformedFromLine line =
     (let words = bytes_Fields line
      in length words \<ge> 1 \<and> equalFold_from (words ! 0) \<and> length words \<noteq> 2 \<and> length words \<noteq> 4)"

text \<open>The path of the Dockerfile of the image at \<open>idx\<close>.\<close>

definition dockerfilePathOf :: "(string \<Rightarrow> string \<Rightarrow> string) \<Rightarrow> ReleaseBuildConfiguration \<Rightarrow> nat
    \<Rightarrow> string" where
  "dockerfilePathOf join config idx =
     join (ContextDir (Images config ! idx))
       (if DockerfilePath (Images config ! idx) \<noteq> [] then DockerfilePath (Images config ! idx)
        else ''Dockerfile'')"

text \<open>The Dockerfile the synthesizer sees for an image: fetched at the path of the image and
  passed through the build-time simulation. An image is saturated when every pull string the
  synthesizer finds in that Dockerfile is among the \<open>As\<close> of one of its inputs.\<close>

definition simulatedDockerfile :: "'b env \<Rightarrow> (string \<Rightarrow> error + string)
    \<Rightarrow> ProjectDirectoryImageBuildStepConfiguration \<Rightarrow> error + string" where
  "simulatedDockerfile E getter img =
     (case getter (filepath_Join E (ContextDir img)
                     (if DockerfilePath img \<noteq> [] then DockerfilePath img else ''Dockerfile'')) of
        Inl err \<Rightarrow> Inl err
      | Inr fetched \<Rightarrow> applyReplacementsToDockerfile E fetched img)"

definition saturated :: "'b env \<Rightarrow> (string \<Rightarrow> error + string)
    \<Rightarrow> ProjectDirectoryImageBuildStepConfiguration \<Rightarrow> bool" where
  "saturated E getter img =
     (case simulatedDockerfile E getter img of
        Inl _ \<Rightarrow> True
      | Inr dockerfile \<Rightarrow>
          list_all (hasReplacementFor img) (linesToReplace (strings_Split CHR 0x0A dockerfile) []))"

text \<open>Two images with the same fields but for their inputs.\<close>

definition sameBuild :: "ProjectDirectoryImageBuildStepConfiguration
    \<Rightarrow> ProjectDirectoryImageBuildStepConfiguration \<Rightarrow> bool" where
  "sameBuild a b = (From a = From b \<and> To a = To b \<and> ContextDir a = ContextDir b
                    \<and> DockerfilePath a = DockerfilePath b)"

section \<open>Properties\<close>

subsection \<open>Splitting\<close>

lemma strings_Split_nonempty: "strings_Split c s \<noteq> []"
  by (induction s) (auto split: list.splits)

lemma length_strings_Split: "length (strings_Split c s) = Suc (count_list s c)"
  by (induction s) (auto split: list.splits simp: strings_Split_nonempty)

lemma strings_Split_no_sep: "w \<in> set (strings_Split c s) \<Longrightarrow> c \<notin> set w"
  by (induction s arbitrary: w) (auto split: list.splits if_splits)

subsection \<open>The canonicalizer\<close>

text \<open>
  Claim C1, as the specification states it: the pull string is split on \<open>/\<close>; one, two or three
  segments give the organisation and the repo, any other count is an error naming the string;
  the repo is then split on its \<^emph>\<open>first\<close> \<open>:\<close> into repo and tag. The code splits the repo on
  \<^emph>\<open>every\<close> \<open>:\<close> and takes repo and tag only from exactly two pieces, so for the pull string
  \<open>a:b:c\<close> the code answers repo \<open>a:b:c\<close> with tag \<open>latest\<close>, where a cut at the first \<open>:\<close>
  gives repo \<open>a\<close> and tag \<open>b:c\<close>.
\<close>

theorem orgRepoTagFromPullString_first_colon_counterexample:
  "orgRepoTagFromPullString ''a:b:c'' = Inr \<lparr>org = ''_'', repo = ''a:b:c'', tag = ''latest''\<rparr>
   \<and> spec_orgRepoTagFromPullString ''a:b:c'' = Inr \<lparr>org = ''_'', repo = ''a'', tag = ''b:c''\<rparr>
   \<and> orgRepoTagFromPullString ''a:b:c'' \<noteq> spec_orgRepoTagFromPullString ''a:b:c''"
  by (simp add: orgRepoTagFromPullString_def splitRepoTag_def spec_orgRepoTagFromPullString_def
      spec_splitRepoTag_def spec_splitFirst_def)

text \<open>
  Claim C1, amended: for every pull string, with \<open>segs\<close> its split on \<open>/\<close>: one segment gives
  org \<open>_\<close> and the segment as repo part; two segments give org \<open>segs[0]\<close> and repo part
  \<open>segs[1]\<close>; three give org \<open>segs[1]\<close> and repo part \<open>segs[2]\<close>; any other count fails with the
  error carrying the pull string and the count. The repo part is split on every \<open>:\<close>: exactly
  two pieces become repo and tag, otherwise the repo is the whole part and the tag is
  \<open>latest\<close>. The identifier is org, repo and tag joined by \<open>_\<close>.
\<close>

theorem orgRepoTagFromPullString_segments:
  "let segs = strings_Split CHR ''/'' s; res = orgRepoTagFromPullString s in
     (length segs = 1 \<longrightarrow> (\<exists>r. res = Inr r \<and> org r = ''_'' \<and> repoTagOf (segs ! 0) r)) \<and>
     (length segs = 2 \<longrightarrow> (\<exists>r. res = Inr r \<and> org r = segs ! 0 \<and> repoTagOf (segs ! 1) r)) \<and>
     (length segs = 3 \<longrightarrow> (\<exists>r. res = Inr r \<and> org r = segs ! 1 \<and> repoTagOf (segs ! 2) r)) \<and>
     (length segs \<notin> {1, 2, 3} \<longrightarrow> res = Inl (PullStringParseError s (length segs))) \<and>
     (\<forall>r. res = Inr r \<longrightarrow> String r = org r @ ''_'' @ repo r @ ''_'' @ tag r)"
  by (simp add: Let_def orgRepoTagFromPullString_def splitRepoTag_def repoTagOf_def String_def)

theorem orgRepoTagFromPullString_segments_witness:
  "orgRepoTagFromPullString ''justrepo'' = Inr \<lparr>org = ''_'', repo = ''justrepo'', tag = ''latest''\<rparr>
   \<and> orgRepoTagFromPullString ''capetown/center:1''
       = Inr \<lparr>org = ''capetown'', repo = ''center'', tag = ''1''\<rparr>
   \<and> orgRepoTagFromPullString ''registry.host/org/repo''
       = Inr \<lparr>org = ''org'', repo = ''repo'', tag = ''latest''\<rparr>
   \<and> orgRepoTagFromPullString ''a/b/c/d'' = Inl (PullStringParseError ''a/b/c/d'' 4)
   \<and> String \<lparr>org = ''capetown'', repo = ''center'', tag = ''1''\<rparr> = ''capetown_center_1''"
  using orgRepoTagFromPullString_segments [of "''justrepo''"]
    orgRepoTagFromPullString_segments [of "''capetown/center:1''"]
    orgRepoTagFromPullString_segments [of "''registry.host/org/repo''"]
    orgRepoTagFromPullString_segments [of "''a/b/c/d''"]
  by (auto simp: Let_def repoTagOf_def String_def)

subsection \<open>The pruning reducer\<close>

lemma set_map_filter_Some: "set (List.map_filter f xs) = {y. \<exists>x \<in> set xs. f x = Some y}"
  by (induction xs) (auto split: option.splits)

lemma pruneAs_eq:
  "pruneAs flt k as (newAs, errs) =
     (newAs @ [a \<leftarrow> as. flt a k = Inr True], errs @ filterErrors flt k as)"
  by (induction as arbitrary: newAs errs) (auto simp: filterErrors_def split: sum.splits)

lemma map_delete_absent: "k \<notin> fst ` set m \<Longrightarrow> map_delete m k = m"
  by (induction m) (auto simp: map_delete_def)

lemma map_delete_append: "map_delete (xs @ ys) k = map_delete xs k @ map_delete ys k"
  by (simp add: map_delete_def)

lemma map_set_append_absent:
  "k \<notin> fst ` set xs \<Longrightarrow> map_set (xs @ (k, v) # ys) k v' = xs @ (k, v') # ys"
  by (induction xs) auto

lemma map_get_append_absent:
  "k \<notin> fst ` set xs \<Longrightarrow> map_get (xs @ (k, v) # ys) k = Some v"
  by (induction xs) (auto simp: map_get_def)

lemma pruneInputs_gen:
  "distinct (map fst (done @ todo)) \<Longrightarrow>
   pruneInputs flt todo (done @ todo, errs) =
     (done @ List.map_filter (spec_pruneRecord flt) todo, errs @ inputErrors flt todo)"
proof (induction todo arbitrary: "done" errs)
  case Nil
  then show ?case by (simp add: map_filter_simps inputErrors_def)
next
  case (Cons kr todo)
  obtain k r where kr: "kr = (k, r)" by (cases kr)
  from Cons.prems kr have k1: "k \<notin> fst ` set done" and k2: "k \<notin> fst ` set todo"
    by auto
  show ?case
  proof (cases "spec_keptAs flt k r = [] \<and> Paths r = []")
    case True
    have del: "map_delete (done @ (k, r) # todo) k = done @ todo"
    proof -
      have "map_delete ((k, r) # todo) k = todo"
        using map_delete_absent[OF k2] by (simp add: map_delete_def)
      then show ?thesis
        using map_delete_absent[OF k1] by (simp add: map_delete_append)
    qed
    have d: "distinct (map fst (done @ todo))" using Cons.prems by simp
    show ?thesis
      using True Cons.IH[OF d]
      by (simp add: kr pruneAs_eq spec_keptAs_def del map_filter_simps spec_pruneRecord_def
          inputErrors_def)
  next
    case False
    let ?r' = "r\<lparr>As := spec_keptAs flt k r\<rparr>"
    have d: "distinct (map fst ((done @ [(k, ?r')]) @ todo))" using Cons.prems kr by simp
    have "pruneInputs flt (kr # todo) (done @ kr # todo, errs) =
          pruneInputs flt todo ((done @ [(k, ?r')]) @ todo, errs @ filterErrors flt k (As r))"
      using False k1
      by (auto simp add: kr pruneAs_eq spec_keptAs_def map_get_append_absent map_set_append_absent)
    then show ?thesis
      using False Cons.IH[OF d]
      by (simp add: kr map_filter_simps spec_pruneRecord_def inputErrors_def)
  qed
qed

lemma pruneInputs_eq:
  "distinct (map fst m) \<Longrightarrow>
   pruneInputs flt m (m, errs) = (List.map_filter (spec_pruneRecord flt) m, errs @ inputErrors flt m)"
  using pruneInputs_gen[of "[]" m flt errs] by simp

lemma pruneImages_eq:
  "\<forall>img \<in> set imgs. distinct (map fst (Inputs img)) \<Longrightarrow>
   pruneImages flt imgs (prunedImages, errs) =
     (prunedImages @ [img' \<leftarrow> map (spec_pruneImage flt) imgs.
                        Inputs img' \<noteq> [] \<or> From img' \<noteq> [] \<or> To img' \<noteq> []],
      errs @ imageErrors flt imgs)"
proof (induction imgs arbitrary: prunedImages errs)
  case Nil
  then show ?case by (simp add: imageErrors_def)
next
  case (Cons img imgs)
  have d: "distinct (map fst (Inputs img))" using Cons.prems by simp
  have r: "\<forall>img \<in> set imgs. distinct (map fst (Inputs img))" using Cons.prems by simp
  show ?case
    by (simp add: pruneInputs_eq[OF d] Cons.IH[OF r] spec_pruneImage_def imageErrors_def Let_def)
qed

lemma pruneReplacements_eq:
  "distinct_inputs config \<Longrightarrow>
   pruneReplacements config flt =
     (config\<lparr>Images := [img' \<leftarrow> map (spec_pruneImage flt) (Images config).
                          Inputs img' \<noteq> [] \<or> From img' \<noteq> [] \<or> To img' \<noteq> []]\<rparr>,
      NewAggregate (imageErrors flt (Images config)))"
  by (simp add: pruneReplacements_def distinct_inputs_def pruneImages_eq)

lemma map_of_map_filter_pruneRecord:
  "map_of (List.map_filter (spec_pruneRecord flt) m) k =
     (case map_of m k of
        None \<Rightarrow> None
      | Some r \<Rightarrow> if [a \<leftarrow> As r. flt a k = Inr True] = [] \<and> Paths r = [] then None
                  else Some (r\<lparr>As := [a \<leftarrow> As r. flt a k = Inr True]\<rparr>))"
  if "distinct (map fst m)"
  using that
proof (induction m)
  case Nil
  then show ?case by (simp add: map_filter_simps)
next
  case (Cons kr m)
  obtain k' r' where kr: "kr = (k', r')" by (cases kr)
  have absent: "map_of m k' = None" using Cons.prems kr by (simp add: map_of_eq_None_iff)
  show ?case
    using Cons absent
    by (auto simp: kr map_filter_simps spec_pruneRecord_def spec_keptAs_def split: option.splits)
qed
text \<open>
  Claim C3: for every configuration document (each input mapping a Go map, so with distinct
  keys) and every keep-predicate, the images after pruning are the images before, each with its
  records pruned, without those left with an empty input mapping and empty \<open>From\<close> and \<open>To\<close>;
  an image with a non-empty \<open>From\<close> or \<open>To\<close> stays. In a pruned image a key is bound exactly when
  it was bound before and its record keeps an \<open>As\<close> entry or has \<open>Paths\<close>; its \<open>As\<close> are then
  exactly the entries for which keep returns true, in their order, and nothing else of the
  record, the image or the document changes.
\<close>

theorem pruneReplacements_retains_exactly:
  assumes "distinct_inputs config"
  shows "Images (fst (pruneReplacements config flt))
           = [img' \<leftarrow> map (spec_pruneImage flt) (Images config).
                Inputs img' \<noteq> [] \<or> From img' \<noteq> [] \<or> To img' \<noteq> []]
       \<and> (\<forall>img \<in> set (Images config). \<forall>k.
             map_get (Inputs (spec_pruneImage flt img)) k =
               (case map_get (Inputs img) k of
                  None \<Rightarrow> None
                | Some r \<Rightarrow>
                    if [a \<leftarrow> As r. flt a k = Inr True] = [] \<and> Paths r = [] then None
                    else Some (r\<lparr>As := [a \<leftarrow> As r. flt a k = Inr True]\<rparr>)))
       \<and> (\<forall>img. From (spec_pruneImage flt img) = From img
               \<and> To (spec_pruneImage flt img) = To img
               \<and> ContextDir (spec_pruneImage flt img) = ContextDir img
               \<and> DockerfilePath (spec_pruneImage flt img) = DockerfilePath img)
       \<and> BaseImages (fst (pruneReplacements config flt)) = BaseImages config
       \<and> Metadata (fst (pruneReplacements config flt)) = Metadata config"
proof -
  have "\<forall>img \<in> set (Images config). \<forall>k.
          map_get (Inputs (spec_pruneImage flt img)) k =
            (case map_get (Inputs img) k of
               None \<Rightarrow> None
             | Some r \<Rightarrow>
                 if [a \<leftarrow> As r. flt a k = Inr True] = [] \<and> Paths r = [] then None
                 else Some (r\<lparr>As := [a \<leftarrow> As r. flt a k = Inr True]\<rparr>))"
    using assms
    by (simp add: distinct_inputs_def map_get_def spec_pruneImage_def map_of_map_filter_pruneRecord)
  then show ?thesis
    using pruneReplacements_eq[OF assms, of flt] by (simp add: spec_pruneImage_def)
qed

theorem pruneReplacements_retains_exactly_witness:
  "distinct_inputs
     \<lparr>Images =
        [\<lparr>From = [], To = [], ContextDir = [], DockerfilePath = [],
          Inputs = [(''k'', \<lparr>As = [''some-image'', ''superfluous''], Paths = []\<rparr>)]\<rparr>,
         \<lparr>From = [], To = [], ContextDir = [], DockerfilePath = [],
          Inputs = [(''k'', \<lparr>As = [''superfluous''], Paths = []\<rparr>)]\<rparr>,
         \<lparr>From = [], To = ''out'', ContextDir = [], DockerfilePath = [],
          Inputs = [(''k'', \<lparr>As = [''superfluous''], Paths = []\<rparr>)]\<rparr>],
      BaseImages = [], Metadata = \<lparr>Org = [], Repo = [], Branch = []\<rparr>\<rparr>
   \<and> Images (fst (pruneReplacements
        \<lparr>Images =
           [\<lparr>From = [], To = [], ContextDir = [], DockerfilePath = [],
             Inputs = [(''k'', \<lparr>As = [''some-image'', ''superfluous''], Paths = []\<rparr>)]\<rparr>,
            \<lparr>From = [], To = [], ContextDir = [], DockerfilePath = [],
             Inputs = [(''k'', \<lparr>As = [''superfluous''], Paths = []\<rparr>)]\<rparr>,
            \<lparr>From = [], To = ''out'', ContextDir = [], DockerfilePath = [],
             Inputs = [(''k'', \<lparr>As = [''superfluous''], Paths = []\<rparr>)]\<rparr>],
         BaseImages = [], Metadata = \<lparr>Org = [], Repo = [], Branch = []\<rparr>\<rparr>
        (\<lambda>asDirective _. Inr (asDirective \<in> {''some-image''}))))
     = [\<lparr>From = [], To = [], ContextDir = [], DockerfilePath = [],
         Inputs = [(''k'', \<lparr>As = [''some-image''], Paths = []\<rparr>)]\<rparr>,
        \<lparr>From = [], To = ''out'', ContextDir = [], DockerfilePath = [], Inputs = []\<rparr>]"
proof -
  let ?config = "\<lparr>Images =
        [\<lparr>From = [], To = [], ContextDir = [], DockerfilePath = [],
          Inputs = [(''k'', \<lparr>As = [''some-image'', ''superfluous''], Paths = []\<rparr>)]\<rparr>,
         \<lparr>From = [], To = [], ContextDir = [], DockerfilePath = [],
          Inputs = [(''k'', \<lparr>As = [''superfluous''], Paths = []\<rparr>)]\<rparr>,
         \<lparr>From = [], To = ''out'', ContextDir = [], DockerfilePath = [],
          Inputs = [(''k'', \<lparr>As = [''superfluous''], Paths = []\<rparr>)]\<rparr>],
      BaseImages = [], Metadata = \<lparr>Org = [], Repo = [], Branch = []\<rparr>\<rparr>"
  have d: "distinct_inputs ?config" by (simp add: distinct_inputs_def)
  from pruneReplacements_retains_exactly[OF d, of "\<lambda>asDirective _. Inr (asDirective \<in> {''some-image''})"]
  show ?thesis
    using d by (simp add: spec_pruneImage_def spec_pruneRecord_def spec_keptAs_def map_filter_simps)
qed

text \<open>
  Claim C10: in the pruning reducer an \<open>As\<close> entry for which the keep-predicate returns an error
  is left out exactly as if the predicate had answered false (the pruned document is the one
  obtained with every error replaced by false), and the error is collected: the result of the
  reducer is the aggregate of all errors, which holds each of them. In particular, under the
  disallowed-namespace policy an \<open>As\<close> string that fails canonicalization is in no record of the
  pruned document.
\<close>

theorem pruneReplacements_error_drops_entry:
  assumes "distinct_inputs config"
  shows "fst (pruneReplacements config flt) = fst (pruneReplacements config (errors_as_false flt))
       \<and> snd (pruneReplacements config flt) = NewAggregate (imageErrors flt (Images config))
       \<and> (\<forall>img \<in> set (Images config). \<forall>kr \<in> set (Inputs img). \<forall>a \<in> set (As (snd kr)). \<forall>e.
             flt a (fst kr) = Inl e \<longrightarrow>
             (\<exists>errs. snd (pruneReplacements config flt) = Some (Aggregate errs) \<and> e \<in> set errs))
       \<and> (\<forall>a. (\<exists>e. orgRepoTagFromPullString a = Inl e) \<longrightarrow>
             (\<forall>img' \<in> set (Images (fst (pruneOCPBuilderReplacements config))).
                \<forall>kr \<in> set (Inputs img'). a \<notin> set (As (snd kr))))"
proof -
  have "(errors_as_false flt a k = Inr True) = (flt a k = Inr True)" for a k
    by (simp add: errors_as_false_def split: sum.splits)
  then have "spec_keptAs (errors_as_false flt) = spec_keptAs flt"
    by (intro ext) (simp add: spec_keptAs_def)
  then have "spec_pruneRecord (errors_as_false flt) = spec_pruneRecord flt"
    by (intro ext) (simp add: spec_pruneRecord_def)
  then have same: "spec_pruneImage (errors_as_false flt) = spec_pruneImage flt"
    by (intro ext) (simp add: spec_pruneImage_def)
  have c1: "fst (pruneReplacements config flt) = fst (pruneReplacements config (errors_as_false flt))"
    by (simp add: pruneReplacements_eq[OF assms] same)
  have c2: "snd (pruneReplacements config flt) = NewAggregate (imageErrors flt (Images config))"
    by (simp add: pruneReplacements_eq[OF assms])
  have c3: "\<exists>errs. snd (pruneReplacements config flt) = Some (Aggregate errs) \<and> e \<in> set errs"
    if "img \<in> set (Images config)" "kr \<in> set (Inputs img)" "a \<in> set (As (snd kr))"
      "flt a (fst kr) = Inl e" for img kr a e
  proof -
    have "e \<in> set (filterErrors flt (fst kr) (As (snd kr)))"
      using that(3,4) by (force simp: filterErrors_def)
    then have "e \<in> set (inputErrors flt (Inputs img))"
      using that(2) by (force simp: inputErrors_def)
    then have "e \<in> set (imageErrors flt (Images config))"
      using that(1) by (force simp: imageErrors_def)
    then show ?thesis
      by (auto simp: c2 NewAggregate_def)
  qed
  have c4: "a \<notin> set (As (snd kr))"
    if "orgRepoTagFromPullString a = Inl e"
      "img' \<in> set (Images (fst (pruneOCPBuilderReplacements config)))" "kr \<in> set (Inputs img')"
    for a e img' kr
  proof -
    from that(2) obtain img where "img' = spec_pruneImage (ocpBuilderFilter config) img"
      by (auto simp: pruneOCPBuilderReplacements_def pruneReplacements_eq[OF assms])
    with that(3) obtain kr0 where "spec_pruneRecord (ocpBuilderFilter config) kr0 = Some kr"
      by (auto simp: spec_pruneImage_def set_map_filter_Some)
    then have "set (As (snd kr)) \<subseteq> {a. ocpBuilderFilter config a (fst kr) = Inr True}"
      by (auto simp: spec_pruneRecord_def spec_keptAs_def split: if_splits)
    moreover have "ocpBuilderFilter config a (fst kr) \<noteq> Inr True"
      using that(1) by (simp add: ocpBuilderFilter_def)
    ultimately show ?thesis by blast
  qed
  show ?thesis
    using c1 c2 c3 c4 by blast
qed
theorem pruneReplacements_error_drops_entry_witness:
  "distinct_inputs
     \<lparr>Images = [\<lparr>From = [], To = ''out'', ContextDir = [], DockerfilePath = [],
                 Inputs = [(''k'', \<lparr>As = [''a/b/c/d'', ''centos:7''], Paths = []\<rparr>)]\<rparr>],
      BaseImages = [], Metadata = \<lparr>Org = [], Repo = [], Branch = []\<rparr>\<rparr>
   \<and> orgRepoTagFromPullString ''a/b/c/d'' = Inl (PullStringParseError ''a/b/c/d'' 4)
   \<and> pruneOCPBuilderReplacements
       \<lparr>Images = [\<lparr>From = [], To = ''out'', ContextDir = [], DockerfilePath = [],
                   Inputs = [(''k'', \<lparr>As = [''a/b/c/d'', ''centos:7''], Paths = []\<rparr>)]\<rparr>],
        BaseImages = [], Metadata = \<lparr>Org = [], Repo = [], Branch = []\<rparr>\<rparr>
     = (\<lparr>Images = [\<lparr>From = [], To = ''out'', ContextDir = [], DockerfilePath = [],
                    Inputs = [(''k'', \<lparr>As = [''centos:7''], Paths = []\<rparr>)]\<rparr>],
         BaseImages = [], Metadata = \<lparr>Org = [], Repo = [], Branch = []\<rparr>\<rparr>,
        Some (Aggregate [Wrapped ''failed to extract org and tag from pull spec a/b/c/d''
                           (PullStringParseError ''a/b/c/d'' 4)]))"
proof -
  let ?config = "\<lparr>Images = [\<lparr>From = [], To = ''out'', ContextDir = [], DockerfilePath = [],
                 Inputs = [(''k'', \<lparr>As = [''a/b/c/d'', ''centos:7''], Paths = []\<rparr>)]\<rparr>],
      BaseImages = [], Metadata = \<lparr>Org = [], Repo = [], Branch = []\<rparr>\<rparr>"
  have d: "distinct_inputs ?config" by (simp add: distinct_inputs_def)
  have p: "orgRepoTagFromPullString ''a/b/c/d'' = Inl (PullStringParseError ''a/b/c/d'' 4)"
    by (simp add: orgRepoTagFromPullString_def)
  have q: "orgRepoTagFromPullString ''centos:7''
             = Inr \<lparr>org = ''_'', repo = ''centos'', tag = ''7''\<rparr>"
    by (simp add: orgRepoTagFromPullString_def splitRepoTag_def)
  from pruneReplacements_error_drops_entry[OF d, of "ocpBuilderFilter ?config"]
  have "snd (pruneReplacements ?config (ocpBuilderFilter ?config))
          = NewAggregate (imageErrors (ocpBuilderFilter ?config) (Images ?config))"
    by blast
  moreover have "fst (pruneOCPBuilderReplacements ?config)
      = \<lparr>Images = [\<lparr>From = [], To = ''out'', ContextDir = [], DockerfilePath = [],
                    Inputs = [(''k'', \<lparr>As = [''centos:7''], Paths = []\<rparr>)]\<rparr>],
         BaseImages = [], Metadata = \<lparr>Org = [], Repo = [], Branch = []\<rparr>\<rparr>"
    by (simp add: pruneOCPBuilderReplacements_def pruneReplacements_def ocpBuilderFilter_def p q
        map_get_def)
  ultimately show ?thesis
    using d p
    by (simp add: pruneOCPBuilderReplacements_def prod_eq_iff imageErrors_def inputErrors_def
        filterErrors_def ocpBuilderFilter_def q NewAggregate_def)
qed

text \<open>
  Claim C5, as the specification states it: under the disallowed-namespace policy a token that
  canonicalizes to the disallowed pair (\<open>ocp\<close>, \<open>builder\<close>) is still kept when the Base-Image
  Table has no entry for the input key. In the code the missing entry answers "do not keep":
  with an empty table the token \<open>ocp/builder:golang-1.13\<close> is dropped, and with it its record.
\<close>

theorem ocpBuilderFilter_absent_entry_counterexample:
  "orgRepoTagFromPullString ''ocp/builder:golang-1.13''
     = Inr \<lparr>org = ''ocp'', repo = ''builder'', tag = ''golang-1.13''\<rparr>
   \<and> map_get (BaseImages \<lparr>Images = [], BaseImages = [],
                 Metadata = \<lparr>Org = [], Repo = [], Branch = []\<rparr>\<rparr>) ''ocp_builder_golang-1.13'' = None
   \<and> ocpBuilderFilter \<lparr>Images = [], BaseImages = [],
         Metadata = \<lparr>Org = [], Repo = [], Branch = []\<rparr>\<rparr>
         ''ocp/builder:golang-1.13'' ''ocp_builder_golang-1.13'' = Inr False
   \<and> pruneOCPBuilderReplacements
       \<lparr>Images = [\<lparr>From = [], To = ''out'', ContextDir = [], DockerfilePath = [],
                   Inputs = [(''ocp_builder_golang-1.13'',
                              \<lparr>As = [''ocp/builder:golang-1.13''], Paths = []\<rparr>)]\<rparr>],
        BaseImages = [], Metadata = \<lparr>Org = [], Repo = [], Branch = []\<rparr>\<rparr>
     = (\<lparr>Images = [\<lparr>From = [], To = ''out'', ContextDir = [], DockerfilePath = [],
                    Inputs = []\<rparr>],
         BaseImages = [], Metadata = \<lparr>Org = [], Repo = [], Branch = []\<rparr>\<rparr>, None)"
proof -
  have p: "orgRepoTagFromPullString ''ocp/builder:golang-1.13''
     = Inr \<lparr>org = ''ocp'', repo = ''builder'', tag = ''golang-1.13''\<rparr>"
    by (simp add: orgRepoTagFromPullString_def splitRepoTag_def)
  show ?thesis
    by (simp add: p ocpBuilderFilter_def map_get_def pruneOCPBuilderReplacements_def
        pruneReplacements_def map_delete_def NewAggregate_def)
qed

text \<open>
  Claim C5, amended: under the disallowed-namespace policy a token that canonicalizes is kept
  exactly when it does not canonicalize to the pair (\<open>ocp\<close>, \<open>builder\<close>), or the Base-Image
  Table has an entry for the input key whose namespace, name and tag are the token's own
  canonical triple; a token of the disallowed pair whose input key has no entry in the table,
  or another entry, is dropped.
\<close>

theorem ocpBuilderFilter_keeps:
  assumes "orgRepoTagFromPullString asDirective = Inr ort"
  shows "ocpBuilderFilter config asDirective imageKey =
           Inr (org ort \<noteq> ''ocp'' \<or> repo ort \<noteq> ''builder'' \<or>
                (\<exists>ref. map_get (BaseImages config) imageKey = Some ref
                       \<and> Namespace ref = ''ocp'' \<and> Name ref = ''builder'' \<and> Tag ref = tag ort))"
  using assms by (auto simp: ocpBuilderFilter_def split: option.splits)

theorem ocpBuilderFilter_keeps_witness:
  "orgRepoTagFromPullString ''ocp/builder:golang-1.13''
     = Inr \<lparr>org = ''ocp'', repo = ''builder'', tag = ''golang-1.13''\<rparr>
   \<and> orgRepoTagFromPullString ''centos:7'' = Inr \<lparr>org = ''_'', repo = ''centos'', tag = ''7''\<rparr>
   \<and> ocpBuilderFilter \<lparr>Images = [], BaseImages = [],
         Metadata = \<lparr>Org = [], Repo = [], Branch = []\<rparr>\<rparr> ''centos:7'' ''k'' = Inr True
   \<and> ocpBuilderFilter \<lparr>Images = [], BaseImages = [],
         Metadata = \<lparr>Org = [], Repo = [], Branch = []\<rparr>\<rparr> ''ocp/builder:golang-1.13'' ''k''
       = Inr False
   \<and> ocpBuilderFilter
         \<lparr>Images = [],
          BaseImages = [(''k'', \<lparr>Namespace = ''ocp'', Name = ''builder'', Tag = ''golang-1.13''\<rparr>)],
          Metadata = \<lparr>Org = [], Repo = [], Branch = []\<rparr>\<rparr> ''ocp/builder:golang-1.13'' ''k''
       = Inr True
   \<and> ocpBuilderFilter
         \<lparr>Images = [],
          BaseImages = [(''k'', \<lparr>Namespace = ''ocp'', Name = ''4.6'', Tag = ''base''\<rparr>)],
          Metadata = \<lparr>Org = [], Repo = [], Branch = []\<rparr>\<rparr> ''ocp/builder:golang-1.13'' ''k''
       = Inr False"
proof -
  have p: "orgRepoTagFromPullString ''ocp/builder:golang-1.13''
     = Inr \<lparr>org = ''ocp'', repo = ''builder'', tag = ''golang-1.13''\<rparr>"
    by (simp add: orgRepoTagFromPullString_def splitRepoTag_def)
  have q: "orgRepoTagFromPullString ''centos:7'' = Inr \<lparr>org = ''_'', repo = ''centos'', tag = ''7''\<rparr>"
    by (simp add: orgRepoTagFromPullString_def splitRepoTag_def)
  show ?thesis
    using p q ocpBuilderFilter_keeps[OF q] ocpBuilderFilter_keeps[OF p]
    by (simp add: map_get_def)
qed

subsection \<open>The promotion-Dockerfile reconciler\<close>

lemma map_get_map_set: "map_get (map_set m k v) k' = (if k' = k then Some v else map_get m k')"
  by (induction m) (auto simp: map_get_def)

lemma map_get_promotedTagsByTag:
  "map_get (promotedTagsByTag mm pts acc) t =
     (if \<lparr>Namespace = ''ocp'', Name = mm, Tag = t\<rparr> \<in> set pts
      then Some \<lparr>Namespace = ''ocp'', Name = mm, Tag = t\<rparr>
      else map_get acc t)"
proof (induction pts arbitrary: acc)
  case Nil
  then show ?case by simp
next
  case (Cons pt pts)
  show ?case
  proof (cases "Namespace pt \<noteq> ''ocp'' \<or> Name pt \<noteq> mm")
    case True
    then have "pt \<noteq> \<lparr>Namespace = ''ocp'', Name = mm, Tag = t\<rparr>" by auto
    then show ?thesis using True Cons.IH[of acc] by auto
  next
    case False
    then have pt: "pt = \<lparr>Namespace = ''ocp'', Name = mm, Tag = Tag pt\<rparr>" by (cases pt) simp
    have step: "promotedTagsByTag mm (pt # pts) acc
                  = promotedTagsByTag mm pts (map_set acc (Tag pt) pt)"
      using False by simp
    have ih: "map_get (promotedTagsByTag mm (pt # pts) acc) t =
                (if \<lparr>Namespace = ''ocp'', Name = mm, Tag = t\<rparr> \<in> set pts
                 then Some \<lparr>Namespace = ''ocp'', Name = mm, Tag = t\<rparr>
                 else if t = Tag pt then Some pt else map_get acc t)"
      unfolding step Cons.IH map_get_map_set by (rule refl)
    show ?thesis
    proof (cases "t = Tag pt")
      case True
      then have "\<lparr>Namespace = ''ocp'', Name = mm, Tag = t\<rparr> = pt" using pt by simp
      then show ?thesis unfolding ih using True by auto
    next
      case False
      then have "pt \<noteq> \<lparr>Namespace = ''ocp'', Name = mm, Tag = t\<rparr>"
        by (metis ImageStreamTagReference.select_convs(3))
      then show ?thesis unfolding ih using False by auto
    qed
  qed
qed

lemma updateDockerfile_no_tags: "updateDockerfile E [] m img = img"
  by (simp add: updateDockerfile_def map_get_def)

lemma updateDockerfilesToMatchOCPBuildData_master:
  "Branch (Metadata config) = ''master'' \<Longrightarrow>
   updateDockerfilesToMatchOCPBuildData E config m mm =
     config\<lparr>Images := map (updateDockerfile E (promotedTagsByTag mm (PromotedTags E config) []) m)
                          (Images config)\<rparr>"
proof -
  have "map (updateDockerfile E [] m) xs = xs" for xs
    by (induction xs) (simp_all add: updateDockerfile_no_tags)
  then show "Branch (Metadata config) = ''master'' \<Longrightarrow> ?thesis"
    by (simp add: updateDockerfilesToMatchOCPBuildData_def Let_def)
qed

lemma updateDockerfile_promoted:
  "updateDockerfile E (promotedTagsByTag mm pts []) m img =
     (if \<lparr>Namespace = ''ocp'', Name = mm, Tag = To img\<rparr> \<in> set pts
      then (case m (''registry.svc.ci.openshift.org/ocp/'' @ mm @ '':'' @ To img) of
              None \<Rightarrow> img
            | Some dockerfilePath \<Rightarrow>
                if dockerfilePath \<noteq> filepath_Join E (ContextDir img)
                     (if DockerfilePath img \<noteq> [] then DockerfilePath img else ''Dockerfile'')
                then img\<lparr>ContextDir := [], DockerfilePath := dockerfilePath\<rparr>
                else img)
      else img)"
proof -
  have s: "''registry.svc.ci.openshift.org/'' @ ''ocp'' @ ''/'' @ mm @ '':'' @ To img
           = ''registry.svc.ci.openshift.org/ocp/'' @ mm @ '':'' @ To img"
    by simp
  show ?thesis
    unfolding updateDockerfile_def map_get_promotedTagsByTag
    by (simp only: s Let_def ImageStreamTagReference.select_convs option.case if_True if_False
        split: if_splits) (simp add: map_get_def)
qed

text \<open>
  Claim C9: the reconciler leaves every document whose branch is not \<open>master\<close> as it is. On
  \<open>master\<close> it changes nothing but \<open>ContextDir\<close> and \<open>DockerfilePath\<close> of images, and for each
  image whose \<open>To\<close> is a tag the document promotes into \<open>ocp/<release>\<close>: when the authoritative
  mapping has a path for \<open>registry.svc.ci.openshift.org/ocp/<release>:<To>\<close> that differs from
  the join of \<open>ContextDir\<close> and \<open>DockerfilePath\<close> (or \<open>Dockerfile\<close>), \<open>ContextDir\<close> becomes empty
  and \<open>DockerfilePath\<close> that path; when the mapping has no path for it, or the same path, the
  image is unchanged. An image whose \<open>To\<close> is not such a tag is unchanged. The function is
  total and has no error result.
\<close>

theorem updateDockerfilesToMatchOCPBuildData_reconciles:
  "(Branch (Metadata config) \<noteq> ''master'' \<longrightarrow>
      updateDockerfilesToMatchOCPBuildData E config m mm = config)
   \<and> length (Images (updateDockerfilesToMatchOCPBuildData E config m mm)) = length (Images config)
   \<and> BaseImages (updateDockerfilesToMatchOCPBuildData E config m mm) = BaseImages config
   \<and> Metadata (updateDockerfilesToMatchOCPBuildData E config m mm) = Metadata config
   \<and> (\<forall>i < length (Images config).
        Images (updateDockerfilesToMatchOCPBuildData E config m mm) ! i =
          (let img = Images config ! i;
               actual = filepath_Join E (ContextDir img)
                          (if DockerfilePath img \<noteq> [] then DockerfilePath img else ''Dockerfile'')
           in if Branch (Metadata config) = ''master''
                 \<and> \<lparr>Namespace = ''ocp'', Name = mm, Tag = To img\<rparr> \<in> set (PromotedTags E config)
              then (case m (''registry.svc.ci.openshift.org/ocp/'' @ mm @ '':'' @ To img) of
                      None \<Rightarrow> img
                    | Some dockerfilePath \<Rightarrow>
                        if dockerfilePath \<noteq> actual
                        then img\<lparr>ContextDir := [], DockerfilePath := dockerfilePath\<rparr>
                        else img)
              else img))"
proof (cases "Branch (Metadata config) = ''master''")
  case False
  then show ?thesis by (simp add: updateDockerfilesToMatchOCPBuildData_def Let_def)
next
  case True
  show ?thesis
    unfolding updateDockerfilesToMatchOCPBuildData_master[OF True]
    by (simp add: True updateDockerfile_promoted Let_def del: append.simps)
qed
theorem updateDockerfilesToMatchOCPBuildData_reconciles_witness:
  "Images (updateDockerfilesToMatchOCPBuildData
      (example_env [\<lparr>Namespace = ''ocp'', Name = ''4.6'', Tag = ''cli''\<rparr>,
                    \<lparr>Namespace = ''ocp'', Name = ''4.6'', Tag = ''installer''\<rparr>] (Node [] None [] []))
      \<lparr>Images = [\<lparr>From = [], To = ''cli'', ContextDir = ''images/cli'', DockerfilePath = [],
                  Inputs = []\<rparr>,
                 \<lparr>From = [], To = ''installer'', ContextDir = ''images'', DockerfilePath = ''Dockerfile.ci'',
                  Inputs = []\<rparr>],
       BaseImages = [], Metadata = \<lparr>Org = ''openshift'', Repo = ''oc'', Branch = ''master''\<rparr>\<rparr>
      [''registry.svc.ci.openshift.org/ocp/4.6:cli'' \<mapsto> ''images/cli/Dockerfile.rhel'']
      ''4.6'')
    = [\<lparr>From = [], To = ''cli'', ContextDir = [], DockerfilePath = ''images/cli/Dockerfile.rhel'',
        Inputs = []\<rparr>,
       \<lparr>From = [], To = ''installer'', ContextDir = ''images'', DockerfilePath = ''Dockerfile.ci'',
        Inputs = []\<rparr>]
   \<and> updateDockerfilesToMatchOCPBuildData
      (example_env [\<lparr>Namespace = ''ocp'', Name = ''4.6'', Tag = ''cli''\<rparr>] (Node [] None [] []))
      \<lparr>Images = [\<lparr>From = [], To = ''cli'', ContextDir = ''images/cli'', DockerfilePath = [],
                  Inputs = []\<rparr>],
       BaseImages = [], Metadata = \<lparr>Org = ''openshift'', Repo = ''oc'', Branch = ''release-4.5''\<rparr>\<rparr>
      [''registry.svc.ci.openshift.org/ocp/4.6:cli'' \<mapsto> ''images/cli/Dockerfile.rhel'']
      ''4.6''
    = \<lparr>Images = [\<lparr>From = [], To = ''cli'', ContextDir = ''images/cli'', DockerfilePath = [],
                  Inputs = []\<rparr>],
       BaseImages = [], Metadata = \<lparr>Org = ''openshift'', Repo = ''oc'', Branch = ''release-4.5''\<rparr>\<rparr>"
proof -
  let ?E = "example_env [\<lparr>Namespace = ''ocp'', Name = ''4.6'', Tag = ''cli''\<rparr>,
                    \<lparr>Namespace = ''ocp'', Name = ''4.6'', Tag = ''installer''\<rparr>] (Node [] None [] [])"
  let ?E' = "example_env [\<lparr>Namespace = ''ocp'', Name = ''4.6'', Tag = ''cli''\<rparr>] (Node [] None [] [])"
  let ?c = "\<lparr>Images = [\<lparr>From = [], To = ''cli'', ContextDir = ''images/cli'', DockerfilePath = [],
                  Inputs = []\<rparr>,
                 \<lparr>From = [], To = ''installer'', ContextDir = ''images'', DockerfilePath = ''Dockerfile.ci'',
                  Inputs = []\<rparr>],
       BaseImages = [], Metadata = \<lparr>Org = ''openshift'', Repo = ''oc'', Branch = ''master''\<rparr>\<rparr>"
  let ?c' = "\<lparr>Images = [\<lparr>From = [], To = ''cli'', ContextDir = ''images/cli'', DockerfilePath = [],
                  Inputs = []\<rparr>],
       BaseImages = [], Metadata = \<lparr>Org = ''openshift'', Repo = ''oc'', Branch = ''release-4.5''\<rparr>\<rparr>"
  let ?m = "[''registry.svc.ci.openshift.org/ocp/4.6:cli'' \<mapsto> ''images/cli/Dockerfile.rhel'']"
  note r = updateDockerfilesToMatchOCPBuildData_reconciles[of ?c ?E ?m "''4.6''"]
  note r' = updateDockerfilesToMatchOCPBuildData_reconciles[of ?c' ?E' ?m "''4.6''"]
  have len: "length (Images (updateDockerfilesToMatchOCPBuildData ?E ?c ?m ''4.6'')) = 2"
    using r by simp
  have i0: "Images (updateDockerfilesToMatchOCPBuildData ?E ?c ?m ''4.6'') ! 0
      = \<lparr>From = [], To = ''cli'', ContextDir = [], DockerfilePath = ''images/cli/Dockerfile.rhel'',
        Inputs = []\<rparr>"
    using r by (simp add: example_env_def simple_Join_def)
  have i1: "Images (updateDockerfilesToMatchOCPBuildData ?E ?c ?m ''4.6'') ! 1
      = \<lparr>From = [], To = ''installer'', ContextDir = ''images'', DockerfilePath = ''Dockerfile.ci'',
        Inputs = []\<rparr>"
    using r by (simp add: example_env_def simple_Join_def)
  have "Images (updateDockerfilesToMatchOCPBuildData ?E ?c ?m ''4.6'')
      = [Images (updateDockerfilesToMatchOCPBuildData ?E ?c ?m ''4.6'') ! 0,
         Images (updateDockerfilesToMatchOCPBuildData ?E ?c ?m ''4.6'') ! 1]"
    using len by (auto simp: list_eq_iff_nth_eq less_Suc_eq numeral_2_eq_2)
  then show ?thesis
    using i0 i1 r' by simp
qed

subsection \<open>The replacement synthesizer\<close>

lemma orgRepoTagFromPullString_example:
  "orgRepoTagFromPullString ''registry.svc.ci.openshift.org/org/repo:tag''
     = Inr \<lparr>org = ''org'', repo = ''repo'', tag = ''tag''\<rparr>"
  by (simp add: orgRepoTagFromPullString_def splitRepoTag_def)

lemma map_get_ensureBaseImages:
  "map_get (ensureBaseImages foundTags baseImages) k =
     (case map_get baseImages k of
        Some v \<Rightarrow> Some v
      | None \<Rightarrow>
          (case List.find (\<lambda>foundTag. String foundTag = k) foundTags of
             None \<Rightarrow> None
           | Some foundTag \<Rightarrow>
               Some \<lparr>Namespace = org foundTag, Name = repo foundTag, Tag = tag foundTag\<rparr>))"
proof (induction foundTags arbitrary: baseImages)
  case Nil
  then show ?case by (simp split: option.splits)
next
  case (Cons foundTag foundTags)
  show ?case
  proof (cases "map_get baseImages (String foundTag)")
    case None
    then show ?thesis
      using Cons.IH[of "map_set baseImages (String foundTag)
                          \<lparr>Namespace = org foundTag, Name = repo foundTag, Tag = tag foundTag\<rparr>"]
      by (auto simp: map_get_map_set split: option.splits)
  next
    case (Some v)
    then show ?thesis
      using Cons.IH[of baseImages] by (auto split: option.splits)
  qed
qed

subsection \<open>Candidate extraction\<close>

lemma childCandidates_mono: "snd acc \<subseteq> snd (childCandidates h name child acc)"
  by (auto simp: childCandidates_def Let_def split: prod.splits)

lemma stageCandidates_mono: "snd acc \<subseteq> snd (stageCandidates h name children acc)"
proof (induction children arbitrary: acc)
  case Nil
  then show ?case by simp
next
  case (Cons child children)
  show ?case
    using childCandidates_mono[of acc h name child] Cons.IH[of "childCandidates h name child acc"]
    by auto
qed

lemma stagesCandidates_mono: "snd acc \<subseteq> snd (stagesCandidates h stages acc)"
proof (induction stages arbitrary: acc)
  case Nil
  then show ?case by simp
next
  case (Cons stage stages)
  show ?case
    using stageCandidates_mono[of acc h "StageName stage" "Children (StageNode stage)"]
      Cons.IH[of "stageCandidates h (StageName stage) (Children (StageNode stage)) acc"]
    by auto
qed

lemma childCandidates_From:
  "Value child = dockercmd_From \<Longrightarrow> Next child = Some nxt \<Longrightarrow>
   childCandidates h name child (names, cands) = (names(name \<mapsto> Value nxt), insert (Value nxt) cands)"
  by (simp add: childCandidates_def Let_def)

lemma stageCandidates_From:
  "child \<in> set children \<Longrightarrow> Value child = dockercmd_From \<Longrightarrow> Next child = Some nxt \<Longrightarrow>
   Value nxt \<in> snd (stageCandidates h name children acc)"
proof (induction children arbitrary: acc)
  case Nil
  then show ?case by simp
next
  case (Cons c children)
  show ?case
  proof (cases "c = child")
    case True
    have "Value nxt \<in> snd (childCandidates h name child acc)"
      using Cons.prems(2,3) childCandidates_From[of child nxt h name "fst acc" "snd acc"] by simp
    then show ?thesis
      using True stageCandidates_mono[of "childCandidates h name child acc" h name children]
      by auto
  next
    case False
    then have "child \<in> set children" using Cons.prems(1) by simp
    then show ?thesis
      using Cons.IH[of "childCandidates h name c acc"] Cons.prems(2,3) by simp
  qed
qed

lemma stagesCandidates_From:
  "stage \<in> set stages \<Longrightarrow> child \<in> set (Children (StageNode stage)) \<Longrightarrow>
   Value child = dockercmd_From \<Longrightarrow> Next child = Some nxt \<Longrightarrow>
   Value nxt \<in> snd (stagesCandidates h stages acc)"
proof (induction stages arbitrary: acc)
  case Nil
  then show ?case by simp
next
  case (Cons s stages)
  show ?case
  proof (cases "s = stage")
    case True
    have "Value nxt \<in> snd (stageCandidates h (StageName stage) (Children (StageNode stage)) acc)"
      using stageCandidates_From[OF Cons.prems(2,3,4)] .
    then show ?thesis
      using True
        stagesCandidates_mono[of "stageCandidates h (StageName stage) (Children (StageNode stage)) acc"
          h stages]
      by auto
  next
    case False
    then have "stage \<in> set stages" using Cons.prems(1) by simp
    then show ?thesis
      using Cons.IH[of "stageCandidates h (StageName s) (Children (StageNode s)) acc"]
        Cons.prems(2,3,4) by simp
  qed
qed

lemma extractAllSourceImages_multi_stage:
  "extractAllSourceImagesFromDockerfile
     (''FROM a AS builder'' @ [CHR 0x0A] @ ''FROM b'' @ [CHR 0x0A] @ ''COPY --from=builder x y'')
   = Inr {''a'', ''b''}"
  by (simp add: extractAllSourceImagesFromDockerfile_def bytes_Fields_def spaceWidth_def
      unicode_spaces_def equalFold_from_def insert_commute)

lemma extractAllSourceImages_internal:
  "extractAllSourceImagesFromDockerfile (''FROM a AS builder'' @ [CHR 0x0A] @ ''FROM builder'')
   = Inr {''a''}"
  by (simp add: extractAllSourceImagesFromDockerfile_def bytes_Fields_def spaceWidth_def
      unicode_spaces_def equalFold_from_def)
subsection \<open>Malformed FROM lines in the earlier revision\<close>

lemma bareFromLine_malformed: "bareFromLine line \<Longrightarrow> malformedFromLine line"
  by (auto simp: bareFromLine_def malformedFromLine_def split: list.splits)

lemma bareFromLine_length: "bareFromLine line \<Longrightarrow> length (bytes_Fields line) = 1"
  by (auto simp: bareFromLine_def split: list.splits)

lemma sourceImagesOfLines_malformed:
  "malformedFromLine line \<Longrightarrow>
   sourceImagesOfLines (line # rest) acc = Inl (WordCountError line (length (bytes_Fields line)))"
  by (cases acc) (auto simp: malformedFromLine_def Let_def Suc_le_eq)

lemma sourceImagesOfLines_wellformed:
  "\<not> malformedFromLine line \<Longrightarrow>
   \<exists>acc'. sourceImagesOfLines (line # rest) acc = sourceImagesOfLines rest acc'"
  by (cases acc) (auto simp: malformedFromLine_def Let_def Suc_le_eq)

lemma sourceImagesOfLines_first_malformed:
  "\<forall>l \<in> set pre. \<not> malformedFromLine l \<Longrightarrow> malformedFromLine line \<Longrightarrow>
   sourceImagesOfLines (pre @ line # post) acc
     = Inl (WordCountError line (length (bytes_Fields line)))"
proof (induction pre arbitrary: acc)
  case Nil
  then show ?case by (simp add: sourceImagesOfLines_malformed del: sourceImagesOfLines.simps)
next
  case (Cons l pre)
  then obtain acc' where
    "sourceImagesOfLines (l # pre @ line # post) acc = sourceImagesOfLines (pre @ line # post) acc'"
    using sourceImagesOfLines_wellformed[of l "pre @ line # post" acc] by auto
  then show ?case using Cons by simp
qed

lemma sourceImagesOfLines_some_malformed:
  assumes "\<exists>l \<in> set lines. malformedFromLine l"
  shows "\<exists>l. sourceImagesOfLines lines acc = Inl (WordCountError l (length (bytes_Fields l)))
            \<and> l \<in> set lines \<and> malformedFromLine l"
proof -
  from assms obtain pre l post where
    "lines = pre @ l # post" "malformedFromLine l" "\<forall>x \<in> set pre. \<not> malformedFromLine x"
    using split_list_first_prop[of lines malformedFromLine] by blast
  then show ?thesis
    using sourceImagesOfLines_first_malformed[of pre l post acc] by auto
qed

lemma ensureReplacements_old_paths:
  "ensureReplacements_old toks (img, res) = (img', r) \<Longrightarrow>
   ContextDir img' = ContextDir img \<and> DockerfilePath img' = DockerfilePath img"
proof (induction toks arbitrary: img res)
  case Nil
  then show ?case by simp
next
  case (Cons t toks)
  show ?case
  proof (cases "orgRepoTagFromPullString_old t")
    case (Inl e)
    then show ?thesis using Cons.prems by simp
  next
    case (Inr ort)
    show ?thesis
    proof (cases "hasReplacementFor img t")
      case True
      then show ?thesis using Cons.prems Inr Cons.IH[of img res] by simp
    next
      case False
      then show ?thesis
        using Cons.prems Inr
        by (auto simp: Let_def dest!: Cons.IH)
    qed
  qed
qed

lemma replaceImage_old_paths:
  assumes "replaceImage_old join getter info idx (config, s) = (e, config', s')"
  shows "dockerfilePathOf join config' j = dockerfilePathOf join config j"
proof -
  have upd: "ContextDir ((Images config)[idx := img'] ! j) = ContextDir (Images config ! j)
             \<and> DockerfilePath ((Images config)[idx := img'] ! j) = DockerfilePath (Images config ! j)"
    if "ensureReplacement_old (Images config ! idx) dat = (img', r)" for img' dat r
  proof -
    have "ContextDir img' = ContextDir (Images config ! idx)
          \<and> DockerfilePath img' = DockerfilePath (Images config ! idx)"
      using that ensureReplacements_old_paths unfolding ensureReplacement_old_def by blast
    then show ?thesis
      by (cases "j = idx"; cases "idx < length (Images config)") (auto simp: list_update_beyond)
  qed
  show ?thesis
    using assms upd
    unfolding replaceImage_old_def dockerfilePathOf_def Let_def
    by (auto split: sum.splits prod.splits)
qed

lemma replaceImage_old_malformed:
  assumes "getter (dockerfilePathOf join config idx) = Inr dat"
    and "\<exists>l \<in> set (strings_Split CHR 0x0A dat). malformedFromLine l"
  shows "fst (replaceImage_old join getter info idx (config, s)) \<noteq> None"
proof -
  obtain l where "extractAllSourceImagesFromDockerfile dat
      = Inl (WordCountError l (length (bytes_Fields l)))"
    using sourceImagesOfLines_some_malformed[OF assms(2), of "({}, {})"]
    unfolding extractAllSourceImagesFromDockerfile_def by blast
  then show ?thesis
    using assms(1)
    unfolding replaceImage_old_def dockerfilePathOf_def Let_def
    by (auto split: sum.splits prod.splits)
qed

lemma replaceImages_old_malformed:
  assumes "\<exists>l \<in> set (strings_Split CHR 0x0A dat). malformedFromLine l"
  shows "idx \<in> set idxs \<Longrightarrow> getter (dockerfilePathOf join config idx) = Inr dat \<Longrightarrow>
         fst (replaceImages_old join getter info idxs (config, s)) \<noteq> None"
proof (induction idxs arbitrary: config s)
  case Nil
  then show ?case by simp
next
  case (Cons i idxs)
  obtain e c1 s1 where step: "replaceImage_old join getter info i (config, s) = (e, c1, s1)"
    by (metis prod_cases3)
  show ?case
  proof (cases e)
    case (Some a)
    then show ?thesis using step by simp
  next
    case None
    have "i \<noteq> idx"
      using replaceImage_old_malformed[OF _ assms, of getter join config i info s] Cons.prems(2) step None
      by auto
    then have "idx \<in> set idxs" using Cons.prems(1) by simp
    moreover have "getter (dockerfilePathOf join c1 idx) = Inr dat"
      using replaceImage_old_paths[OF step] Cons.prems(2) by simp
    ultimately show ?thesis
      using Cons.IH[of c1 s1] step None by simp
  qed
qed
text \<open>
  Claim C4, as the specification states it: a FROM directive whose image expression is the name
  of an earlier stage contributes nothing to the candidates. The extractor of the current
  revision inserts the image of every FROM directive: for the Dockerfile \<open>FROM a AS builder\<close> /
  \<open>FROM builder\<close>, parsed into its two stages, the name \<open>builder\<close> is recorded by the first stage
  and is a candidate all the same.
\<close>

theorem extractReplacementCandidates_stage_name_counterexample:
  "fst (stagesCandidates spec_nodeHasFromRef
      [Stage ''builder'' (Node [] None
         [Node ''from'' (Some (Node ''a'' (Some (Node ''AS'' (Some (Node ''builder'' None [] [])) [] []))
            [] [])) [] []] [])]
      (Map.empty, {})) ''builder'' = Some ''a''
   \<and> extractReplacementCandidatesFromDockerfile
       ((example_env [] (Node [] None [] []))
          \<lparr>NewStages := (\<lambda>_. Inr
             [Stage ''builder'' (Node [] None
                [Node ''from'' (Some (Node ''a'' (Some (Node ''AS'' (Some (Node ''builder'' None [] [])) [] []))
                   [] [])) [] []] []),
              Stage ''1'' (Node [] None
                [Node ''from'' (Some (Node ''builder'' None [] [])) [] []] [])])\<rparr>)
       (''FROM a AS builder'' @ [CHR 0x0A] @ ''FROM builder'')
     = Inr {''a'', ''builder''}"
  by (simp add: extractReplacementCandidatesFromDockerfile_def example_env_def childCandidates_def
      dockercmd_From_def dockercmd_Copy_def Let_def insert_commute)

text \<open>
  Claim C4, amended: in the extractor of the current revision every FROM directive that has an
  image token records the image under the name of its stage and inserts it into the candidates,
  whatever names are recorded; a \<open>COPY --from=<ref>\<close> whose reference is a recorded stage name
  changes nothing, and one whose reference is not empty and no recorded name inserts the
  reference. The stages of \<open>FROM a AS builder\<close> / \<open>FROM b\<close> / \<open>COPY --from=builder x y\<close> yield the
  candidates a and b. The line-based extractor of the earlier revision passes over a FROM line
  whose image is a recorded alias, and yields a and b for the same Dockerfile.
\<close>

theorem extractReplacementCandidates_candidates:
  "(\<forall>stage \<in> set stages. \<forall>child \<in> set (Children (StageNode stage)). \<forall>nxt.
      Value child = dockercmd_From \<and> Next child = Some nxt
      \<longrightarrow> Value nxt \<in> snd (stagesCandidates h stages acc))
   \<and> (\<forall>name child nxt names cands.
        Value child = dockercmd_From \<and> Next child = Some nxt
        \<longrightarrow> childCandidates h name child (names, cands)
            = (names(name \<mapsto> Value nxt), insert (Value nxt) cands))
   \<and> (\<forall>name child ref ok names cands.
        Value child = dockercmd_Copy \<and> h child = (ref, ok) \<and> names ref \<noteq> None
        \<longrightarrow> childCandidates h name child (names, cands) = (names, cands))
   \<and> (\<forall>name child ref names cands.
        Value child = dockercmd_Copy \<and> h child = (ref, True) \<and> ref \<noteq> [] \<and> names ref = None
        \<longrightarrow> childCandidates h name child (names, cands) = (names, insert ref cands))
   \<and> snd (stagesCandidates spec_nodeHasFromRef
        [Stage ''builder'' (Node [] None
           [Node ''from'' (Some (Node ''a'' (Some (Node ''AS'' (Some (Node ''builder'' None [] [])) [] []))
              [] [])) [] []] []),
         Stage ''1'' (Node [] None
           [Node ''from'' (Some (Node ''b'' None [] [])) [] [],
            Node ''copy'' (Some (Node ''x'' (Some (Node ''y'' None [] [])) [] [])) []
              [''--from=builder'']] [])]
        (Map.empty, {})) = {''a'', ''b''}
   \<and> (\<forall>line w0 w1 rest aliases results.
        bytes_Fields line = [w0, w1] \<and> equalFold_from w0 \<and> w1 \<in> aliases
        \<longrightarrow> sourceImagesOfLines (line # rest) (aliases, results)
            = sourceImagesOfLines rest (aliases, results))
   \<and> extractAllSourceImagesFromDockerfile
        (''FROM a AS builder'' @ [CHR 0x0A] @ ''FROM b'' @ [CHR 0x0A] @ ''COPY --from=builder x y'')
       = Inr {''a'', ''b''}"
proof -
  have c1: "\<forall>stage \<in> set stages. \<forall>child \<in> set (Children (StageNode stage)). \<forall>nxt.
      Value child = dockercmd_From \<and> Next child = Some nxt
      \<longrightarrow> Value nxt \<in> snd (stagesCandidates h stages acc)"
    using stagesCandidates_From by blast
  have c2: "\<forall>name child nxt names cands.
        Value child = dockercmd_From \<and> Next child = Some nxt
        \<longrightarrow> childCandidates h name child (names, cands)
            = (names(name \<mapsto> Value nxt), insert (Value nxt) cands)"
    using childCandidates_From by blast
  have c3: "\<forall>name child ref ok names cands.
        Value child = dockercmd_Copy \<and> h child = (ref, ok) \<and> names ref \<noteq> None
        \<longrightarrow> childCandidates h name child (names, cands) = (names, cands)"
    by (auto simp: childCandidates_def dockercmd_From_def dockercmd_Copy_def)
  have c4: "\<forall>name child ref names cands.
        Value child = dockercmd_Copy \<and> h child = (ref, True) \<and> ref \<noteq> [] \<and> names ref = None
        \<longrightarrow> childCandidates h name child (names, cands) = (names, insert ref cands)"
    by (simp add: childCandidates_def dockercmd_From_def dockercmd_Copy_def)
  have c5: "snd (stagesCandidates spec_nodeHasFromRef
        [Stage ''builder'' (Node [] None
           [Node ''from'' (Some (Node ''a'' (Some (Node ''AS'' (Some (Node ''builder'' None [] [])) [] []))
              [] [])) [] []] []),
         Stage ''1'' (Node [] None
           [Node ''from'' (Some (Node ''b'' None [] [])) [] [],
            Node ''copy'' (Some (Node ''x'' (Some (Node ''y'' None [] [])) [] [])) []
              [''--from=builder'']] [])]
        (Map.empty, {})) = {''a'', ''b''}"
    by (simp add: childCandidates_def dockercmd_From_def dockercmd_Copy_def Let_def
        spec_nodeHasFromRef_def insert_commute)
  have c6: "\<forall>line w0 w1 rest aliases results.
        bytes_Fields line = [w0, w1] \<and> equalFold_from w0 \<and> w1 \<in> aliases
        \<longrightarrow> sourceImagesOfLines (line # rest) (aliases, results)
            = sourceImagesOfLines rest (aliases, results)"
    by (simp add: Let_def)
  show ?thesis
    by (intro conjI c1 c2 c3 c4 c5 c6 extractAllSourceImages_multi_stage)
qed

theorem extractReplacementCandidates_candidates_witness:
  "''builder'' \<in> snd (stagesCandidates spec_nodeHasFromRef
      [Stage ''builder'' (Node [] None
         [Node ''from'' (Some (Node ''a'' (Some (Node ''AS'' (Some (Node ''builder'' None [] [])) [] []))
            [] [])) [] []] []),
       Stage ''1'' (Node [] None [Node ''from'' (Some (Node ''builder'' None [] [])) [] []] [])]
      (Map.empty, {}))
   \<and> childCandidates spec_nodeHasFromRef ''1''
        (Node ''copy'' (Some (Node ''x'' (Some (Node ''y'' None [] [])) [] [])) [] [''--from=builder''])
        ([''builder'' \<mapsto> ''a''], {''a'', ''b''})
      = ([''builder'' \<mapsto> ''a''], {''a'', ''b''})
   \<and> childCandidates spec_nodeHasFromRef ''1''
        (Node ''copy'' (Some (Node ''x'' (Some (Node ''y'' None [] [])) [] [])) [] [''--from=centos:7''])
        ([''builder'' \<mapsto> ''a''], {''a'', ''b''})
      = ([''builder'' \<mapsto> ''a''], {''centos:7'', ''a'', ''b''})
   \<and> extractAllSourceImagesFromDockerfile (''FROM a AS builder'' @ [CHR 0x0A] @ ''FROM builder'')
      = Inr {''a''}"
proof -
  let ?s2 = "Stage ''1'' (Node [] None [Node ''from'' (Some (Node ''builder'' None [] [])) [] []] [])"
  let ?stages = "[Stage ''builder'' (Node [] None
         [Node ''from'' (Some (Node ''a'' (Some (Node ''AS'' (Some (Node ''builder'' None [] [])) [] []))
            [] [])) [] []] []), ?s2]"
  note t = extractReplacementCandidates_candidates[of ?stages spec_nodeHasFromRef "(Map.empty, {})"]
  have "Value (Node ''builder'' None [] [])
      \<in> snd (stagesCandidates spec_nodeHasFromRef ?stages (Map.empty, {}))"
    by (rule t[THEN conjunct1, rule_format, of ?s2
          "Node ''from'' (Some (Node ''builder'' None [] [])) [] []"])
      (simp_all add: dockercmd_From_def)
  then have a: "''builder'' \<in> snd (stagesCandidates spec_nodeHasFromRef ?stages (Map.empty, {}))"
    by simp
  have b: "childCandidates spec_nodeHasFromRef ''1''
        (Node ''copy'' (Some (Node ''x'' (Some (Node ''y'' None [] [])) [] [])) [] [''--from=builder''])
        ([''builder'' \<mapsto> ''a''], {''a'', ''b''})
      = ([''builder'' \<mapsto> ''a''], {''a'', ''b''})"
    by (simp add: childCandidates_def dockercmd_From_def dockercmd_Copy_def spec_nodeHasFromRef_def)
  have c: "childCandidates spec_nodeHasFromRef ''1''
        (Node ''copy'' (Some (Node ''x'' (Some (Node ''y'' None [] [])) [] [])) [] [''--from=centos:7''])
        ([''builder'' \<mapsto> ''a''], {''a'', ''b''})
      = ([''builder'' \<mapsto> ''a''], {''centos:7'', ''a'', ''b''})"
    by (simp add: childCandidates_def dockercmd_From_def dockercmd_Copy_def spec_nodeHasFromRef_def)
  show ?thesis
    by (intro conjI a b c extractAllSourceImages_internal)
qed
lemma replacer_old_malformed:
  assumes "idx < length (Images config)"
    and "marshal config = Inr originalConfig"
    and "githubFileGetterFactory (Org (InfoMetadata info)) (Repo (InfoMetadata info))
           (Branch (InfoMetadata info)) (dockerfilePathOf join config idx) = Inr dat"
    and "\<exists>l \<in> set (strings_Split CHR 0x0A dat). malformedFromLine l"
  shows "\<exists>err c. replacer_old join marshal githubFileGetterFactory writer config info
           = (Some err, c, [])"
proof -
  let ?g = "githubFileGetterFactory (Org (InfoMetadata info)) (Repo (InfoMetadata info))
              (Branch (InfoMetadata info))"
  obtain e c s where
    r: "replaceImages_old join ?g info [0..<length (Images config)] (config, {}) = (e, c, s)"
    by (metis prod_cases3)
  have "idx \<in> set [0..<length (Images config)]" using assms(1) by simp
  then have "fst (replaceImages_old join ?g info [0..<length (Images config)] (config, {})) \<noteq> None"
    using replaceImages_old_malformed[where getter = ?g and join = join and config = config
        and idx = idx, OF assms(4) _ assms(3)] by blast
  then obtain err where e: "e = Some err" using r by auto
  have ne: "length (Images config) \<noteq> 0" using assms(1) by auto
  show ?thesis
    unfolding replacer_old_def Let_def r e using ne assms(2) by simp
qed

text \<open>
  Claim C7, as the specification states it: for every Dockerfile with a bare FROM line candidate
  extraction fails with a parse error instead of passing over the line. The extractor of the
  current revision takes a FROM node only when a token follows it and passes over the others:
  for the Dockerfile \<open>from\<close> followed by two line feeds, whose parse tree has the one node
  \<open>from\<close> with nothing after it, it returns the empty set of candidates and no error.
\<close>

theorem extractReplacementCandidates_bare_from_counterexample:
  "extractReplacementCandidatesFromDockerfile
     (example_env [] (Node [] None [Node ''from'' None [] []] []))
     (''from'' @ [CHR 0x0A, CHR 0x0A])
   = Inr {}"
  by (simp add: extractReplacementCandidatesFromDockerfile_def example_env_def childCandidates_def
      dockercmd_From_def dockercmd_Copy_def)

text \<open>
  Claim C7, amended: in the earlier revision, for every Dockerfile with a bare FROM line the
  line-based extractor fails with the error of the first FROM line that has neither two nor
  four words, which carries that line and its number of words (neither 2 nor 4); when the bare
  FROM line is the first such line the error carries it and the number 1. The run of the
  earlier \<open>replacer\<close> on a document one of whose Dockerfiles has such a line ends with an error
  and hands nothing to the writer. In the current revision the extractor passes over a FROM node
  that no token follows, changing neither the names nor the candidates, and raises no error.
\<close>

theorem extractAllSourceImages_bare_from:
  "((\<exists>line \<in> set (strings_Split CHR 0x0A dockerfile). bareFromLine line) \<longrightarrow>
      (\<exists>l n. extractAllSourceImagesFromDockerfile dockerfile = Inl (WordCountError l n)
             \<and> l \<in> set (strings_Split CHR 0x0A dockerfile) \<and> n = length (bytes_Fields l)
             \<and> n \<noteq> 2 \<and> n \<noteq> 4))
   \<and> (\<forall>pre line post.
        strings_Split CHR 0x0A dockerfile = pre @ line # post
        \<and> (\<forall>l \<in> set pre. \<not> malformedFromLine l) \<and> bareFromLine line
        \<longrightarrow> extractAllSourceImagesFromDockerfile dockerfile = Inl (WordCountError line 1))
   \<and> (\<forall>idx join marshal githubFileGetterFactory writer config info originalConfig.
        idx < length (Images config) \<and> marshal config = Inr originalConfig
        \<and> githubFileGetterFactory (Org (InfoMetadata info)) (Repo (InfoMetadata info))
             (Branch (InfoMetadata info)) (dockerfilePathOf join config idx) = Inr dockerfile
        \<and> (\<exists>line \<in> set (strings_Split CHR 0x0A dockerfile). bareFromLine line)
        \<longrightarrow> (\<exists>err c. replacer_old join marshal githubFileGetterFactory writer config info
                       = (Some err, c, ([] :: 'b list))))
   \<and> (\<forall>h name child acc. Value child = dockercmd_From \<and> Next child = None
        \<longrightarrow> childCandidates h name child acc = acc)"
proof -
  have c1: "\<exists>l n. extractAllSourceImagesFromDockerfile dockerfile = Inl (WordCountError l n)
             \<and> l \<in> set (strings_Split CHR 0x0A dockerfile) \<and> n = length (bytes_Fields l)
             \<and> n \<noteq> 2 \<and> n \<noteq> 4"
    if "\<exists>line \<in> set (strings_Split CHR 0x0A dockerfile). bareFromLine line"
  proof -
    from that have "\<exists>l \<in> set (strings_Split CHR 0x0A dockerfile). malformedFromLine l"
      using bareFromLine_malformed by blast
    then obtain l where
      l: "extractAllSourceImagesFromDockerfile dockerfile
            = Inl (WordCountError l (length (bytes_Fields l)))"
        "l \<in> set (strings_Split CHR 0x0A dockerfile)" "malformedFromLine l"
      using sourceImagesOfLines_some_malformed[of "strings_Split CHR 0x0A dockerfile" "({}, {})"]
      unfolding extractAllSourceImagesFromDockerfile_def by blast
    from l(3) have "length (bytes_Fields l) \<noteq> 2 \<and> length (bytes_Fields l) \<noteq> 4"
      by (simp add: malformedFromLine_def Let_def)
    with l show ?thesis by blast
  qed
  have c2: "extractAllSourceImagesFromDockerfile dockerfile = Inl (WordCountError line 1)"
    if "strings_Split CHR 0x0A dockerfile = pre @ line # post"
      "\<forall>l \<in> set pre. \<not> malformedFromLine l" "bareFromLine line" for pre line post
    unfolding extractAllSourceImagesFromDockerfile_def that(1)
    using sourceImagesOfLines_first_malformed[OF that(2) bareFromLine_malformed[OF that(3)]]
      bareFromLine_length[OF that(3)]
    by simp
  have c3: "\<exists>err c. replacer_old join marshal githubFileGetterFactory writer config info
                       = (Some err, c, ([] :: 'b list))"
    if "idx < length (Images config)" "marshal config = Inr originalConfig"
      "githubFileGetterFactory (Org (InfoMetadata info)) (Repo (InfoMetadata info))
             (Branch (InfoMetadata info)) (dockerfilePathOf join config idx) = Inr dockerfile"
      "\<exists>line \<in> set (strings_Split CHR 0x0A dockerfile). bareFromLine line"
    for idx join githubFileGetterFactory config info originalConfig
      and marshal :: "ReleaseBuildConfiguration \<Rightarrow> error + 'b" and writer
  proof -
    from that(4) have "\<exists>l \<in> set (strings_Split CHR 0x0A dockerfile). malformedFromLine l"
      using bareFromLine_malformed by blast
    then show ?thesis
      using replacer_old_malformed[where githubFileGetterFactory = githubFileGetterFactory
          and info = info and join = join and config = config and idx = idx
          and marshal = marshal, OF that(1,2,3)] by blast
  qed
  have c4: "childCandidates h name child acc = acc"
    if "Value child = dockercmd_From \<and> Next child = None" for h name child acc
    using that by (simp add: childCandidates_def dockercmd_From_def dockercmd_Copy_def)
  show ?thesis
    using c1 c2 c3 c4 by blast
qed

theorem extractAllSourceImages_bare_from_witness:
  "(\<exists>line \<in> set (strings_Split CHR 0x0A (''from'' @ [CHR 0x0A, CHR 0x0A])). bareFromLine line)
   \<and> extractAllSourceImagesFromDockerfile (''from'' @ [CHR 0x0A, CHR 0x0A])
       = Inl (WordCountError ''from'' 1)
   \<and> (\<exists>err c. replacer_old simple_Join Inr (\<lambda>_ _ _ _. Inr (''from'' @ [CHR 0x0A, CHR 0x0A]))
         (\<lambda>_. None)
         \<lparr>Images = [\<lparr>From = [], To = ''out'', ContextDir = [], DockerfilePath = [], Inputs = []\<rparr>],
          BaseImages = [], Metadata = \<lparr>Org = ''o'', Repo = ''r'', Branch = ''master''\<rparr>\<rparr>
         \<lparr>InfoMetadata = \<lparr>Org = ''o'', Repo = ''r'', Branch = ''master''\<rparr>, Filename = ''f.yaml''\<rparr>
       = (Some err, c, []))
   \<and> childCandidates spec_nodeHasFromRef ''0'' (Node ''from'' None [] []) (Map.empty, {})
       = (Map.empty, {})"
proof -
  let ?df = "''from'' @ [CHR 0x0A, CHR 0x0A]"
  let ?config = "\<lparr>Images = [\<lparr>From = [], To = ''out'', ContextDir = [], DockerfilePath = [],
                               Inputs = []\<rparr>],
          BaseImages = [], Metadata = \<lparr>Org = ''o'', Repo = ''r'', Branch = ''master''\<rparr>\<rparr>"
  let ?info = "\<lparr>InfoMetadata = \<lparr>Org = ''o'', Repo = ''r'', Branch = ''master''\<rparr>,
                 Filename = ''f.yaml''\<rparr>"
  let ?f = "\<lambda>(_::string) (_::string) (_::string) (_::string). (Inr ?df :: error + string)"
  note t = extractAllSourceImages_bare_from[of ?df]
  have bare: "bareFromLine ''from''"
    by (simp add: bareFromLine_def bytes_Fields_def spaceWidth_def unicode_spaces_def
        equalFold_from_def)
  have split: "strings_Split CHR 0x0A ?df = [] @ ''from'' # [[], []]"
    by simp
  have ex: "\<exists>line \<in> set (strings_Split CHR 0x0A ?df). bareFromLine line"
    using bare by simp
  have a: "extractAllSourceImagesFromDockerfile ?df = Inl (WordCountError ''from'' 1)"
    using t[THEN conjunct2, THEN conjunct1, rule_format, of "[]" "''from''" "[[], []]"] split bare
    by simp
  have b: "\<exists>err c. replacer_old simple_Join Inr ?f (\<lambda>_. None) ?config ?info = (Some err, c, [])"
    by (rule t[THEN conjunct2, THEN conjunct2, THEN conjunct1, rule_format,
          of 0 ?config Inr ?config ?f ?info simple_Join "\<lambda>_. None"])
      (use ex in simp)
  have c: "childCandidates spec_nodeHasFromRef ''0'' (Node ''from'' None [] []) (Map.empty, {})
       = (Map.empty, {})"
    by (rule t[THEN conjunct2, THEN conjunct2, THEN conjunct2, rule_format])
      (simp add: dockercmd_From_def)
  show ?thesis
    by (intro conjI ex a b c)
qed

subsection \<open>One write, and none on a second run without pruning\<close>

lemma writeIfChanged_writes:
  "writeIfChanged E writer info originalConfig config = (err, c', ws) \<Longrightarrow>
   c' = config \<and> length ws \<le> 1
   \<and> (\<forall>b \<in> set ws. yaml_Marshal E config = Inr b \<and> originalConfig \<noteq> b)
   \<and> (err = None \<longrightarrow> (\<exists>b. yaml_Marshal E config = Inr b
                          \<and> ws = (if originalConfig = b then [] else [b])))"
  unfolding writeIfChanged_def
  by (cases "yaml_Marshal E config") (auto split: if_splits option.splits)

lemma replacer_cases:
  assumes "replacer E f w pU pO eC m mm config info = (err, c', ws)"
  shows "ws = [] \<and> (err \<noteq> None \<or> Images config = [] \<and> c' = config)
       \<or> (\<exists>originalConfig. yaml_Marshal E config = Inr originalConfig
             \<and> writeIfChanged E w info originalConfig c' = (err, c', ws))"
proof (cases "length (Images config) = 0")
  case True
  then show ?thesis using assms by (simp add: replacer_def)
next
  case False
  show ?thesis
  proof (cases "yaml_Marshal E config")
    case (Inl e)
    then have "replacer E f w pU pO eC m mm config info
                 = (Some (Wrapped ''failed to marshal config for comparison'' e), config, [])"
      using False by (simp add: replacer_def)
    with assms have "err = Some (Wrapped ''failed to marshal config for comparison'' e)" "ws = []"
      by simp_all
    then show ?thesis by simp
  next
    case (Inr originalConfig)
    define config1 where "config1 =
      (if eC then updateDockerfilesToMatchOCPBuildData E config m mm else config)"
    define g where "g = f (Org (InfoMetadata info)) (Repo (InfoMetadata info))
                          (Branch (InfoMetadata info))"
    obtain e1 c2 cands h where
      r: "replaceImages E g [0..<length (Images config1)] (config1, {}, False) = (e1, c2, cands, h)"
      by (cases "replaceImages E g [0..<length (Images config1)] (config1, {}, False)") auto
    obtain c3 e3 where p1: "pruneUnusedPhase pU h c2 cands = (c3, e3)"
      by (cases "pruneUnusedPhase pU h c2 cands") auto
    obtain c4 e4 where p2: "pruneOCPBuilderPhase pO c3 = (c4, e4)"
      by (cases "pruneOCPBuilderPhase pO c3") auto
    have run: "replacer E f w pU pO eC m mm config info =
      (case e1 of
         Some err \<Rightarrow> (Some err, c2, [])
       | None \<Rightarrow> (case e3 of
           Some err \<Rightarrow> (Some err, c3, [])
         | None \<Rightarrow> (case e4 of
             Some err \<Rightarrow> (Some err, c4, [])
           | None \<Rightarrow> writeIfChanged E w info originalConfig c4)))"
      apply (unfold replacer_def Let_def)
      apply (fold config1_def g_def)
      apply (simp only: r False Inr if_False sum.case)
      apply (cases e1; cases e3; cases e4; simp only: option.case prod.case p1 p2)
      done
    note res = assms[unfolded run]
    show ?thesis
    proof (cases e1)
      case (Some a)
      with res have "err = Some a" "ws = []" by simp_all
      then show ?thesis by simp
    next
      case None
      note e1 = this
      show ?thesis
      proof (cases e3)
        case (Some a)
        with res e1 have "err = Some a" "ws = []" by simp_all
        then show ?thesis by simp
      next
        case None
        note e3 = this
        show ?thesis
        proof (cases e4)
          case (Some a)
          with res e1 e3 have "err = Some a" "ws = []" by simp_all
          then show ?thesis by simp
        next
          case None
          with res e1 e3 have w: "writeIfChanged E w info originalConfig c4 = (err, c', ws)"
            by simp
          have "c' = c4" using writeIfChanged_writes[OF w] by simp
          then show ?thesis using w Inr by simp
        qed
      qed
    qed
  qed
qed
lemma set_sets_NewString_List: "set (sets_NewString_List xs) = set xs"
  by (simp add: sets_NewString_List_def)

lemma list_ex_map_set_keep:
  "list_ex P m \<Longrightarrow> (\<forall>v. map_get m k = Some v \<longrightarrow> P (k, v) \<longrightarrow> P (k, v')) \<Longrightarrow>
   list_ex P (map_set m k v')"
proof (induction m)
  case Nil
  then show ?case by simp
next
  case (Cons kv m)
  obtain k0 v0 where kv: "kv = (k0, v0)" by (cases kv)
  show ?case
  proof (cases "k0 = k")
    case True
    then show ?thesis using Cons.prems kv by (auto simp: map_get_def)
  next
    case False
    then show ?thesis using Cons kv by (auto simp: map_get_def)
  qed
qed

lemma map_set_mem: "(k, v) \<in> set (map_set m k v)"
  by (induction m) auto

lemma hasReplacementFor_kept:
  assumes "hasReplacementFor img t"
    and "\<forall>r. map_get (Inputs img) k = Some r \<longrightarrow> set (As r) \<subseteq> set (As r')"
  shows "hasReplacementFor (img\<lparr>Inputs := map_set (Inputs img) k r'\<rparr>) t"
  using assms list_ex_map_set_keep[of "\<lambda>input. t \<in> set (As (snd input))" "Inputs img" k r']
  by (auto simp: hasReplacementFor_def)

lemma hasReplacementFor_inserted:
  "t \<in> set (As r') \<Longrightarrow> hasReplacementFor (img\<lparr>Inputs := map_set (Inputs img) k r'\<rparr>) t"
  using map_set_mem[of k r' "Inputs img"] by (force simp: hasReplacementFor_def list_ex_iff)

text \<open>One step of the second loop of the synthesizer, for a pull string that parses and has no
  replacement yet.\<close>

lemma ensureReplacements_step:
  assumes "orgRepoTagFromPullString t = Inr ort" "\<not> hasReplacementFor img t"
  shows "\<exists>img1. ensureReplacements (t # toks) (img, res) = ensureReplacements toks (img1, res @ [ort])
           \<and> sameBuild img img1 \<and> hasReplacementFor img1 t
           \<and> (\<forall>u. hasReplacementFor img u \<longrightarrow> hasReplacementFor img1 u)"
proof -
  define inputs where "inputs = (case map_get (Inputs img) (String ort) of
                                   None \<Rightarrow> \<lparr>As = [], Paths = []\<rparr> | Some i \<Rightarrow> i)"
  define inputs' where "inputs' = inputs\<lparr>As := sets_NewString_List (As inputs @ [t])\<rparr>"
  define img1 where "img1 = img\<lparr>Inputs := map_set (Inputs img) (String ort) inputs'\<rparr>"
  have step: "ensureReplacements (t # toks) (img, res) = ensureReplacements toks (img1, res @ [ort])"
    using assms by (simp add: Let_def img1_def inputs'_def inputs_def)
  have same: "sameBuild img img1" by (simp add: sameBuild_def img1_def)
  have t: "t \<in> set (As inputs')" by (simp add: inputs'_def set_sets_NewString_List)
  have has: "hasReplacementFor img1 t"
    unfolding img1_def using hasReplacementFor_inserted[OF t] .
  have sub: "\<forall>r. map_get (Inputs img) (String ort) = Some r \<longrightarrow> set (As r) \<subseteq> set (As inputs')"
    by (auto simp: inputs'_def inputs_def set_sets_NewString_List)
  have mono: "hasReplacementFor img1 u" if "hasReplacementFor img u" for u
    unfolding img1_def using hasReplacementFor_kept[OF that sub] .
  show ?thesis using step same has mono by blast
qed

lemma sameBuild_refl: "sameBuild a a"
  by (simp add: sameBuild_def)

lemma sameBuild_trans: "sameBuild a b \<Longrightarrow> sameBuild b c \<Longrightarrow> sameBuild a c"
  by (simp add: sameBuild_def)

lemma ensureReplacements_saturates:
  "ensureReplacements toks (img, res) = (img', r) \<Longrightarrow>
   sameBuild img img'
   \<and> (\<forall>u. hasReplacementFor img u \<longrightarrow> hasReplacementFor img' u)
   \<and> (\<forall>res'. r = Inr res' \<longrightarrow> list_all (hasReplacementFor img') toks)"
proof (induction toks arbitrary: img res)
  case Nil
  then show ?case by (simp add: sameBuild_refl)
next
  case (Cons t toks)
  show ?case
  proof (cases "orgRepoTagFromPullString t")
    case (Inl e)
    then show ?thesis using Cons.prems by (auto simp: sameBuild_refl)
  next
    case (Inr ort)
    show ?thesis
    proof (cases "hasReplacementFor img t")
      case True
      then have "ensureReplacements toks (img, res) = (img', r)"
        using Cons.prems Inr by simp
      from Cons.IH[OF this] True show ?thesis by simp
    next
      case False
      from ensureReplacements_step[OF Inr False, of toks res] obtain img1 where
        s: "ensureReplacements (t # toks) (img, res) = ensureReplacements toks (img1, res @ [ort])"
        and b: "sameBuild img img1" and h: "hasReplacementFor img1 t"
        and m: "\<forall>u. hasReplacementFor img u \<longrightarrow> hasReplacementFor img1 u"
        by blast
      have "ensureReplacements toks (img1, res @ [ort]) = (img', r)"
        using Cons.prems s by simp
      from Cons.IH[OF this] b h m show ?thesis
        using sameBuild_trans by auto
    qed
  qed
qed

lemma ensureReplacements_saturated:
  "list_all (hasReplacementFor img) toks \<Longrightarrow>
   ensureReplacements toks (img, res) = (img', r) \<Longrightarrow> img' = img \<and> (r = Inr res \<or> (\<exists>e. r = Inl e))"
proof (induction toks)
  case Nil
  then show ?case by simp
next
  case (Cons t toks)
  then show ?case
    by (cases "orgRepoTagFromPullString t") auto
qed

lemma simulatedDockerfile_sameBuild:
  assumes "sameBuild a b"
  shows "simulatedDockerfile E g a = simulatedDockerfile E g b"
proof -
  from assms have f: "From a = From b" and c: "ContextDir a = ContextDir b"
    and d: "DockerfilePath a = DockerfilePath b"
    by (simp_all add: sameBuild_def)
  show ?thesis
    unfolding simulatedDockerfile_def applyReplacementsToDockerfile_def f c d ..
qed

lemma replaceImage_success:
  assumes "replaceImage E g idx (c, cs, h) = (None, c', cs', h')"
  shows "\<exists>img'. Images c' = (Images c)[idx := img'] \<and> Metadata c' = Metadata c
               \<and> sameBuild (Images c ! idx) img' \<and> saturated E g img'"
proof -
  let ?img = "Images c ! idx"
  let ?path = "filepath_Join E (ContextDir ?img)
                 (if DockerfilePath ?img \<noteq> [] then DockerfilePath ?img else ''Dockerfile'')"
  obtain fetched where f: "g ?path = Inr fetched"
    using assms by (cases "g ?path") (simp_all add: replaceImage_def Let_def)
  obtain dockerfile where d: "applyReplacementsToDockerfile E fetched ?img = Inr dockerfile"
    using assms f
    by (cases "applyReplacementsToDockerfile E fetched ?img") (simp_all add: replaceImage_def Let_def)
  obtain img' r where e: "ensureReplacement ?img dockerfile = (img', r)"
    by (cases "ensureReplacement ?img dockerfile") auto
  obtain foundTags where r: "r = Inr foundTags"
    using assms f d e by (cases r) (simp_all add: replaceImage_def Let_def)
  have c': "c' = c\<lparr>Images := (Images c)[idx := img'],
                    BaseImages := ensureBaseImages foundTags (BaseImages c)\<rparr>"
    using assms f d e r
    by (cases "extractReplacementCandidatesFromDockerfile E dockerfile")
      (simp_all add: replaceImage_def Let_def)
  from e have sat: "sameBuild ?img img'
      \<and> list_all (hasReplacementFor img') (linesToReplace (strings_Split CHR 0x0A dockerfile) [])"
    using ensureReplacements_saturates[of "linesToReplace (strings_Split CHR 0x0A dockerfile) []"
        ?img "[]" img' r] r
    by (simp add: ensureReplacement_def)
  have "simulatedDockerfile E g img' = Inr dockerfile"
    using simulatedDockerfile_sameBuild[of ?img img' E g] sat f d
    by (simp add: simulatedDockerfile_def)
  then have "saturated E g img'" using sat by (simp add: saturated_def)
  then show ?thesis using c' sat by auto
qed

lemma replaceImage_saturated:
  assumes "saturated E g (Images c ! idx)"
    and "replaceImage E g idx (c, cs, h) = (e, c', cs', h')"
  shows "c' = c"
proof -
  let ?img = "Images c ! idx"
  let ?path = "filepath_Join E (ContextDir ?img)
                 (if DockerfilePath ?img \<noteq> [] then DockerfilePath ?img else ''Dockerfile'')"
  show ?thesis
  proof (cases "g ?path")
    case (Inl err)
    then show ?thesis using assms(2) by (simp add: replaceImage_def Let_def)
  next
    case (Inr fetched)
    note f = this
    show ?thesis
    proof (cases "applyReplacementsToDockerfile E fetched ?img")
      case (Inl err)
      then show ?thesis using assms(2) f by (simp add: replaceImage_def Let_def)
    next
      case (Inr dockerfile)
      note d = this
      have "simulatedDockerfile E g ?img = Inr dockerfile"
        using f d by (simp add: simulatedDockerfile_def)
      then have all: "list_all (hasReplacementFor ?img)
                        (linesToReplace (strings_Split CHR 0x0A dockerfile) [])"
        using assms(1) by (simp add: saturated_def)
      obtain img' r where e: "ensureReplacement ?img dockerfile = (img', r)"
        by (cases "ensureReplacement ?img dockerfile") auto
      from ensureReplacements_saturated[OF all, of "[]" img' r] e
      have img': "img' = ?img" and r: "r = Inr [] \<or> (\<exists>err. r = Inl err)"
        by (simp_all add: ensureReplacement_def)
      have same: "c\<lparr>Images := (Images c)[idx := ?img]\<rparr> = c" by simp
      show ?thesis
      proof (cases r)
        case (Inl err)
        then show ?thesis
          using assms(2) f d e img' same by (simp add: replaceImage_def Let_def)
      next
        case (Inr foundTags)
        then have "foundTags = []" using r by auto
        then show ?thesis
          using assms(2) f d e img' same Inr
          by (cases "extractReplacementCandidatesFromDockerfile E dockerfile")
            (simp_all add: replaceImage_def Let_def)
      qed
    qed
  qed
qed

lemma replaceImages_success:
  "replaceImages E g idxs (c, cs, h) = (None, c', cs', h') \<Longrightarrow> distinct idxs \<Longrightarrow>
   \<forall>i \<in> set idxs. i < length (Images c) \<Longrightarrow>
   length (Images c') = length (Images c) \<and> Metadata c' = Metadata c
   \<and> (\<forall>i < length (Images c). sameBuild (Images c ! i) (Images c' ! i)
          \<and> (i \<in> set idxs \<longrightarrow> saturated E g (Images c' ! i))
          \<and> (i \<notin> set idxs \<longrightarrow> Images c' ! i = Images c ! i))"
proof (induction idxs arbitrary: c cs h)
  case Nil
  then show ?case by (simp add: sameBuild_refl)
next
  case (Cons idx idxs)
  obtain e c1 cs1 h1 where step: "replaceImage E g idx (c, cs, h) = (e, c1, cs1, h1)"
    by (cases "replaceImage E g idx (c, cs, h)") auto
  have e: "e = None" using Cons.prems(1) step by (cases e) simp_all
  have rest: "replaceImages E g idxs (c1, cs1, h1) = (None, c', cs', h')"
    using Cons.prems(1) step e by simp
  from replaceImage_success[OF step[unfolded e]] obtain img' where
    im: "Images c1 = (Images c)[idx := img']" and md: "Metadata c1 = Metadata c"
    and sb: "sameBuild (Images c ! idx) img'" and sat: "saturated E g img'"
    by blast
  have len: "length (Images c1) = length (Images c)" using im by simp
  have d: "distinct idxs" and ni: "idx \<notin> set idxs" using Cons.prems(2) by simp_all
  have b: "\<forall>i \<in> set idxs. i < length (Images c1)" using Cons.prems(3) len by simp
  note ih = Cons.IH[OF rest d b]
  have idx: "idx < length (Images c)" using Cons.prems(3) by simp
  show ?case
  proof (intro conjI allI impI)
    show "length (Images c') = length (Images c)" using ih len by simp
    show "Metadata c' = Metadata c" using ih md by simp
  next
    fix i assume i: "i < length (Images c)"
    then have i1: "i < length (Images c1)" using len by simp
    have c1i: "Images c1 ! i = (if i = idx then img' else Images c ! i)"
      using im i by (simp add: nth_list_update)
    show "sameBuild (Images c ! i) (Images c' ! i)"
      using ih i1 c1i sb sameBuild_trans by (cases "i = idx") auto
    show "saturated E g (Images c' ! i)" if "i \<in> set (idx # idxs)"
      using ih i1 c1i sat ni that by (cases "i = idx") auto
    show "Images c' ! i = Images c ! i" if "i \<notin> set (idx # idxs)"
      using ih i1 c1i that by auto
  qed
qed

lemma replaceImages_saturated:
  "\<forall>i \<in> set idxs. saturated E g (Images c ! i) \<Longrightarrow>
   replaceImages E g idxs (c, cs, h) = (e, c', cs', h') \<Longrightarrow> c' = c"
proof (induction idxs arbitrary: cs h)
  case Nil
  then show ?case by simp
next
  case (Cons idx idxs)
  obtain e1 c1 cs1 h1 where step: "replaceImage E g idx (c, cs, h) = (e1, c1, cs1, h1)"
    by (cases "replaceImage E g idx (c, cs, h)") auto
  have c1: "c1 = c" using replaceImage_saturated[OF _ step] Cons.prems(1) by simp
  show ?case
  proof (cases e1)
    case None
    then have "replaceImages E g idxs (c, cs1, h1) = (e, c', cs', h')"
      using Cons.prems(2) step c1 by simp
    then show ?thesis using Cons.IH Cons.prems(1) by simp
  next
    case (Some a)
    then show ?thesis using Cons.prems(2) step c1 by simp
  qed
qed
lemma updateDockerfile_stable:
  assumes "sameBuild (updateDockerfile E pt m img) img2"
  shows "updateDockerfile E pt m img2 = img2"
proof (cases "map_get pt (To img)")
  case None
  then have "To img2 = To img" using assms by (simp add: updateDockerfile_def sameBuild_def)
  then show ?thesis using None by (simp add: updateDockerfile_def)
next
  case (Some promotionTarget)
  let ?s = "''registry.svc.ci.openshift.org/'' @ Namespace promotionTarget @ ''/''
              @ Name promotionTarget @ '':'' @ To img"
  show ?thesis
  proof (cases "m ?s")
    case None
    then have "updateDockerfile E pt m img = img"
      using Some by (simp add: updateDockerfile_def Let_def)
    then have "To img2 = To img" using assms by (simp add: sameBuild_def)
    then show ?thesis using Some None by (simp add: updateDockerfile_def Let_def)
  next
    case (Some p)
    note mp = this
    let ?actual = "filepath_Join E (ContextDir img)
                     (if DockerfilePath img \<noteq> [] then DockerfilePath img else ''Dockerfile'')"
    show ?thesis
    proof (cases "p \<noteq> ?actual")
      case True
      then have "updateDockerfile E pt m img = img\<lparr>ContextDir := [], DockerfilePath := p\<rparr>"
        using \<open>map_get pt (To img) = Some promotionTarget\<close> mp
        by (simp add: updateDockerfile_def Let_def)
      then have f: "To img2 = To img" "ContextDir img2 = []" "DockerfilePath img2 = p"
        using assms by (simp_all add: sameBuild_def)
      then have "img2\<lparr>ContextDir := [], DockerfilePath := p\<rparr> = img2" by simp
      then show ?thesis
        using \<open>map_get pt (To img) = Some promotionTarget\<close> mp f
        by (simp add: updateDockerfile_def Let_def)
    next
      case False
      then have "updateDockerfile E pt m img = img"
        using \<open>map_get pt (To img) = Some promotionTarget\<close> mp
        by (simp add: updateDockerfile_def Let_def)
      then have "To img2 = To img" "ContextDir img2 = ContextDir img"
        "DockerfilePath img2 = DockerfilePath img"
        using assms by (simp_all add: sameBuild_def)
      then show ?thesis
        using \<open>map_get pt (To img) = Some promotionTarget\<close> mp False
        by (simp add: updateDockerfile_def Let_def)
    qed
  qed
qed

lemma updateDockerfilesToMatchOCPBuildData_stable:
  assumes "length (Images c2) = length (Images c)"
    and "\<forall>i < length (Images c).
           sameBuild (Images (updateDockerfilesToMatchOCPBuildData E c m mm) ! i) (Images c2 ! i)"
    and "Metadata c2 = Metadata c"
    and "PromotedTags E c2 = PromotedTags E c"
  shows "updateDockerfilesToMatchOCPBuildData E c2 m mm = c2"
proof (cases "Branch (Metadata c) = ''master''")
  case False
  then show ?thesis using assms(3) by (simp add: updateDockerfilesToMatchOCPBuildData_def)
next
  case True
  let ?pt = "promotedTagsByTag mm (PromotedTags E c) []"
  have c1: "Images (updateDockerfilesToMatchOCPBuildData E c m mm)
              = map (updateDockerfile E ?pt m) (Images c)"
    by (simp add: updateDockerfilesToMatchOCPBuildData_master[OF True])
  have "map (updateDockerfile E ?pt m) (Images c2) = Images c2"
  proof (rule nth_equalityI)
    show "length (map (updateDockerfile E ?pt m) (Images c2)) = length (Images c2)" by simp
  next
    fix i assume "i < length (map (updateDockerfile E ?pt m) (Images c2))"
    then have i: "i < length (Images c)" using assms(1) by simp
    then have "sameBuild (updateDockerfile E ?pt m (Images c ! i)) (Images c2 ! i)"
      using assms(2) c1 by simp
    then have "updateDockerfile E ?pt m (Images c2 ! i) = Images c2 ! i"
      by (rule updateDockerfile_stable)
    then show "map (updateDockerfile E ?pt m) (Images c2) ! i = Images c2 ! i"
      using i assms(1) by simp
  qed
  moreover have "Branch (Metadata c2) = ''master''" using True assms(3) by simp
  ultimately show ?thesis
    by (simp add: updateDockerfilesToMatchOCPBuildData_master[of c2 E m mm] assms(4))
qed

lemma pruning_disabled:
  "pruneUnusedPhase False h c cands = (c, None)" "pruneOCPBuilderPhase False c = (c, None)"
  by (simp_all add: pruneUnusedPhase_def pruneOCPBuilderPhase_def)

text \<open>The run without pruning: the document is reconciled, the loop runs, and the result is
  written when it differs.\<close>

lemma replacer_without_pruning:
  assumes "Images c \<noteq> []" "yaml_Marshal E c = Inr originalConfig"
    and "replaceImages E (f (Org (InfoMetadata info)) (Repo (InfoMetadata info))
             (Branch (InfoMetadata info)))
           [0..<length (Images (if eC then updateDockerfilesToMatchOCPBuildData E c m mm else c))]
           (if eC then updateDockerfilesToMatchOCPBuildData E c m mm else c, {}, False)
         = (e, c2, cands, h)"
  shows "replacer E f w False False eC m mm c info =
           (case e of Some err \<Rightarrow> (Some err, c2, [])
            | None \<Rightarrow> writeIfChanged E w info originalConfig c2)"
  apply (unfold replacer_def Let_def)
  apply (simp only: assms(3) assms(2) sum.case)
  apply (cases e; simp add: assms(1) pruning_disabled)
  done

lemma updateDockerfilesToMatchOCPBuildData_frame:
  "length (Images (updateDockerfilesToMatchOCPBuildData E c m mm)) = length (Images c)"
  "Metadata (updateDockerfilesToMatchOCPBuildData E c m mm) = Metadata c"
  by (simp_all add: updateDockerfilesToMatchOCPBuildData_def Let_def)

lemma replacer_second_run_no_write:
  assumes run1: "replacer E f w False False eC m mm c info = (None, c', ws)"
    and pt: "eC \<longrightarrow> PromotedTags E c' = PromotedTags E c"
  shows "snd (snd (replacer E f w False False eC m mm c' info)) = []"
proof (cases "Images c = []")
  case True
  then have "replacer E f w False False eC m mm c info = (None, c, [])"
    by (simp add: replacer_def)
  then have "c' = c" using run1 by simp
  then show ?thesis using True by (simp add: replacer_def)
next
  case False
  define g where "g = f (Org (InfoMetadata info)) (Repo (InfoMetadata info))
                        (Branch (InfoMetadata info))"
  define c1 where "c1 = (if eC then updateDockerfilesToMatchOCPBuildData E c m mm else c)"
  have len1: "length (Images c1) = length (Images c)" and md1: "Metadata c1 = Metadata c"
    by (simp_all add: c1_def updateDockerfilesToMatchOCPBuildData_frame)
  obtain originalConfig where o: "yaml_Marshal E c = Inr originalConfig"
    using run1 False by (cases "yaml_Marshal E c") (simp_all add: replacer_def)
  obtain e c2 cands h where
    loop: "replaceImages E g [0..<length (Images c1)] (c1, {}, False) = (e, c2, cands, h)"
    by (cases "replaceImages E g [0..<length (Images c1)] (c1, {}, False)") auto
  have r1: "replacer E f w False False eC m mm c info =
              (case e of Some err \<Rightarrow> (Some err, c2, [])
               | None \<Rightarrow> writeIfChanged E w info originalConfig c2)"
    using replacer_without_pruning[where f = f and info = info and eC = eC and m = m and mm = mm
        and c = c and E = E, OF False o loop[unfolded g_def c1_def]] .
  have e: "e = None" using run1 r1 by (cases e) simp_all
  have w1: "writeIfChanged E w info originalConfig c2 = (None, c', ws)"
    using run1 r1 e by simp
  from writeIfChanged_writes[OF w1] obtain b where
    c': "c' = c2" and b: "yaml_Marshal E c2 = Inr b"
    by auto
  have inv: "length (Images c2) = length (Images c1) \<and> Metadata c2 = Metadata c1
      \<and> (\<forall>i < length (Images c1). sameBuild (Images c1 ! i) (Images c2 ! i)
            \<and> (i \<in> set [0..<length (Images c1)] \<longrightarrow> saturated E g (Images c2 ! i))
            \<and> (i \<notin> set [0..<length (Images c1)] \<longrightarrow> Images c2 ! i = Images c1 ! i))"
    using replaceImages_success[OF loop[unfolded e]] by simp
  then have len2: "length (Images c2) = length (Images c)" and md2: "Metadata c2 = Metadata c"
    and same: "\<forall>i < length (Images c). sameBuild (Images c1 ! i) (Images c2 ! i)"
    and sat: "\<forall>i < length (Images c2). saturated E g (Images c2 ! i)"
    using len1 md1 by simp_all
  have ne2: "Images c2 \<noteq> []" using False len2 by auto
  have stable: "(if eC then updateDockerfilesToMatchOCPBuildData E c2 m mm else c2) = c2"
  proof (cases eC)
    case True
    then have "PromotedTags E c2 = PromotedTags E c" using pt c' by simp
    moreover have "\<forall>i < length (Images c).
        sameBuild (Images (updateDockerfilesToMatchOCPBuildData E c m mm) ! i) (Images c2 ! i)"
      using same True by (simp add: c1_def)
    ultimately show ?thesis
      using updateDockerfilesToMatchOCPBuildData_stable[OF len2 _ md2] True by simp
  next
    case False
    then show ?thesis by simp
  qed
  obtain e2 c3 cands2 h2 where
    loop2: "replaceImages E g [0..<length (Images c2)] (c2, {}, False) = (e2, c3, cands2, h2)"
    by (cases "replaceImages E g [0..<length (Images c2)] (c2, {}, False)") auto
  have c3: "c3 = c2"
    using replaceImages_saturated[OF _ loop2] sat by simp
  have loop2': "replaceImages E (f (Org (InfoMetadata info)) (Repo (InfoMetadata info))
             (Branch (InfoMetadata info)))
           [0..<length (Images (if eC then updateDockerfilesToMatchOCPBuildData E c2 m mm else c2))]
           (if eC then updateDockerfilesToMatchOCPBuildData E c2 m mm else c2, {}, False)
         = (e2, c2, cands2, h2)"
    unfolding stable using loop2 c3 by (simp add: g_def)
  have r2: "replacer E f w False False eC m mm c2 info =
              (case e2 of Some err \<Rightarrow> (Some err, c2, [])
               | None \<Rightarrow> writeIfChanged E w info b c2)"
    using replacer_without_pruning[where f = f and info = info and eC = eC and m = m and mm = mm
        and c = c2 and E = E, OF ne2 b loop2'] .
  have "writeIfChanged E w info b c2 = (None, c2, [])"
    using b by (simp add: writeIfChanged_def)
  then show ?thesis
    using r2 c' by (cases e2) simp_all
qed
text \<open>
  Claim C2, as the specification states it: running the full pipeline twice on the same inputs
  produces no write on the second run. With the disallowed-namespace pruning enabled, a document
  whose image has the replacement \<open>registry.svc.ci.openshift.org/ocp/builder:golang-1.13\<close> under
  the key \<open>myalias\<close>, bound in the Base-Image Table to another tag, is written by the first run
  without that replacement and written again by the second run, which synthesizes the
  replacement under its canonical key and keeps it. With the unused-replacement pruning
  enabled, the first run drops an image without inputs, \<open>From\<close> and \<open>To\<close> whose Dockerfile held
  the only candidate \<open>x\<close>, and the second run then prunes the replacement \<open>x\<close> of the other
  image and writes again.
\<close>

theorem replacer_second_run_writes_counterexample:
  "replacer
     (example_env [] (Node [] None
        [Node ''from'' (Some (Node ''registry.svc.ci.openshift.org/ocp/builder:golang-1.13'' None [] []))
           [] []] []))
     (\<lambda>_ _ _ _. Inr ''FROM registry.svc.ci.openshift.org/ocp/builder:golang-1.13'') (\<lambda>_. None)
     False True False Map.empty ''4.6''
     \<lparr>Images = [\<lparr>From = [], To = ''out'', ContextDir = [], DockerfilePath = [],
                 Inputs = [(''myalias'',
                   \<lparr>As = [''registry.svc.ci.openshift.org/ocp/builder:golang-1.13''], Paths = []\<rparr>)]\<rparr>],
      BaseImages = [(''myalias'', \<lparr>Namespace = ''ocp'', Name = ''4.6'', Tag = ''base''\<rparr>)],
      Metadata = \<lparr>Org = ''o'', Repo = ''r'', Branch = ''master''\<rparr>\<rparr>
     \<lparr>InfoMetadata = \<lparr>Org = ''o'', Repo = ''r'', Branch = ''master''\<rparr>, Filename = ''f.yaml''\<rparr>
   = (None,
      \<lparr>Images = [\<lparr>From = [], To = ''out'', ContextDir = [], DockerfilePath = [], Inputs = []\<rparr>],
       BaseImages = [(''myalias'', \<lparr>Namespace = ''ocp'', Name = ''4.6'', Tag = ''base''\<rparr>)],
       Metadata = \<lparr>Org = ''o'', Repo = ''r'', Branch = ''master''\<rparr>\<rparr>,
      [\<lparr>Images = [\<lparr>From = [], To = ''out'', ContextDir = [], DockerfilePath = [], Inputs = []\<rparr>],
        BaseImages = [(''myalias'', \<lparr>Namespace = ''ocp'', Name = ''4.6'', Tag = ''base''\<rparr>)],
        Metadata = \<lparr>Org = ''o'', Repo = ''r'', Branch = ''master''\<rparr>\<rparr>])
   \<and> snd (snd (replacer
     (example_env [] (Node [] None
        [Node ''from'' (Some (Node ''registry.svc.ci.openshift.org/ocp/builder:golang-1.13'' None [] []))
           [] []] []))
     (\<lambda>_ _ _ _. Inr ''FROM registry.svc.ci.openshift.org/ocp/builder:golang-1.13'') (\<lambda>_. None)
     False True False Map.empty ''4.6''
     \<lparr>Images = [\<lparr>From = [], To = ''out'', ContextDir = [], DockerfilePath = [], Inputs = []\<rparr>],
      BaseImages = [(''myalias'', \<lparr>Namespace = ''ocp'', Name = ''4.6'', Tag = ''base''\<rparr>)],
      Metadata = \<lparr>Org = ''o'', Repo = ''r'', Branch = ''master''\<rparr>\<rparr>
     \<lparr>InfoMetadata = \<lparr>Org = ''o'', Repo = ''r'', Branch = ''master''\<rparr>, Filename = ''f.yaml''\<rparr>))
   = [\<lparr>Images = [\<lparr>From = [], To = ''out'', ContextDir = [], DockerfilePath = [],
        Inputs = [(''ocp_builder_golang-1.13'',
                   \<lparr>As = [''registry.svc.ci.openshift.org/ocp/builder:golang-1.13''], Paths = []\<rparr>)]\<rparr>],
       BaseImages = [(''myalias'', \<lparr>Namespace = ''ocp'', Name = ''4.6'', Tag = ''base''\<rparr>),
                     (''ocp_builder_golang-1.13'',
                      \<lparr>Namespace = ''ocp'', Name = ''builder'', Tag = ''golang-1.13''\<rparr>)],
       Metadata = \<lparr>Org = ''o'', Repo = ''r'', Branch = ''master''\<rparr>\<rparr>]
   \<and> replacer
     ((example_env [] (Node [] None [] []))
        \<lparr>ParseDockerfile := (\<lambda>text. Inr (Node [] None
           [Node ''from'' (Some (Node (drop 5 text) None [] [])) [] []] []))\<rparr>)
     (\<lambda>_ _ _ path. if path = ''a/Dockerfile'' then Inr ''FROM x'' else Inr ''FROM y'') (\<lambda>_. None)
     True False False Map.empty ''4.6''
     \<lparr>Images = [\<lparr>From = [], To = [], ContextDir = ''a'', DockerfilePath = [], Inputs = []\<rparr>,
                \<lparr>From = [], To = ''b'', ContextDir = ''b'', DockerfilePath = [],
                 Inputs = [(''k'', \<lparr>As = [''x''], Paths = []\<rparr>)]\<rparr>],
      BaseImages = [], Metadata = \<lparr>Org = ''o'', Repo = ''r'', Branch = ''master''\<rparr>\<rparr>
     \<lparr>InfoMetadata = \<lparr>Org = ''o'', Repo = ''r'', Branch = ''master''\<rparr>, Filename = ''f.yaml''\<rparr>
   = (None,
      \<lparr>Images = [\<lparr>From = [], To = ''b'', ContextDir = ''b'', DockerfilePath = [],
                  Inputs = [(''k'', \<lparr>As = [''x''], Paths = []\<rparr>)]\<rparr>],
       BaseImages = [], Metadata = \<lparr>Org = ''o'', Repo = ''r'', Branch = ''master''\<rparr>\<rparr>,
      [\<lparr>Images = [\<lparr>From = [], To = ''b'', ContextDir = ''b'', DockerfilePath = [],
                   Inputs = [(''k'', \<lparr>As = [''x''], Paths = []\<rparr>)]\<rparr>],
        BaseImages = [], Metadata = \<lparr>Org = ''o'', Repo = ''r'', Branch = ''master''\<rparr>\<rparr>])
   \<and> snd (snd (replacer
     ((example_env [] (Node [] None [] []))
        \<lparr>ParseDockerfile := (\<lambda>text. Inr (Node [] None
           [Node ''from'' (Some (Node (drop 5 text) None [] [])) [] []] []))\<rparr>)
     (\<lambda>_ _ _ path. if path = ''a/Dockerfile'' then Inr ''FROM x'' else Inr ''FROM y'') (\<lambda>_. None)
     True False False Map.empty ''4.6''
     \<lparr>Images = [\<lparr>From = [], To = ''b'', ContextDir = ''b'', DockerfilePath = [],
                 Inputs = [(''k'', \<lparr>As = [''x''], Paths = []\<rparr>)]\<rparr>],
      BaseImages = [], Metadata = \<lparr>Org = ''o'', Repo = ''r'', Branch = ''master''\<rparr>\<rparr>
     \<lparr>InfoMetadata = \<lparr>Org = ''o'', Repo = ''r'', Branch = ''master''\<rparr>, Filename = ''f.yaml''\<rparr>))
   = [\<lparr>Images = [\<lparr>From = [], To = ''b'', ContextDir = ''b'', DockerfilePath = [], Inputs = []\<rparr>],
       BaseImages = [], Metadata = \<lparr>Org = ''o'', Repo = ''r'', Branch = ''master''\<rparr>\<rparr>]"
  by (simp add: replacer_def example_env_def replaceImage_def applyReplacementsToDockerfile_def
      ensureReplacement_def extractReplacementCandidatesFromDockerfile_def pruneUnusedPhase_def
      pruneOCPBuilderPhase_def writeIfChanged_def simple_Join_def regexp_space_def
      orgRepoTagFromPullString_def splitRepoTag_def hasReplacementFor_def map_get_def String_def
      sets_NewString_List_def childCandidates_def dockercmd_From_def dockercmd_Copy_def
      pruneOCPBuilderReplacements_def pruneUnusedReplacements_def pruneReplacements_def
      ocpBuilderFilter_def map_delete_def NewAggregate_def Let_def)
text \<open>
  Claim C2, amended: in every run the writer is handed at most one byte string, and only the
  serialization of the resulting document when it differs from the serialization taken at the
  start; a run without error whose two serializations differ does write. When neither pruning
  policy is enabled, a second run on the document a first run without error has produced (with
  the same collaborators, and the same promoted tags when the reconciler is enabled) writes
  nothing.
\<close>

theorem replacer_writes_once:
  "(\<forall>err c' ws. replacer E f w pU pO eC m mm c info = (err, c', ws) \<longrightarrow>
      length ws \<le> 1
      \<and> (\<forall>b \<in> set ws. \<exists>originalConfig. yaml_Marshal E c = Inr originalConfig
                            \<and> yaml_Marshal E c' = Inr b \<and> originalConfig \<noteq> b)
      \<and> (err = None \<longrightarrow>
           (\<forall>originalConfig b. yaml_Marshal E c = Inr originalConfig \<and> yaml_Marshal E c' = Inr b
               \<and> originalConfig \<noteq> b \<longrightarrow> ws = [b])))
   \<and> (\<forall>c' ws. replacer E f w False False eC m mm c info = (None, c', ws)
         \<and> (eC \<longrightarrow> PromotedTags E c' = PromotedTags E c)
         \<longrightarrow> snd (snd (replacer E f w False False eC m mm c' info)) = [])"
proof -
  have once: "length ws \<le> 1
      \<and> (\<forall>b \<in> set ws. \<exists>originalConfig. yaml_Marshal E c = Inr originalConfig
                            \<and> yaml_Marshal E c' = Inr b \<and> originalConfig \<noteq> b)
      \<and> (err = None \<longrightarrow>
           (\<forall>originalConfig b. yaml_Marshal E c = Inr originalConfig \<and> yaml_Marshal E c' = Inr b
               \<and> originalConfig \<noteq> b \<longrightarrow> ws = [b]))"
    if run: "replacer E f w pU pO eC m mm c info = (err, c', ws)" for err c' ws
  proof -
    note cases = replacer_cases[OF run]
    show ?thesis
    proof (cases "ws = [] \<and> (err \<noteq> None \<or> Images c = [] \<and> c' = c)")
      case True
      then have ws: "ws = []" and e: "err = None \<longrightarrow> c' = c" by auto
      have a: "length ws \<le> 1" using ws by simp
      have b: "\<forall>b \<in> set ws. \<exists>originalConfig. yaml_Marshal E c = Inr originalConfig
                            \<and> yaml_Marshal E c' = Inr b \<and> originalConfig \<noteq> b"
        using ws by simp
      have c: "err = None \<longrightarrow>
           (\<forall>originalConfig b. yaml_Marshal E c = Inr originalConfig \<and> yaml_Marshal E c' = Inr b
               \<and> originalConfig \<noteq> b \<longrightarrow> ws = [b])"
      proof (intro impI allI)
        fix originalConfig b
        assume "err = None"
          and "yaml_Marshal E c = Inr originalConfig \<and> yaml_Marshal E c' = Inr b
               \<and> originalConfig \<noteq> b"
        then show "ws = [b]" using e by auto
      qed
      show ?thesis by (intro conjI a b c)
    next
      case False
      with cases obtain originalConfig where o: "yaml_Marshal E c = Inr originalConfig"
        and wr: "writeIfChanged E w info originalConfig c' = (err, c', ws)"
        by auto
      note ww = writeIfChanged_writes[OF wr]
      note ww1 = ww[THEN conjunct2, THEN conjunct1]
      note ww2 = ww[THEN conjunct2, THEN conjunct2, THEN conjunct1]
      note ww3 = ww[THEN conjunct2, THEN conjunct2, THEN conjunct2]
      have a: "length ws \<le> 1" by (rule ww1)
      have b: "\<forall>b \<in> set ws. \<exists>originalConfig. yaml_Marshal E c = Inr originalConfig
                            \<and> yaml_Marshal E c' = Inr b \<and> originalConfig \<noteq> b"
        using ww2 o by blast
      have c: "err = None \<longrightarrow>
           (\<forall>oc b. yaml_Marshal E c = Inr oc \<and> yaml_Marshal E c' = Inr b
               \<and> oc \<noteq> b \<longrightarrow> ws = [b])"
      proof (intro impI allI)
        fix oc b
        assume n: "err = None"
          and h: "yaml_Marshal E c = Inr oc \<and> yaml_Marshal E c' = Inr b \<and> oc \<noteq> b"
        from ww3 n obtain b' where b': "yaml_Marshal E c' = Inr b'"
          "ws = (if originalConfig = b' then [] else [b'])" by blast
        have "b' = b" using b'(1) h by simp
        moreover have "oc = originalConfig" using o h by simp
        ultimately show "ws = [b]" using b'(2) h by simp
      qed
      show ?thesis by (intro conjI a b c)
    qed
  qed
  have twice: "snd (snd (replacer E f w False False eC m mm c' info)) = []"
    if "replacer E f w False False eC m mm c info = (None, c', ws)
         \<and> (eC \<longrightarrow> PromotedTags E c' = PromotedTags E c)" for c' ws
    using replacer_second_run_no_write[of E f w eC m mm c info c' ws] that by simp
  show ?thesis
    by (rule conjI; intro allI impI; (rule once | rule twice); assumption)
qed
theorem replacer_writes_once_witness:
  "replacer
     (example_env [] (Node [] None
        [Node ''from'' (Some (Node ''registry.svc.ci.openshift.org/org/repo:tag'' None [] [])) [] []] []))
     (\<lambda>_ _ _ _. Inr ''FROM registry.svc.ci.openshift.org/org/repo:tag'') (\<lambda>_. None)
     False False False Map.empty ''4.6''
     \<lparr>Images = [\<lparr>From = [], To = ''out'', ContextDir = [], DockerfilePath = [], Inputs = []\<rparr>],
      BaseImages = [], Metadata = \<lparr>Org = ''o'', Repo = ''r'', Branch = ''master''\<rparr>\<rparr>
     \<lparr>InfoMetadata = \<lparr>Org = ''o'', Repo = ''r'', Branch = ''master''\<rparr>, Filename = ''f.yaml''\<rparr>
   = (None,
      \<lparr>Images = [\<lparr>From = [], To = ''out'', ContextDir = [], DockerfilePath = [],
         Inputs = [(''org_repo_tag'',
                    \<lparr>As = [''registry.svc.ci.openshift.org/org/repo:tag''], Paths = []\<rparr>)]\<rparr>],
       BaseImages = [(''org_repo_tag'', \<lparr>Namespace = ''org'', Name = ''repo'', Tag = ''tag''\<rparr>)],
       Metadata = \<lparr>Org = ''o'', Repo = ''r'', Branch = ''master''\<rparr>\<rparr>,
      [\<lparr>Images = [\<lparr>From = [], To = ''out'', ContextDir = [], DockerfilePath = [],
          Inputs = [(''org_repo_tag'',
                     \<lparr>As = [''registry.svc.ci.openshift.org/org/repo:tag''], Paths = []\<rparr>)]\<rparr>],
        BaseImages = [(''org_repo_tag'', \<lparr>Namespace = ''org'', Name = ''repo'', Tag = ''tag''\<rparr>)],
        Metadata = \<lparr>Org = ''o'', Repo = ''r'', Branch = ''master''\<rparr>\<rparr>])
   \<and> snd (snd (replacer
     (example_env [] (Node [] None
        [Node ''from'' (Some (Node ''registry.svc.ci.openshift.org/org/repo:tag'' None [] [])) [] []] []))
     (\<lambda>_ _ _ _. Inr ''FROM registry.svc.ci.openshift.org/org/repo:tag'') (\<lambda>_. None)
     False False False Map.empty ''4.6''
     \<lparr>Images = [\<lparr>From = [], To = ''out'', ContextDir = [], DockerfilePath = [],
        Inputs = [(''org_repo_tag'',
                   \<lparr>As = [''registry.svc.ci.openshift.org/org/repo:tag''], Paths = []\<rparr>)]\<rparr>],
      BaseImages = [(''org_repo_tag'', \<lparr>Namespace = ''org'', Name = ''repo'', Tag = ''tag''\<rparr>)],
      Metadata = \<lparr>Org = ''o'', Repo = ''r'', Branch = ''master''\<rparr>\<rparr>
     \<lparr>InfoMetadata = \<lparr>Org = ''o'', Repo = ''r'', Branch = ''master''\<rparr>, Filename = ''f.yaml''\<rparr>))
   = []"
proof -
  let ?E = "example_env [] (Node [] None
        [Node ''from'' (Some (Node ''registry.svc.ci.openshift.org/org/repo:tag'' None [] [])) [] []] [])"
  let ?f = "\<lambda>(_::string) (_::string) (_::string) (_::string).
              (Inr ''FROM registry.svc.ci.openshift.org/org/repo:tag'' :: error + string)"
  let ?w = "\<lambda>_::ReleaseBuildConfiguration. (None :: error option)"
  let ?info = "\<lparr>InfoMetadata = \<lparr>Org = ''o'', Repo = ''r'', Branch = ''master''\<rparr>,
                 Filename = ''f.yaml''\<rparr>"
  let ?c0 = "\<lparr>Images = [\<lparr>From = [], To = ''out'', ContextDir = [], DockerfilePath = [],
                           Inputs = []\<rparr>],
      BaseImages = [], Metadata = \<lparr>Org = ''o'', Repo = ''r'', Branch = ''master''\<rparr>\<rparr>"
  let ?c1 = "\<lparr>Images = [\<lparr>From = [], To = ''out'', ContextDir = [], DockerfilePath = [],
         Inputs = [(''org_repo_tag'',
                    \<lparr>As = [''registry.svc.ci.openshift.org/org/repo:tag''], Paths = []\<rparr>)]\<rparr>],
       BaseImages = [(''org_repo_tag'', \<lparr>Namespace = ''org'', Name = ''repo'', Tag = ''tag''\<rparr>)],
       Metadata = \<lparr>Org = ''o'', Repo = ''r'', Branch = ''master''\<rparr>\<rparr>"
  have run1: "replacer ?E ?f ?w False False False Map.empty ''4.6'' ?c0 ?info = (None, ?c1, [?c1])"
    by (simp add: replacer_def example_env_def replaceImage_def applyReplacementsToDockerfile_def
        ensureReplacement_def extractReplacementCandidatesFromDockerfile_def pruneUnusedPhase_def
        pruneOCPBuilderPhase_def writeIfChanged_def simple_Join_def regexp_space_def
        orgRepoTagFromPullString_def splitRepoTag_def hasReplacementFor_def map_get_def String_def
        sets_NewString_List_def childCandidates_def dockercmd_From_def dockercmd_Copy_def Let_def)
  note t = replacer_writes_once[of ?E ?f ?w False False False Map.empty "''4.6''" ?c0 ?info,
      THEN conjunct2, rule_format, of ?c1 "[?c1]"]
  have run2: "snd (snd (replacer ?E ?f ?w False False False Map.empty ''4.6'' ?c1 ?info)) = []"
    by (rule t) (simp add: run1)
  show ?thesis
    by (rule conjI[OF run1 run2])
qed

subsection \<open>The synthesized replacement\<close>

lemma strings_Split_whole: "c \<notin> set a \<Longrightarrow> strings_Split c a = [a]"
  by (induction a) (auto split: list.splits)

lemma strings_Split_prefix: "c \<notin> set a \<Longrightarrow> strings_Split c (a @ c # s) = a # strings_Split c s"
  by (induction a) (auto split: list.splits simp: strings_Split_nonempty)

lemma strings_Split_single: "strings_Split c s = [a] \<Longrightarrow> s = a"
  by (induction s arbitrary: a) (auto split: list.splits if_splits simp: strings_Split_nonempty)

lemma strings_Split_Cons2:
  "strings_Split c s = a # b # r \<Longrightarrow> \<exists>s'. s = a @ c # s' \<and> strings_Split c s' = b # r"
proof (induction s arbitrary: a)
  case Nil
  then show ?case by simp
next
  case (Cons x xs)
  show ?case
  proof (cases "x = c")
    case True
    then show ?thesis using Cons.prems by auto
  next
    case False
    then obtain w where w: "strings_Split c xs = w # b # r" and a: "a = x # w"
      using Cons.prems by (auto split: list.splits)
    from Cons.IH[OF w] obtain s' where "xs = w @ c # s'" "strings_Split c s' = b # r" by blast
    then show ?thesis using a by auto
  qed
qed

lemma strings_Split_pair: "strings_Split c s = [a, b] \<Longrightarrow> s = a @ c # b"
  using strings_Split_Cons2[of c s a b "[]"] strings_Split_single[of c _ b] by auto

lemma String_org_repo_tag:
  assumes "String ort = ''org_repo_tag''"
  shows "org ort = ''org'' \<and> repo ort = ''repo'' \<and> tag ort = ''tag''"
proof -
  let ?u = "CHR ''_''"
  have eq: "org ort @ ?u # repo ort @ ?u # tag ort = ''org_repo_tag''"
    using assms by (simp add: String_def)
  have "count_list (org ort @ ?u # repo ort @ ?u # tag ort) ?u = count_list ''org_repo_tag'' ?u"
    using eq by simp
  then have "count_list (org ort) ?u = 0 \<and> count_list (repo ort) ?u = 0 \<and> count_list (tag ort) ?u = 0"
    by simp
  then have n: "?u \<notin> set (org ort)" "?u \<notin> set (repo ort)" "?u \<notin> set (tag ort)"
    by (simp_all add: count_list_0_iff)
  have "strings_Split ?u (org ort @ ?u # repo ort @ ?u # tag ort) = [org ort, repo ort, tag ort]"
    using n by (simp add: strings_Split_prefix strings_Split_whole)
  moreover have "strings_Split ?u ''org_repo_tag'' = [''org'', ''repo'', ''tag'']"
    by simp
  ultimately show ?thesis using eq by simp
qed

lemma splitRepoTag_org: "org (splitRepoTag res) = org res"
  by (simp add: splitRepoTag_def Let_def)

lemma splitRepoTag_repo_tag:
  assumes "repo (splitRepoTag res) = ''repo''" "tag (splitRepoTag res) = ''tag''" "tag res = ''latest''"
  shows "repo res = ''repo:tag''"
proof (cases "length (strings_Split CHR '':'' (repo res)) = 2")
  case True
  then obtain p0 p1 where p: "strings_Split CHR '':'' (repo res) = [p0, p1]"
    by (cases "strings_Split CHR '':'' (repo res)"; cases "tl (strings_Split CHR '':'' (repo res))") auto
  then have "p0 = ''repo''" "p1 = ''tag''" using assms by (simp_all add: splitRepoTag_def)
  then show ?thesis using strings_Split_pair[OF p] by simp
next
  case False
  then show ?thesis using assms by (simp add: splitRepoTag_def)
qed

lemma orgRepoTagFromPullString_org_repo_tag:
  assumes "orgRepoTagFromPullString (''registry.svc.ci.openshift.org/'' @ rest) = Inr ort"
    and "String ort = ''org_repo_tag''"
  shows "rest = ''org/repo:tag''"
proof -
  note k = String_org_repo_tag[OF assms(2)]
  have sp: "strings_Split CHR ''/'' (''registry.svc.ci.openshift.org/'' @ rest)
        = ''registry.svc.ci.openshift.org'' # strings_Split CHR ''/'' rest"
    using strings_Split_prefix[of "CHR ''/''" "''registry.svc.ci.openshift.org''" rest] by simp
  obtain s1 ss where ss: "strings_Split CHR ''/'' rest = s1 # ss"
    using strings_Split_nonempty[of "CHR ''/''" rest] by (cases "strings_Split CHR ''/'' rest") auto
  show ?thesis
  proof (cases ss)
    case Nil
    then have "org ort = ''registry.svc.ci.openshift.org''"
      using assms(1) sp ss by (auto simp: orgRepoTagFromPullString_def Let_def splitRepoTag_org)
    then show ?thesis using k by simp
  next
    case (Cons s2 ss')
    show ?thesis
    proof (cases ss')
      case Nil
      then have o: "ort = splitRepoTag \<lparr>org = s1, repo = s2, tag = ''latest''\<rparr>"
        using assms(1) sp ss Cons by (auto simp: orgRepoTagFromPullString_def Let_def)
      have "s1 = ''org''" using o k splitRepoTag_org[of "\<lparr>org = s1, repo = s2, tag = ''latest''\<rparr>"] by simp
      moreover have "s2 = ''repo:tag''"
        using splitRepoTag_repo_tag[of "\<lparr>org = s1, repo = s2, tag = ''latest''\<rparr>"] o k by simp
      moreover have "rest = s1 @ CHR ''/'' # s2"
        using strings_Split_pair[of "CHR ''/''" rest s1 s2] ss Cons Nil by simp
      ultimately show ?thesis by simp
    next
      case (Cons s3 ss'')
      then show ?thesis
        using assms(1) sp ss \<open>ss = s2 # ss'\<close> by (auto simp: orgRepoTagFromPullString_def Let_def)
    qed
  qed
qed

lemma registryRegex_Find_prefix:
  "registryRegex_Find l = Some m \<Longrightarrow> \<exists>rest. m = ''registry.svc.ci.openshift.org/'' @ rest"
proof (induction l)
  case Nil
  then show ?case by simp
next
  case (Cons x xs)
  have unf: "registryRegex_Find (x # xs) =
      (if take 30 (x # xs) = ''registry.svc.ci.openshift.org/''
          \<and> takeWhile (\<lambda>c. \<not> regexp_space c) (drop 30 (x # xs)) \<noteq> []
       then Some (''registry.svc.ci.openshift.org/''
                    @ takeWhile (\<lambda>c. \<not> regexp_space c) (drop 30 (x # xs)))
       else registryRegex_Find xs)"
    by (simp only: registryRegex_Find.simps Let_def)
  show ?case
  proof (cases "take 30 (x # xs) = ''registry.svc.ci.openshift.org/''
                \<and> takeWhile (\<lambda>c. \<not> regexp_space c) (drop 30 (x # xs)) \<noteq> []")
    case True
    have "registryRegex_Find (x # xs) = Some (''registry.svc.ci.openshift.org/''
                    @ takeWhile (\<lambda>c. \<not> regexp_space c) (drop 30 (x # xs)))"
      unfolding unf using True by (rule if_P)
    then have "m = ''registry.svc.ci.openshift.org/''
                    @ takeWhile (\<lambda>c. \<not> regexp_space c) (drop 30 (x # xs))"
      using Cons.prems by (simp only: option.inject)
    then show ?thesis by blast
  next
    case False
    have "registryRegex_Find (x # xs) = registryRegex_Find xs"
      unfolding unf using False by (rule if_not_P)
    then have "registryRegex_Find xs = Some m"
      using Cons.prems by (simp only:)
    then show ?thesis using Cons.IH by blast
  qed
qed

lemma set_linesToReplace:
  "set (linesToReplace ls acc) = set acc \<union>
     {m. \<exists>l \<in> set ls. bytes_Contains l ''FROM'' \<and> bytes_Contains l ''registry.svc.ci.openshift.org''
            \<and> registryRegex_Find l = Some m}"
proof (induction ls arbitrary: acc)
  case Nil
  then show ?case by simp
next
  case (Cons l ls)
  show ?case
    by (cases "registryRegex_Find l") (auto simp: Cons.IH simp del: registryRegex_Find.simps bytes_Contains.simps)
qed


lemma map_set_cases: "(k', v') \<in> set (map_set m k v) \<Longrightarrow> (k', v') = (k, v) \<or> (k', v') \<in> set m"
  by (induction m) (auto split: if_splits)

lemma map_get_mem: "map_get m k = Some v \<Longrightarrow> (k, v) \<in> set m"
  by (simp add: map_get_def map_of_SomeD)

lemma hasReplacementFor_after_insert:
  "hasReplacementFor (img\<lparr>Inputs := map_set (Inputs img) k r'\<rparr>) u \<Longrightarrow>
   hasReplacementFor img u \<or> u \<in> set (As r')"
  using map_set_cases[of _ _ "Inputs img" k r']
  by (fastforce simp: hasReplacementFor_def list_ex_iff)

lemma hasReplacementFor_record:
  "map_get (Inputs img) k = Some r \<Longrightarrow> u \<in> set (As r) \<Longrightarrow> hasReplacementFor img u"
  using map_get_mem[of "Inputs img" k r] by (force simp: hasReplacementFor_def list_ex_iff)

lemma ensureReplacements_results_grow:
  "ensureReplacements toks (img, res) = (img', Inr found) \<Longrightarrow> set res \<subseteq> set found"
proof (induction toks arbitrary: img res)
  case Nil
  then show ?case by simp
next
  case (Cons t toks)
  show ?case
  proof (cases "orgRepoTagFromPullString t")
    case (Inl e)
    then show ?thesis using Cons.prems by simp
  next
    case (Inr ort)
    show ?thesis
    proof (cases "hasReplacementFor img t")
      case True
      then have "ensureReplacements toks (img, res) = (img', Inr found)"
        using Cons.prems Inr by simp
      from Cons.IH[OF this] show ?thesis .
    next
      case False
      from ensureReplacements_step[OF Inr False, of toks res] obtain img1 where
        "ensureReplacements (t # toks) (img, res) = ensureReplacements toks (img1, res @ [ort])"
        by blast
      then have "ensureReplacements toks (img1, res @ [ort]) = (img', Inr found)"
        using Cons.prems by simp
      from Cons.IH[OF this] show ?thesis by simp
    qed
  qed
qed

text \<open>Once the record of \<open>org_repo_tag\<close> holds the pull string, no later pull string of the
  registry changes it: a pull string with that key is that pull string.\<close>

lemma ensureReplacements_keeps_record:
  assumes "\<forall>t \<in> set toks. \<exists>rest. t = ''registry.svc.ci.openshift.org/'' @ rest"
    and "map_get (Inputs img) ''org_repo_tag''
           = Some \<lparr>As = [''registry.svc.ci.openshift.org/org/repo:tag''], Paths = []\<rparr>"
    and "ensureReplacements toks (img, res) = (img', r)"
  shows "map_get (Inputs img') ''org_repo_tag''
           = Some \<lparr>As = [''registry.svc.ci.openshift.org/org/repo:tag''], Paths = []\<rparr>"
  using assms
proof (induction toks arbitrary: img res)
  case Nil
  then show ?case by simp
next
  case (Cons t toks)
  have pre: "\<forall>t \<in> set toks. \<exists>rest. t = ''registry.svc.ci.openshift.org/'' @ rest"
    using Cons.prems(1) by simp
  obtain rest where t: "t = ''registry.svc.ci.openshift.org/'' @ rest"
    using Cons.prems(1) by auto
  have has: "hasReplacementFor img ''registry.svc.ci.openshift.org/org/repo:tag''"
    using hasReplacementFor_record[OF Cons.prems(2)] by simp
  show ?case
  proof (cases "orgRepoTagFromPullString t")
    case (Inl e)
    then show ?thesis using Cons.prems(2,3) by simp
  next
    case (Inr ort)
    show ?thesis
    proof (cases "hasReplacementFor img t")
      case True
      then have "ensureReplacements toks (img, res) = (img', r)"
        using Cons.prems(3) Inr by simp
      from Cons.IH[OF pre Cons.prems(2) this] show ?thesis .
    next
      case False
      have key: "String ort \<noteq> ''org_repo_tag''"
      proof
        assume "String ort = ''org_repo_tag''"
        from orgRepoTagFromPullString_org_repo_tag[OF Inr[unfolded t] this]
        have "t = ''registry.svc.ci.openshift.org/org/repo:tag''" using t by simp
        then show False using False has by simp
      qed
      define inputs where "inputs = (case map_get (Inputs img) (String ort) of
                                       None \<Rightarrow> \<lparr>As = [], Paths = []\<rparr> | Some i \<Rightarrow> i)"
      define inputs' where "inputs' = inputs\<lparr>As := sets_NewString_List (As inputs @ [t])\<rparr>"
      define img1 where "img1 = img\<lparr>Inputs := map_set (Inputs img) (String ort) inputs'\<rparr>"
      have step: "ensureReplacements (t # toks) (img, res)
                    = ensureReplacements toks (img1, res @ [ort])"
        using Inr False by (simp add: Let_def img1_def inputs'_def inputs_def)
      have rec: "map_get (Inputs img1) ''org_repo_tag''
           = Some \<lparr>As = [''registry.svc.ci.openshift.org/org/repo:tag''], Paths = []\<rparr>"
        using Cons.prems(2) key by (simp add: img1_def map_get_map_set)
      have "ensureReplacements toks (img1, res @ [ort]) = (img', r)"
        using Cons.prems(3) step by simp
      from Cons.IH[OF pre rec this] show ?thesis .
    qed
  qed
qed

text \<open>From an image without a record of \<open>org_repo_tag\<close> and without a replacement for the pull
  string, a run of the second loop that meets the pull string and ends without error leaves the
  record with exactly that pull string, and the tag among the found tags.\<close>

lemma ensureReplacements_adds_record:
  assumes "\<forall>t \<in> set toks. \<exists>rest. t = ''registry.svc.ci.openshift.org/'' @ rest"
    and "map_get (Inputs img) ''org_repo_tag'' = None"
    and "\<not> hasReplacementFor img ''registry.svc.ci.openshift.org/org/repo:tag''"
    and "''registry.svc.ci.openshift.org/org/repo:tag'' \<in> set toks"
    and "ensureReplacements toks (img, res) = (img', Inr found)"
  shows "map_get (Inputs img') ''org_repo_tag''
           = Some \<lparr>As = [''registry.svc.ci.openshift.org/org/repo:tag''], Paths = []\<rparr>
         \<and> \<lparr>org = ''org'', repo = ''repo'', tag = ''tag''\<rparr> \<in> set found"
  using assms
proof (induction toks arbitrary: img res)
  case Nil
  then show ?case by simp
next
  case (Cons t toks)
  have pre: "\<forall>t \<in> set toks. \<exists>rest. t = ''registry.svc.ci.openshift.org/'' @ rest"
    using Cons.prems(1) by simp
  obtain rest where t: "t = ''registry.svc.ci.openshift.org/'' @ rest"
    using Cons.prems(1) by auto
  show ?case
  proof (cases "orgRepoTagFromPullString t")
    case (Inl e)
    then show ?thesis using Cons.prems(5) by simp
  next
    case (Inr ort)
    define inputs where "inputs = (case map_get (Inputs img) (String ort) of
                                     None \<Rightarrow> \<lparr>As = [], Paths = []\<rparr> | Some i \<Rightarrow> i)"
    define inputs' where "inputs' = inputs\<lparr>As := sets_NewString_List (As inputs @ [t])\<rparr>"
    define img1 where "img1 = img\<lparr>Inputs := map_set (Inputs img) (String ort) inputs'\<rparr>"
    show ?thesis
    proof (cases "t = ''registry.svc.ci.openshift.org/org/repo:tag''")
      case True
      have ort: "ort = \<lparr>org = ''org'', repo = ''repo'', tag = ''tag''\<rparr>"
        using Inr True by (simp add: orgRepoTagFromPullString_example)
      have no: "\<not> hasReplacementFor img t" using True Cons.prems(3) by simp
      have step: "ensureReplacements (t # toks) (img, res)
                    = ensureReplacements toks (img1, res @ [ort])"
        using Inr no by (simp add: Let_def img1_def inputs'_def inputs_def)
      have "inputs = \<lparr>As = [], Paths = []\<rparr>"
        using Cons.prems(2) ort by (simp add: inputs_def String_def)
      then have "inputs' = \<lparr>As = [''registry.svc.ci.openshift.org/org/repo:tag''], Paths = []\<rparr>"
        using True by (simp add: inputs'_def sets_NewString_List_def)
      then have rec: "map_get (Inputs img1) ''org_repo_tag''
           = Some \<lparr>As = [''registry.svc.ci.openshift.org/org/repo:tag''], Paths = []\<rparr>"
        using ort by (simp add: img1_def map_get_map_set String_def)
      have run: "ensureReplacements toks (img1, res @ [ort]) = (img', Inr found)"
        using Cons.prems(5) step by simp
      have "set (res @ [ort]) \<subseteq> set found"
        using ensureReplacements_results_grow[OF run] .
      then have "\<lparr>org = ''org'', repo = ''repo'', tag = ''tag''\<rparr> \<in> set found"
        using ort by simp
      then show ?thesis
        using ensureReplacements_keeps_record[OF pre rec run] by simp
    next
      case False
      then have mem: "''registry.svc.ci.openshift.org/org/repo:tag'' \<in> set toks"
        using Cons.prems(4) by simp
      show ?thesis
      proof (cases "hasReplacementFor img t")
        case True
        then have "ensureReplacements toks (img, res) = (img', Inr found)"
          using Cons.prems(5) Inr by simp
        from Cons.IH[OF pre Cons.prems(2) Cons.prems(3) mem this] show ?thesis .
      next
        case no: False
        have key: "String ort \<noteq> ''org_repo_tag''"
        proof
          assume "String ort = ''org_repo_tag''"
          from orgRepoTagFromPullString_org_repo_tag[OF Inr[unfolded t] this]
          have "t = ''registry.svc.ci.openshift.org/org/repo:tag''" using t by simp
          then show False using False by simp
        qed
        have step: "ensureReplacements (t # toks) (img, res)
                      = ensureReplacements toks (img1, res @ [ort])"
          using Inr no by (simp add: Let_def img1_def inputs'_def inputs_def)
        have rec: "map_get (Inputs img1) ''org_repo_tag'' = None"
          using Cons.prems(2) key by (simp add: img1_def map_get_map_set)
        have old: "''registry.svc.ci.openshift.org/org/repo:tag'' \<notin> set (As inputs)"
        proof (cases "map_get (Inputs img) (String ort)")
          case None
          then show ?thesis by (simp add: inputs_def)
        next
          case (Some i)
          then show ?thesis
            using hasReplacementFor_record[OF Some] Cons.prems(3) by (auto simp: inputs_def)
        qed
        then have new: "''registry.svc.ci.openshift.org/org/repo:tag'' \<notin> set (As inputs')"
          using False by (auto simp: inputs'_def set_sets_NewString_List)
        have nohas: "\<not> hasReplacementFor img1 ''registry.svc.ci.openshift.org/org/repo:tag''"
          unfolding img1_def using hasReplacementFor_after_insert new Cons.prems(3) by blast
        have "ensureReplacements toks (img1, res @ [ort]) = (img', Inr found)"
          using Cons.prems(5) step by simp
        from Cons.IH[OF pre rec nohas mem this] show ?thesis .
      qed
    qed
  qed
qed


lemma registryRegex_Find_contains:
  "registryRegex_Find l = Some m \<Longrightarrow> bytes_Contains l ''registry.svc.ci.openshift.org''"
proof (induction l)
  case Nil
  then show ?case by simp
next
  case (Cons x xs)
  have unf: "registryRegex_Find (x # xs) =
      (if take 30 (x # xs) = ''registry.svc.ci.openshift.org/''
          \<and> takeWhile (\<lambda>c. \<not> regexp_space c) (drop 30 (x # xs)) \<noteq> []
       then Some (''registry.svc.ci.openshift.org/''
                    @ takeWhile (\<lambda>c. \<not> regexp_space c) (drop 30 (x # xs)))
       else registryRegex_Find xs)"
    by (simp only: registryRegex_Find.simps Let_def)
  have bc: "bytes_Contains (x # xs) ''registry.svc.ci.openshift.org''
              = (take 29 (x # xs) = ''registry.svc.ci.openshift.org''
                 \<or> bytes_Contains xs ''registry.svc.ci.openshift.org'')"
  proof -
    have len: "length ''registry.svc.ci.openshift.org'' = 29" by simp
    show ?thesis by (simp only: bytes_Contains.simps len)
  qed
  show ?case
  proof (cases "take 30 (x # xs) = ''registry.svc.ci.openshift.org/''
                \<and> takeWhile (\<lambda>c. \<not> regexp_space c) (drop 30 (x # xs)) \<noteq> []")
    case True
    have "take 29 (take 30 (x # xs)) = take 29 ''registry.svc.ci.openshift.org/''"
      using True by (simp only:)
    then have "take 29 (x # xs) = ''registry.svc.ci.openshift.org''"
      by (simp only: take_take) simp
    then show ?thesis unfolding bc by (rule disjI1)
  next
    case False
    have "registryRegex_Find (x # xs) = registryRegex_Find xs"
      unfolding unf using False by (rule if_not_P)
    then have "registryRegex_Find xs = Some m"
      using Cons.prems by (simp only:)
    from Cons.IH[OF this] show ?thesis unfolding bc by (rule disjI2)
  qed
qed

lemma ensureReplacements_succeeds_iff:
  "(\<exists>img' foundTags. ensureReplacements toks (img, res) = (img', Inr foundTags))
   \<longleftrightarrow> (\<forall>t \<in> set toks. \<exists>ort. orgRepoTagFromPullString t = Inr ort)"
proof (induction toks arbitrary: img res)
  case Nil
  then show ?case by simp
next
  case (Cons t toks)
  show ?case
  proof (cases "orgRepoTagFromPullString t")
    case (Inl e)
    then show ?thesis by simp
  next
    case (Inr ort)
    show ?thesis
    proof (cases "hasReplacementFor img t")
      case True
      then have "ensureReplacements (t # toks) (img, res) = ensureReplacements toks (img, res)"
        using Inr by simp
      then show ?thesis using Cons.IH[of img res] Inr by simp
    next
      case False
      from ensureReplacements_step[OF Inr False, of toks res] obtain img1 where
        "ensureReplacements (t # toks) (img, res) = ensureReplacements toks (img1, res @ [ort])"
        by blast
      then show ?thesis using Cons.IH[of img1 "res @ [ort]"] Inr by simp
    qed
  qed
qed

text \<open>
  Claim C6, as the specification states it: for an image with no inputs whose Dockerfile
  contains the line \<open>FROM registry.svc.ci.openshift.org/org/repo:tag\<close>, after synthesis the input
  mapping has the key \<open>org_repo_tag\<close> and the Base-Image Table has it too. The synthesizer
  parses the registry pull strings of the Dockerfile in their order and returns at the first one
  that does not parse: in the Dockerfile \<open>FROM registry.svc.ci.openshift.org/a/b/c/d\<close> /
  \<open>FROM registry.svc.ci.openshift.org/org/repo:tag\<close> the pull string of the first line has five
  segments, so the synthesizer returns the error and the image still has no inputs, and
  \<^verbatim>\<open>replacer\<close> returns that error with the Base-Image Table still empty.
\<close>

theorem ensureReplacement_unparseable_counterexample:
  "''FROM registry.svc.ci.openshift.org/org/repo:tag''
     \<in> set (strings_Split CHR 0x0A
          (''FROM registry.svc.ci.openshift.org/a/b/c/d'' @ [CHR 0x0A]
             @ ''FROM registry.svc.ci.openshift.org/org/repo:tag''))
   \<and> ensureReplacement \<lparr>From = [], To = ''out'', ContextDir = [], DockerfilePath = [], Inputs = []\<rparr>
       (''FROM registry.svc.ci.openshift.org/a/b/c/d'' @ [CHR 0x0A]
          @ ''FROM registry.svc.ci.openshift.org/org/repo:tag'')
     = (\<lparr>From = [], To = ''out'', ContextDir = [], DockerfilePath = [], Inputs = []\<rparr>,
        Inl (Wrapped ''failed to parse string registry.svc.ci.openshift.org/a/b/c/d as pullspec''
               (PullStringParseError ''registry.svc.ci.openshift.org/a/b/c/d'' 5)))
   \<and> replacer (example_env [] (Node [] None [] []))
       (\<lambda>_ _ _ _. Inr (''FROM registry.svc.ci.openshift.org/a/b/c/d'' @ [CHR 0x0A]
                          @ ''FROM registry.svc.ci.openshift.org/org/repo:tag''))
       (\<lambda>_. None) False False False Map.empty ''4.6''
       \<lparr>Images = [\<lparr>From = [], To = ''out'', ContextDir = [], DockerfilePath = [], Inputs = []\<rparr>],
        BaseImages = [], Metadata = \<lparr>Org = ''o'', Repo = ''r'', Branch = ''master''\<rparr>\<rparr>
       \<lparr>InfoMetadata = \<lparr>Org = ''o'', Repo = ''r'', Branch = ''master''\<rparr>, Filename = ''f.yaml''\<rparr>
     = (Some (Wrapped ''failed to ensure replacements''
                (Wrapped ''failed to parse string registry.svc.ci.openshift.org/a/b/c/d as pullspec''
                   (PullStringParseError ''registry.svc.ci.openshift.org/a/b/c/d'' 5))),
        \<lparr>Images = [\<lparr>From = [], To = ''out'', ContextDir = [], DockerfilePath = [], Inputs = []\<rparr>],
         BaseImages = [], Metadata = \<lparr>Org = ''o'', Repo = ''r'', Branch = ''master''\<rparr>\<rparr>,
        [])"
  by (simp add: replacer_def example_env_def replaceImage_def applyReplacementsToDockerfile_def
      ensureReplacement_def simple_Join_def regexp_space_def orgRepoTagFromPullString_def Let_def)

text \<open>
  Claim C6, amended: the synthesizer returns without error exactly when every registry pull
  string it finds in the Dockerfile parses. For an image with no inputs and a Dockerfile with a
  line that contains \<open>FROM\<close> and whose registry pull string is
  \<open>registry.svc.ci.openshift.org/org/repo:tag\<close>, a synthesis without error leaves the input
  mapping with the key \<open>org_repo_tag\<close>, whose record has exactly that pull string as its \<open>As\<close>
  and no paths, and the loop over its found tags binds \<open>org_repo_tag\<close> in a Base-Image Table
  that had no entry for the key to namespace org, name repo, tag tag. The line
  \<open>FROM registry.svc.ci.openshift.org/org/repo:tag\<close> is such a line. For every list of found
  tags, every key that has an entry in the Base-Image Table keeps that entry.
\<close>

theorem ensureReplacement_synthesis:
  "(\<forall>img dockerfile.
      (\<exists>img' foundTags. ensureReplacement img dockerfile = (img', Inr foundTags))
      \<longleftrightarrow> (\<forall>t \<in> set (linesToReplace (strings_Split CHR 0x0A dockerfile) []).
             \<exists>ort. orgRepoTagFromPullString t = Inr ort))
   \<and> (\<forall>img dockerfile img' foundTags.
        Inputs img = [] \<longrightarrow>
        (\<exists>line \<in> set (strings_Split CHR 0x0A dockerfile).
           bytes_Contains line ''FROM''
           \<and> registryRegex_Find line = Some ''registry.svc.ci.openshift.org/org/repo:tag'') \<longrightarrow>
        ensureReplacement img dockerfile = (img', Inr foundTags) \<longrightarrow>
          map_get (Inputs img') ''org_repo_tag''
            = Some \<lparr>As = [''registry.svc.ci.openshift.org/org/repo:tag''], Paths = []\<rparr>
          \<and> (\<forall>baseImages. map_get baseImages ''org_repo_tag'' = None \<longrightarrow>
                map_get (ensureBaseImages foundTags baseImages) ''org_repo_tag''
                  = Some \<lparr>Namespace = ''org'', Name = ''repo'', Tag = ''tag''\<rparr>))
   \<and> bytes_Contains ''FROM registry.svc.ci.openshift.org/org/repo:tag'' ''FROM''
   \<and> registryRegex_Find ''FROM registry.svc.ci.openshift.org/org/repo:tag''
       = Some ''registry.svc.ci.openshift.org/org/repo:tag''
   \<and> (\<forall>foundTags baseImages k v. map_get baseImages k = Some v \<longrightarrow>
        map_get (ensureBaseImages foundTags baseImages) k = Some v)"
proof -
  have a: "(\<exists>img' foundTags. ensureReplacement img dockerfile = (img', Inr foundTags))
      \<longleftrightarrow> (\<forall>t \<in> set (linesToReplace (strings_Split CHR 0x0A dockerfile) []).
             \<exists>ort. orgRepoTagFromPullString t = Inr ort)" for img dockerfile
    unfolding ensureReplacement_def by (rule ensureReplacements_succeeds_iff)
  have b: "map_get (Inputs img') ''org_repo_tag''
            = Some \<lparr>As = [''registry.svc.ci.openshift.org/org/repo:tag''], Paths = []\<rparr>
          \<and> (\<forall>baseImages. map_get baseImages ''org_repo_tag'' = None \<longrightarrow>
                map_get (ensureBaseImages foundTags baseImages) ''org_repo_tag''
                  = Some \<lparr>Namespace = ''org'', Name = ''repo'', Tag = ''tag''\<rparr>)"
    if inp: "Inputs img = []"
      and line: "\<exists>line \<in> set (strings_Split CHR 0x0A dockerfile).
           bytes_Contains line ''FROM''
           \<and> registryRegex_Find line = Some ''registry.svc.ci.openshift.org/org/repo:tag''"
      and run: "ensureReplacement img dockerfile = (img', Inr foundTags)"
    for img dockerfile img' foundTags
  proof -
    let ?toks = "linesToReplace (strings_Split CHR 0x0A dockerfile) []"
    have pre: "\<forall>t \<in> set ?toks. \<exists>rest. t = ''registry.svc.ci.openshift.org/'' @ rest"
      using registryRegex_Find_prefix by (auto simp: set_linesToReplace)
    have mem: "''registry.svc.ci.openshift.org/org/repo:tag'' \<in> set ?toks"
      using line registryRegex_Find_contains by (auto simp: set_linesToReplace)
    have none: "map_get (Inputs img) ''org_repo_tag'' = None"
      using inp by (simp add: map_get_def)
    have nohas: "\<not> hasReplacementFor img ''registry.svc.ci.openshift.org/org/repo:tag''"
      using inp by (simp add: hasReplacementFor_def)
    have run': "ensureReplacements ?toks (img, []) = (img', Inr foundTags)"
      using run by (simp add: ensureReplacement_def)
    note r = ensureReplacements_adds_record[OF pre none nohas mem run']
    have base: "map_get (ensureBaseImages foundTags baseImages) ''org_repo_tag''
                  = Some \<lparr>Namespace = ''org'', Name = ''repo'', Tag = ''tag''\<rparr>"
      if "map_get baseImages ''org_repo_tag'' = None" for baseImages
    proof (cases "List.find (\<lambda>foundTag. String foundTag = ''org_repo_tag'') foundTags")
      case None
      then show ?thesis using r[THEN conjunct2] by (auto simp: find_None_iff String_def)
    next
      case (Some ft)
      then have "String ft = ''org_repo_tag''" by (auto simp: find_Some_iff)
      from String_org_repo_tag[OF this] show ?thesis
        using that Some by (simp add: map_get_ensureBaseImages)
    qed
    show ?thesis using r[THEN conjunct1] base by blast
  qed
  have c1: "bytes_Contains ''FROM registry.svc.ci.openshift.org/org/repo:tag'' ''FROM''"
    by simp
  have c2: "registryRegex_Find ''FROM registry.svc.ci.openshift.org/org/repo:tag''
       = Some ''registry.svc.ci.openshift.org/org/repo:tag''"
    by (simp add: regexp_space_def)
  have d: "map_get (ensureBaseImages foundTags baseImages) k = Some v"
    if "map_get baseImages k = Some v" for foundTags baseImages k v
    using that by (simp add: map_get_ensureBaseImages)
  show ?thesis
    apply (intro conjI allI impI)
         apply (rule a)
        apply (rule b[THEN conjunct1]; assumption)
       apply (rule b[THEN conjunct2, rule_format]; assumption)
      apply (rule c1)
     apply (rule c2)
    apply (rule d; assumption)
    done
qed


theorem ensureReplacement_synthesis_witness:
  "(\<exists>img' foundTags.
      ensureReplacement \<lparr>From = [], To = ''out'', ContextDir = [], DockerfilePath = [], Inputs = []\<rparr>
        (''FROM registry.svc.ci.openshift.org/ocp/builder:golang-1.13 AS builder'' @ [CHR 0x0A]
           @ ''FROM registry.svc.ci.openshift.org/org/repo:tag'' @ [CHR 0x0A] @ ''RUN make'')
      = (img', Inr foundTags))
   \<and> ensureReplacement \<lparr>From = [], To = ''out'', ContextDir = [], DockerfilePath = [], Inputs = []\<rparr>
        (''FROM registry.svc.ci.openshift.org/ocp/builder:golang-1.13 AS builder'' @ [CHR 0x0A]
           @ ''FROM registry.svc.ci.openshift.org/org/repo:tag'' @ [CHR 0x0A] @ ''RUN make'')
      = (\<lparr>From = [], To = ''out'', ContextDir = [], DockerfilePath = [],
          Inputs = [(''ocp_builder_golang-1.13'',
                     \<lparr>As = [''registry.svc.ci.openshift.org/ocp/builder:golang-1.13''], Paths = []\<rparr>),
                    (''org_repo_tag'',
                     \<lparr>As = [''registry.svc.ci.openshift.org/org/repo:tag''], Paths = []\<rparr>)]\<rparr>,
         Inr [\<lparr>org = ''ocp'', repo = ''builder'', tag = ''golang-1.13''\<rparr>,
              \<lparr>org = ''org'', repo = ''repo'', tag = ''tag''\<rparr>])
   \<and> map_get [(''ocp_builder_golang-1.13'',
                \<lparr>As = [''registry.svc.ci.openshift.org/ocp/builder:golang-1.13''], Paths = []\<rparr>),
               (''org_repo_tag'',
                \<lparr>As = [''registry.svc.ci.openshift.org/org/repo:tag''], Paths = []\<rparr>)]
        ''org_repo_tag''
      = Some \<lparr>As = [''registry.svc.ci.openshift.org/org/repo:tag''], Paths = []\<rparr>
   \<and> map_get (ensureBaseImages [\<lparr>org = ''ocp'', repo = ''builder'', tag = ''golang-1.13''\<rparr>,
                                 \<lparr>org = ''org'', repo = ''repo'', tag = ''tag''\<rparr>] [])
        ''org_repo_tag'' = Some \<lparr>Namespace = ''org'', Name = ''repo'', Tag = ''tag''\<rparr>
   \<and> map_get (ensureBaseImages [\<lparr>org = ''ocp'', repo = ''builder'', tag = ''golang-1.13''\<rparr>,
                                 \<lparr>org = ''org'', repo = ''repo'', tag = ''tag''\<rparr>]
                 [(''org_repo_tag'', \<lparr>Namespace = ''ocp'', Name = ''4.6'', Tag = ''base''\<rparr>)])
        ''org_repo_tag'' = Some \<lparr>Namespace = ''ocp'', Name = ''4.6'', Tag = ''base''\<rparr>"
proof -
  let ?img = "\<lparr>From = [], To = ''out'', ContextDir = [], DockerfilePath = [], Inputs = []\<rparr>"
  let ?df = "''FROM registry.svc.ci.openshift.org/ocp/builder:golang-1.13 AS builder'' @ [CHR 0x0A]
           @ ''FROM registry.svc.ci.openshift.org/org/repo:tag'' @ [CHR 0x0A] @ ''RUN make''"
  let ?img' = "\<lparr>From = [], To = ''out'', ContextDir = [], DockerfilePath = [],
          Inputs = [(''ocp_builder_golang-1.13'',
                     \<lparr>As = [''registry.svc.ci.openshift.org/ocp/builder:golang-1.13''], Paths = []\<rparr>),
                    (''org_repo_tag'',
                     \<lparr>As = [''registry.svc.ci.openshift.org/org/repo:tag''], Paths = []\<rparr>)]\<rparr>"
  let ?found = "[\<lparr>org = ''ocp'', repo = ''builder'', tag = ''golang-1.13''\<rparr>,
              \<lparr>org = ''org'', repo = ''repo'', tag = ''tag''\<rparr>]"
  note t = ensureReplacement_synthesis
  have toks: "linesToReplace (strings_Split CHR 0x0A ?df) []
      = [''registry.svc.ci.openshift.org/ocp/builder:golang-1.13'',
         ''registry.svc.ci.openshift.org/org/repo:tag'']"
    by (simp add: regexp_space_def)
  have parse: "\<forall>t \<in> set (linesToReplace (strings_Split CHR 0x0A ?df) []).
                 \<exists>ort. orgRepoTagFromPullString t = Inr ort"
    unfolding toks by (simp add: orgRepoTagFromPullString_def)
  have ok: "\<exists>img' foundTags. ensureReplacement ?img ?df = (img', Inr foundTags)"
    using t[THEN conjunct1, rule_format, of ?img ?df] parse by (simp only:)
  have run: "ensureReplacement ?img ?df = (?img', Inr ?found)"
    unfolding ensureReplacement_def toks
    by (simp add: orgRepoTagFromPullString_def splitRepoTag_def hasReplacementFor_def map_get_def
        String_def sets_NewString_List_def)
  have inp: "Inputs ?img = []" by simp
  have line: "\<exists>line \<in> set (strings_Split CHR 0x0A ?df).
           bytes_Contains line ''FROM''
           \<and> registryRegex_Find line = Some ''registry.svc.ci.openshift.org/org/repo:tag''"
    by (simp add: regexp_space_def)
  note b = t[THEN conjunct2, THEN conjunct1, rule_format, OF inp line run]
  have rec: "map_get (Inputs ?img') ''org_repo_tag''
      = Some \<lparr>As = [''registry.svc.ci.openshift.org/org/repo:tag''], Paths = []\<rparr>"
    using b by (rule conjunct1)
  have "map_get ([] :: (string \<times> ImageStreamTagReference) list) ''org_repo_tag'' = None"
    by (simp add: map_get_def)
  then have base: "map_get (ensureBaseImages ?found []) ''org_repo_tag''
      = Some \<lparr>Namespace = ''org'', Name = ''repo'', Tag = ''tag''\<rparr>"
    using b[THEN conjunct2, rule_format] by blast
  have "map_get [(''org_repo_tag'', \<lparr>Namespace = ''ocp'', Name = ''4.6'', Tag = ''base''\<rparr>)]
      ''org_repo_tag'' = Some \<lparr>Namespace = ''ocp'', Name = ''4.6'', Tag = ''base''\<rparr>"
    by (simp add: map_get_def)
  then have frame: "map_get (ensureBaseImages ?found
                 [(''org_repo_tag'', \<lparr>Namespace = ''ocp'', Name = ''4.6'', Tag = ''base''\<rparr>)])
        ''org_repo_tag'' = Some \<lparr>Namespace = ''ocp'', Name = ''4.6'', Tag = ''base''\<rparr>"
    using t[THEN conjunct2, THEN conjunct2, THEN conjunct2, THEN conjunct2, rule_format] by blast
  show ?thesis
    using ok run rec base frame by (simp only: ProjectDirectoryImageBuildStepConfiguration.simps)
qed

subsection \<open>Empty Dockerfiles and the unused-replacement phase\<close>

lemma replaceImage_flag:
  assumes "replaceImage E getter idx (config, cands, h) = (err, config', cands', h')"
  shows "h' = (h \<or> (case getter (filepath_Join E (ContextDir (Images config ! idx))
                (if DockerfilePath (Images config ! idx) \<noteq> []
                 then DockerfilePath (Images config ! idx) else ''Dockerfile'')) of
                    Inl _ \<Rightarrow> False | Inr d \<Rightarrow> d \<noteq> []))"
proof (cases "getter (filepath_Join E (ContextDir (Images config ! idx))
                (if DockerfilePath (Images config ! idx) \<noteq> []
                 then DockerfilePath (Images config ! idx) else ''Dockerfile''))")
  case (Inl e)
  then show ?thesis using assms by (simp add: replaceImage_def Let_def)
next
  case (Inr d)
  have "snd (snd (snd (replaceImage E getter idx (config, cands, h)))) = (h \<or> d \<noteq> [])"
    unfolding replaceImage_def Let_def using Inr
    by (simp split: sum.splits prod.splits)
  then show ?thesis using assms Inr by simp
qed

lemma replaceImages_flag:
  "replaceImages E getter idxs (config, cands, h) = (err, config', cands', h') \<Longrightarrow>
   h' = (h \<or> (\<exists>d \<in> set (fetchedDockerfiles E getter idxs (config, cands, h)). d \<noteq> []))"
proof (induction idxs arbitrary: config cands h)
  case Nil
  then show ?case by simp
next
  case (Cons idx idxs)
  let ?path = "filepath_Join E (ContextDir (Images config ! idx))
                (if DockerfilePath (Images config ! idx) \<noteq> []
                 then DockerfilePath (Images config ! idx) else ''Dockerfile'')"
  obtain e c1 cs1 h1 where step: "replaceImage E getter idx (config, cands, h) = (e, c1, cs1, h1)"
    by (metis prod_cases4)
  note h1 = replaceImage_flag[OF step]
  show ?case
  proof (cases "getter ?path")
    case (Inl a)
    then have "e \<noteq> None" using step by (auto simp: replaceImage_def Let_def)
    then obtain a' where "e = Some a'" by (cases e) auto
    then have "h' = h1" using Cons.prems step by simp
    then show ?thesis using h1 Inl by (simp add: Let_def)
  next
    case (Inr d)
    show ?thesis
    proof (cases e)
      case None
      then have "replaceImages E getter idxs (c1, cs1, h1) = (err, config', cands', h')"
        using Cons.prems step by simp
      from Cons.IH[OF this] show ?thesis
        using h1 Inr step None by (auto simp: Let_def)
    next
      case (Some a)
      then have "h' = h1" using Cons.prems step by simp
      then show ?thesis using h1 Inr step Some by (auto simp: Let_def)
    qed
  qed
qed

text \<open>Every Dockerfile of the loop is fetched at the path of an image of the document the loop
  starts from: the loop changes the inputs of an image only.\<close>

lemma dockerfilePathOf_replaceImage:
  assumes "replaceImage E g idx (c, cs, h) = (None, c', cs', h')"
  shows "dockerfilePathOf join c' j = dockerfilePathOf join c j"
proof -
  from replaceImage_success[OF assms] obtain img' where
    im: "Images c' = (Images c)[idx := img']" and sb: "sameBuild (Images c ! idx) img'"
    by blast
  show ?thesis
  proof (cases "j = idx \<and> idx < length (Images c)")
    case True
    then have "Images c' ! j = img'" using im by simp
    then show ?thesis using sb True by (simp add: dockerfilePathOf_def sameBuild_def)
  next
    case False
    then have "Images c' ! j = Images c ! j"
      using im by (cases "idx < length (Images c)") (auto simp: list_update_beyond)
    then show ?thesis by (simp add: dockerfilePathOf_def)
  qed
qed

lemma fetchedDockerfiles_paths:
  "d \<in> set (fetchedDockerfiles E g idxs (c, cs, h)) \<Longrightarrow>
   \<exists>idx \<in> set idxs. g (dockerfilePathOf (filepath_Join E) c idx) = Inr d"
proof (induction idxs arbitrary: c cs h)
  case Nil
  then show ?case by simp
next
  case (Cons idx idxs)
  obtain e c1 cs1 h1 where step: "replaceImage E g idx (c, cs, h) = (e, c1, cs1, h1)"
    by (metis prod_cases4)
  show ?case
  proof (cases "g (dockerfilePathOf (filepath_Join E) c idx)")
    case (Inl a)
    then show ?thesis using Cons.prems by (simp add: dockerfilePathOf_def Let_def)
  next
    case (Inr f)
    show ?thesis
    proof (cases "d = f")
      case True
      then show ?thesis using Inr by auto
    next
      case False
      then have e: "e = None" and mem: "d \<in> set (fetchedDockerfiles E g idxs (c1, cs1, h1))"
        using Cons.prems Inr step by (auto simp: dockerfilePathOf_def Let_def split: option.splits)
      from Cons.IH[OF mem] obtain j where j: "j \<in> set idxs"
        and gj: "g (dockerfilePathOf (filepath_Join E) c1 j) = Inr d" by blast
      have "dockerfilePathOf (filepath_Join E) c1 j = dockerfilePathOf (filepath_Join E) c j"
        using dockerfilePathOf_replaceImage[OF step[unfolded e]] .
      then show ?thesis using j gj by auto
    qed
  qed
qed

text \<open>
  Claim C8: when every Dockerfile fetched in the run is empty, no Dockerfile of the run is
  recorded as non-empty, and the unused-replacement phase, with pruning enabled, returns the
  document of the loop as it is, with no error: no \<open>As\<close> entry, input record or image is removed.
  The whole run with unused-replacement pruning enabled is then the run with it disabled: the
  same result, the same document, the same writes. The Dockerfiles fetched are those the getter
  hands to the loop over the images of the document, after the reconciler when it is enabled.
\<close>

theorem replacer_skips_pruning_on_empty_dockerfiles:
  assumes "\<forall>d \<in> set (fetchedDockerfiles E
              (githubFileGetterFactory (Org (InfoMetadata info)) (Repo (InfoMetadata info))
                 (Branch (InfoMetadata info)))
              [0..<length (Images
                 (if ensureCorrectPromotionDockerfile
                  then updateDockerfilesToMatchOCPBuildData E config
                         promotionTargetToDockerfileMapping majorMinorVersion
                  else config))]
              (if ensureCorrectPromotionDockerfile
               then updateDockerfilesToMatchOCPBuildData E config
                      promotionTargetToDockerfileMapping majorMinorVersion
               else config, {}, False)). d = []"
  shows "replacer E githubFileGetterFactory writer True pruneOCPBuilderReplacementsEnabled
           ensureCorrectPromotionDockerfile promotionTargetToDockerfileMapping majorMinorVersion
           config info
         = replacer E githubFileGetterFactory writer False pruneOCPBuilderReplacementsEnabled
             ensureCorrectPromotionDockerfile promotionTargetToDockerfileMapping majorMinorVersion
             config info
       \<and> (\<forall>err c cands h.
            replaceImages E (githubFileGetterFactory (Org (InfoMetadata info))
                (Repo (InfoMetadata info)) (Branch (InfoMetadata info)))
              [0..<length (Images
                 (if ensureCorrectPromotionDockerfile
                  then updateDockerfilesToMatchOCPBuildData E config
                         promotionTargetToDockerfileMapping majorMinorVersion
                  else config))]
              (if ensureCorrectPromotionDockerfile
               then updateDockerfilesToMatchOCPBuildData E config
                      promotionTargetToDockerfileMapping majorMinorVersion
               else config, {}, False)
              = (err, c, cands, h)
            \<longrightarrow> \<not> h \<and> pruneUnusedPhase True h c cands = (c, None))"
proof -
  let ?g = "githubFileGetterFactory (Org (InfoMetadata info)) (Repo (InfoMetadata info))
              (Branch (InfoMetadata info))"
  define config1 where "config1 =
    (if ensureCorrectPromotionDockerfile
     then updateDockerfilesToMatchOCPBuildData E config promotionTargetToDockerfileMapping
            majorMinorVersion
     else config)"
  have hyp: "\<forall>d \<in> set (fetchedDockerfiles E ?g [0..<length (Images config1)] (config1, {}, False)).
               d = []"
    using assms unfolding config1_def .
  have loop: "h = False"
    if "replaceImages E ?g [0..<length (Images config1)] (config1, {}, False) = (err, c, cands, h)"
    for err c cands h
    using replaceImages_flag[OF that] hyp by blast
  obtain err c cands h where
    r: "replaceImages E ?g [0..<length (Images config1)] (config1, {}, False) = (err, c, cands, h)"
    by (metis prod_cases4)
  have h: "h = False" using loop[OF r] .
  have run: "replacer E githubFileGetterFactory writer True pruneOCPBuilderReplacementsEnabled
           ensureCorrectPromotionDockerfile promotionTargetToDockerfileMapping majorMinorVersion
           config info
         = replacer E githubFileGetterFactory writer False pruneOCPBuilderReplacementsEnabled
             ensureCorrectPromotionDockerfile promotionTargetToDockerfileMapping majorMinorVersion
             config info"
    unfolding replacer_def Let_def config1_def[symmetric] r h pruneUnusedPhase_def
    by (cases err) (simp_all cong: sum.case_cong)
  have "\<not> h' \<and> pruneUnusedPhase True h' c' cands' = (c', None)"
    if "replaceImages E ?g [0..<length (Images config1)] (config1, {}, False) = (err', c', cands', h')"
    for err' c' cands' h'
    using loop[OF that] by (simp add: pruneUnusedPhase_def)
  then show ?thesis using run unfolding config1_def by blast
qed


theorem replacer_skips_pruning_on_empty_dockerfiles_witness:
  "replacer (example_env [] (Node [] None [] []))
       (\<lambda>_ _ _ path. if path = ''sub/Dockerfile'' then Inr [] else Inr ''FROM x'') (\<lambda>_. None)
       True False False Map.empty ''4.6''
       \<lparr>Images = [\<lparr>From = [], To = ''out'', ContextDir = ''sub'', DockerfilePath = [],
                   Inputs = [(''k'', \<lparr>As = [''superfluous''], Paths = []\<rparr>)]\<rparr>],
        BaseImages = [], Metadata = \<lparr>Org = ''o'', Repo = ''r'', Branch = ''master''\<rparr>\<rparr>
       \<lparr>InfoMetadata = \<lparr>Org = ''o'', Repo = ''r'', Branch = ''master''\<rparr>, Filename = ''f.yaml''\<rparr>
     = (None,
        \<lparr>Images = [\<lparr>From = [], To = ''out'', ContextDir = ''sub'', DockerfilePath = [],
                    Inputs = [(''k'', \<lparr>As = [''superfluous''], Paths = []\<rparr>)]\<rparr>],
         BaseImages = [], Metadata = \<lparr>Org = ''o'', Repo = ''r'', Branch = ''master''\<rparr>\<rparr>,
        [])
   \<and> fetchedDockerfiles (example_env [] (Node [] None [] []))
       (\<lambda>path. if path = ''sub/Dockerfile'' then Inr [] else Inr ''FROM x'') [0]
       (\<lparr>Images = [\<lparr>From = [], To = ''out'', ContextDir = ''sub'', DockerfilePath = [],
                    Inputs = [(''k'', \<lparr>As = [''superfluous''], Paths = []\<rparr>)]\<rparr>],
         BaseImages = [], Metadata = \<lparr>Org = ''o'', Repo = ''r'', Branch = ''master''\<rparr>\<rparr>, {}, False)
     = [[]]"
proof -
  let ?E = "example_env [] (Node [] None [] []) :: ReleaseBuildConfiguration env"
  let ?info = "\<lparr>InfoMetadata = \<lparr>Org = ''o'', Repo = ''r'', Branch = ''master''\<rparr>, Filename = ''f.yaml''\<rparr>"
  let ?f = "\<lambda>(_::string) (_::string) (_::string) (path::string).
              if path = ''sub/Dockerfile'' then (Inr [] :: error + string) else Inr ''FROM x''"
  let ?cfg = "\<lparr>Images = [\<lparr>From = [], To = ''out'', ContextDir = ''sub'', DockerfilePath = [],
                   Inputs = [(''k'', \<lparr>As = [''superfluous''], Paths = []\<rparr>)]\<rparr>],
        BaseImages = [], Metadata = \<lparr>Org = ''o'', Repo = ''r'', Branch = ''master''\<rparr>\<rparr>"
  have fetched: "fetchedDockerfiles ?E
       (\<lambda>path. if path = ''sub/Dockerfile'' then Inr [] else Inr ''FROM x'') [0] (?cfg, {}, False)
     = [[]]"
    by (simp add: example_env_def replaceImage_def applyReplacementsToDockerfile_def
        ensureReplacement_def extractReplacementCandidatesFromDockerfile_def simple_Join_def)
  have hyp: "\<forall>d \<in> set (fetchedDockerfiles ?E
              (?f (Org (InfoMetadata ?info)) (Repo (InfoMetadata ?info)) (Branch (InfoMetadata ?info)))
              [0..<length (Images
                 (if False then updateDockerfilesToMatchOCPBuildData ?E ?cfg Map.empty ''4.6''
                  else ?cfg))]
              (if False then updateDockerfilesToMatchOCPBuildData ?E ?cfg Map.empty ''4.6''
               else ?cfg, {}, False)). d = []"
    using fetched by simp
  have eval: "replacer ?E ?f (\<lambda>_. None) False False False Map.empty ''4.6'' ?cfg ?info
     = (None, ?cfg, [])"
    by (simp add: replacer_def example_env_def replaceImage_def applyReplacementsToDockerfile_def
        ensureReplacement_def extractReplacementCandidatesFromDockerfile_def pruneUnusedPhase_def
        pruneOCPBuilderPhase_def writeIfChanged_def simple_Join_def)
  have "replacer ?E ?f (\<lambda>_. None) True False False Map.empty ''4.6'' ?cfg ?info
     = replacer ?E ?f (\<lambda>_. None) False False False Map.empty ''4.6'' ?cfg ?info"
    using replacer_skips_pruning_on_empty_dockerfiles[OF hyp] by blast
  then show ?thesis
    using eval fetched by simp
qed

end
